(* ===== verification/Prelude.thy ===== *)
theory Prelude
  imports Complex_Main "HOL-Library.State_Monad" "HOL-Library.AList" "HOL-Library.Char_ord"
    "HOL-Library.List_Lexorder"
begin

text \<open>
  What every theory of the development shares: the names of Go's basic types, 64-bit
  wrap-around, and Go maps as association lists.  The state monad of the effectful code and the
  calculi on it are in \<open>Effects\<close>.
\<close>

section \<open>Basic types\<close>

text \<open>
  A Go string is a sequence of bytes, here a list of \<open>char\<close> (256 values). Instants and
  durations (\<open>time.Time\<close>, \<open>time.Duration\<close>) are counted in nanoseconds.
\<close>

type_synonym instant = int
type_synonym duration = int

text \<open>\<open>types.NamespacedName\<close>: namespace and name.\<close>

type_synonym nname = "string \<times> string"

definition nanosecond :: duration where "nanosecond = 1"
definition millisecond :: duration where "millisecond = 1000000 * nanosecond"
definition second :: duration where "second = 1000 * millisecond"
definition minute :: duration where "minute = 60 * second"
definition hour :: duration where "hour = 60 * minute"

lemmas duration_units = nanosecond_def millisecond_def second_def minute_def hour_def

text \<open>The value of a 64-bit signed integer computation whose exact result is \<open>x\<close>.\<close>

definition wrap64 :: "int \<Rightarrow> int" where
  "wrap64 x = (x + 2 ^ 63) mod 2 ^ 64 - 2 ^ 63"

lemma wrap64_id: "- (2 ^ 63) \<le> x \<Longrightarrow> x < 2 ^ 63 \<Longrightarrow> wrap64 x = x"
  by (simp add: wrap64_def)

lemma wrap64_bounds: "- (2 ^ 63) \<le> wrap64 x \<and> wrap64 x < 2 ^ 63"
  using pos_mod_bound [of "2 ^ 64" "x + 2 ^ 63"] pos_mod_sign [of "2 ^ 64" "x + 2 ^ 63"]
  by (simp add: wrap64_def)

text \<open>
  What the language leaves to the platform: the Unicode case mapping outside ASCII, the
  iteration order of a map (any order of distinct keys is that of some ranks), the conversion
  to \<open>int64\<close> of a float outside its range, and \<open>net/netip\<close>'s reading of the text between
  the brackets of an IP literal.
\<close>

record platform =
  pf_unicode_upper :: "string \<Rightarrow> string"
  pf_map_rank :: "string \<Rightarrow> nat"
  pf_int64 :: "rat \<Rightarrow> int"
  pf_ip_literal :: "string \<Rightarrow> string option"

section \<open>Go maps\<close>

text \<open>
  A Go map from strings is an association list with distinct keys. The list order stands for
  the order in which the runtime happens to iterate; statements compare maps by \<open>map_of\<close>,
  so they hold for every iteration order.
\<close>

type_synonym 'v gomap = "(string \<times> 'v) list"

abbreviation mkeys :: "'v gomap \<Rightarrow> string list" where
  "mkeys m \<equiv> map fst m"

definition wf_map :: "'v gomap \<Rightarrow> bool" where
  "wf_map m = distinct (mkeys m)"

abbreviation mset_key :: "string \<Rightarrow> 'v \<Rightarrow> 'v gomap \<Rightarrow> 'v gomap" where
  "mset_key k v m \<equiv> AList.update k v m"

definition same_map :: "'v gomap \<Rightarrow> 'v gomap \<Rightarrow> bool" where
  "same_map m n = (map_of m = map_of n)"

named_theorems map_simps \<open>equations on Go maps\<close>

lemma wf_map_Nil [simp, intro]: "wf_map []"
  by (simp add: wf_map_def)

lemma wf_map_update [simp, intro]: "wf_map m \<Longrightarrow> wf_map (mset_key k v m)"
  by (simp add: wf_map_def distinct_update)

lemma map_of_mset_key [map_simps]: "map_of (mset_key k v m) = (map_of m)(k \<mapsto> v)"
  by (simp add: update_conv')

lemma same_map_refl [simp, intro]: "same_map m m"
  by (simp add: same_map_def)

lemma same_map_sym: "same_map m n \<Longrightarrow> same_map n m"
  by (simp add: same_map_def)

lemma same_map_trans [trans]: "same_map m n \<Longrightarrow> same_map n p \<Longrightarrow> same_map m p"
  by (simp add: same_map_def)

lemma same_map_keys: "same_map m n \<Longrightarrow> set (mkeys m) = set (mkeys n)"
  by (metis dom_map_of_conv_image_fst list.set_map same_map_def)

lemma same_map_length:
  assumes "same_map m n" "wf_map m" "wf_map n"
  shows "length m = length n"
proof -
  have "card (set (mkeys m)) = length m" "card (set (mkeys n)) = length n"
    using assms(2,3) by (simp_all only: wf_map_def distinct_card length_map)
  then show ?thesis by (simp only: same_map_keys [OF assms(1)])
qed

lemma same_map_mset_key: "same_map m n \<Longrightarrow> same_map (mset_key k v m) (mset_key k v n)"
  by (simp add: same_map_def map_simps)

text \<open>\<open>sort.Strings\<close> over the keys: bytewise lexicographic order.\<close>

definition sorted_keys :: "'v gomap \<Rightarrow> string list" where
  "sorted_keys m = sort (mkeys m)"

lemma sorted_keys_cong:
  "same_map m n \<Longrightarrow> wf_map m \<Longrightarrow> wf_map n \<Longrightarrow> sorted_keys m = sorted_keys n"
  unfolding sorted_keys_def
  by (rule sorted_distinct_set_unique)
    (simp_all add: wf_map_def same_map_keys [simplified] del: list.set_map)

lemma set_sorted_keys [simp]: "set (sorted_keys m) = fst ` set m"
  by (simp add: sorted_keys_def)

section \<open>Results\<close>

text \<open>A fallible computation returns \<open>Inl\<close> of its error or \<open>Inr\<close> of its value.\<close>

named_theorems result_simps \<open>when a fallible computation succeeds\<close>

definition is_ok :: "'e + 'a \<Rightarrow> bool" where
  "is_ok r = (case r of Inl _ \<Rightarrow> False | Inr _ \<Rightarrow> True)"

lemma is_ok_simps [simp]: "is_ok (Inl e) = False" "is_ok (Inr x) = True"
  by (simp_all add: is_ok_def)

definition try_then :: "'e + 'a \<Rightarrow> ('a \<Rightarrow> 'e + 'b) \<Rightarrow> 'e + 'b" where
  "try_then r f = (case r of Inl e \<Rightarrow> Inl e | Inr x \<Rightarrow> f x)"

lemma try_then_simps [simp]: "try_then (Inl e) f = Inl e" "try_then (Inr x) f = f x"
  by (simp_all add: try_then_def)

lemma try_then_Inr [result_simps]: "try_then r f = Inr y \<longleftrightarrow> (\<exists>x. r = Inr x \<and> f x = Inr y)"
  by (cases r) auto

lemma try_then_Inl [result_simps]:
  "try_then r f = Inl e \<longleftrightarrow> r = Inl e \<or> (\<exists>x. r = Inr x \<and> f x = Inl e)"
  by (cases r) auto

end
