(* ===== verification/Effects.thy ===== *)
theory Effects
  imports Prelude
begin

text \<open>
  The state monad of the effectful code (\<open>HOL-Library.State_Monad\<close>) and the calculi of
  the component proofs.  \<open>wp m Q s\<close>: the run of \<open>m\<close> from \<open>s\<close> ends with a result and a
  state that satisfy \<open>Q\<close>.  \<open>keeps obs m\<close>: no run of \<open>m\<close> changes the observation
  \<open>obs\<close> of the state; \<open>yields P m\<close>: every run returns a value with \<open>P\<close>; \<open>guarantees I m R\<close>:
  every run keeps the invariant \<open>I\<close> and, from a state with \<open>I\<close>, returns a value with \<open>R\<close>.
  \<open>zoom\<close> runs the operation of a part inside the whole.
\<close>

abbreviation ret :: "'a \<Rightarrow> ('s, 'a) state" where
  "ret \<equiv> State_Monad.return"

definition modify :: "('s \<Rightarrow> 's) \<Rightarrow> ('s, unit) state" where
  "modify f = State (\<lambda>s. ((), f s))"

definition gets :: "('s \<Rightarrow> 'a) \<Rightarrow> ('s, 'a) state" where
  "gets f = State (\<lambda>s. (f s, s))"

definition zoom :: "('s \<Rightarrow> 't) \<Rightarrow> ('t \<Rightarrow> 's \<Rightarrow> 's) \<Rightarrow> ('t, 'a) state \<Rightarrow> ('s, 'a) state" where
  "zoom view put m = State (\<lambda>s. case run_state m (view s) of (x, t) \<Rightarrow> (x, put t s))"

lemma run_modify [simp]: "run_state (modify f) s = ((), f s)"
  by (simp add: modify_def)

lemma run_gets [simp]: "run_state (gets f) s = (f s, s)"
  by (simp add: gets_def)

lemma run_zoom [simp]:
  "run_state (zoom view put m) s = (case run_state m (view s) of (x, t) \<Rightarrow> (x, put t s))"
  by (simp add: zoom_def)

section \<open>What holds after a run\<close>

definition wp :: "('s, 'a) state \<Rightarrow> ('a \<Rightarrow> 's \<Rightarrow> bool) \<Rightarrow> 's \<Rightarrow> bool" where
  "wp m Q s = (case run_state m s of (x, t) \<Rightarrow> Q x t)"

named_theorems wp_simps \<open>weakest precondition equations\<close>

lemma wp_return [wp_simps]: "wp (ret x) Q s = Q x s"
  by (simp add: wp_def)

lemma wp_bind [wp_simps]: "wp (State_Monad.bind m f) Q s = wp m (\<lambda>x. wp (f x) Q) s"
  by (simp add: wp_def split: prod.splits)

lemma wp_modify [wp_simps]: "wp (modify f) Q s = Q () (f s)"
  by (simp add: wp_def)

lemma wp_gets [wp_simps]: "wp (gets f) Q s = Q (f s) s"
  by (simp add: wp_def)

lemma wp_zoom [wp_simps]: "wp (zoom view put m) Q s = wp m (\<lambda>x t. Q x (put t s)) (view s)"
  by (simp add: wp_def split: prod.splits)

lemma wp_if [wp_simps]: "wp (if b then m else n) Q s = (if b then wp m Q s else wp n Q s)"
  by simp

lemma wp_case_sum [wp_simps]:
  "wp (case r of Inl e \<Rightarrow> f e | Inr x \<Rightarrow> g x) Q s =
    (case r of Inl e \<Rightarrow> wp (f e) Q s | Inr x \<Rightarrow> wp (g x) Q s)"
  by (simp split: sum.splits)

lemma wp_case_option [wp_simps]:
  "wp (case r of None \<Rightarrow> m | Some x \<Rightarrow> g x) Q s =
    (case r of None \<Rightarrow> wp m Q s | Some x \<Rightarrow> wp (g x) Q s)"
  by (simp split: option.splits)

lemma wp_case_prod [wp_simps]:
  "wp (case r of (x, y) \<Rightarrow> f x y) Q s = (case r of (x, y) \<Rightarrow> wp (f x y) Q s)"
  by (simp split: prod.splits)

lemma wp_Let [wp_simps]: "wp (let x = a in f x) Q s = (let x = a in wp (f x) Q s)"
  by simp

lemma wp_run: "wp m Q s \<Longrightarrow> run_state m s = (x, t) \<Longrightarrow> Q x t"
  by (simp add: wp_def)

lemma wpI: "(\<And>x t. run_state m s = (x, t) \<Longrightarrow> Q x t) \<Longrightarrow> wp m Q s"
  by (simp add: wp_def split: prod.splits)

lemma wp_mono: "wp m P s \<Longrightarrow> (\<And>x t. P x t \<Longrightarrow> Q x t) \<Longrightarrow> wp m Q s"
  by (simp add: wp_def split: prod.splits)

lemma wp_True [simp]: "wp m (\<lambda>_ _. True) s"
  by (simp add: wp_def split: prod.splits)

lemma wp_conj: "wp m P s \<Longrightarrow> wp m Q s \<Longrightarrow> wp m (\<lambda>x t. P x t \<and> Q x t) s"
  by (simp add: wp_def split: prod.splits)

section \<open>What a run leaves unchanged\<close>

definition keeps :: "('s \<Rightarrow> 'o) \<Rightarrow> ('s, 'a) state \<Rightarrow> bool" where
  "keeps obs m = (\<forall>s. obs (snd (run_state m s)) = obs s)"

named_theorems keeps_intros \<open>compositional frame rules\<close>

lemma keepsI: "(\<And>s x t. run_state m s = (x, t) \<Longrightarrow> obs t = obs s) \<Longrightarrow> keeps obs m"
  by (simp add: keeps_def) (metis prod.collapse)

lemma keepsD: "keeps obs m \<Longrightarrow> run_state m s = (x, t) \<Longrightarrow> obs t = obs s"
  by (metis keeps_def snd_conv)

lemma keeps_return [keeps_intros]: "keeps obs (ret x)"
  by (simp add: keeps_def)

lemma keeps_bind [keeps_intros]:
  "keeps obs m \<Longrightarrow> (\<And>x. keeps obs (f x)) \<Longrightarrow> keeps obs (State_Monad.bind m f)"
  by (simp add: keeps_def split: prod.splits) (metis snd_conv)

lemma keeps_gets [keeps_intros]: "keeps obs (gets f)"
  by (simp add: keeps_def)

lemma keeps_modify [keeps_intros]: "(\<And>s. obs (f s) = obs s) \<Longrightarrow> keeps obs (modify f)"
  by (simp add: keeps_def)

lemma keeps_if [keeps_intros]:
  "(b \<Longrightarrow> keeps obs m) \<Longrightarrow> (\<not> b \<Longrightarrow> keeps obs n) \<Longrightarrow> keeps obs (if b then m else n)"
  by simp

lemma keeps_case_sum [keeps_intros]:
  "(\<And>e. r = Inl e \<Longrightarrow> keeps obs (f e)) \<Longrightarrow> (\<And>x. r = Inr x \<Longrightarrow> keeps obs (g x)) \<Longrightarrow>
    keeps obs (case r of Inl e \<Rightarrow> f e | Inr x \<Rightarrow> g x)"
  by (simp split: sum.splits)

lemma keeps_case_option [keeps_intros]:
  "(r = None \<Longrightarrow> keeps obs m) \<Longrightarrow> (\<And>x. r = Some x \<Longrightarrow> keeps obs (g x)) \<Longrightarrow>
    keeps obs (case r of None \<Rightarrow> m | Some x \<Rightarrow> g x)"
  by (simp split: option.splits)

lemma keeps_case_prod [keeps_intros]:
  "(\<And>x y. r = (x, y) \<Longrightarrow> keeps obs (f x y)) \<Longrightarrow> keeps obs (case r of (x, y) \<Rightarrow> f x y)"
  by (simp split: prod.splits)

lemma keeps_Let [keeps_intros]: "keeps obs (f a) \<Longrightarrow> keeps obs (let x = a in f x)"
  by simp

text \<open>
  A part's operation keeps an observation of the whole when putting the part back can only
  matter through an observation of the part, and the operation keeps that.
\<close>

lemma keeps_zoom:
  assumes "\<And>s t. part t = part (view s) \<Longrightarrow> obs (put t s) = obs s" and "keeps part m"
  shows "keeps obs (zoom view put m)"
  using assms by (simp add: keeps_def split: prod.splits) (metis snd_conv)

lemma keeps_zoom_other:
  "(\<And>s t. obs (put t s) = obs s) \<Longrightarrow> keeps obs (zoom view put m)"
  by (rule keeps_zoom [where part = "\<lambda>_. ()"]) (simp_all add: keeps_def)

lemma keeps_wp: "keeps obs m \<Longrightarrow> obs s = v \<Longrightarrow> wp m (\<lambda>_ t. obs t = v) s"
  by (auto intro!: wpI dest: keepsD)

section \<open>What every run returns\<close>

definition yields :: "('a \<Rightarrow> bool) \<Rightarrow> ('s, 'a) state \<Rightarrow> bool" where
  "yields P m = (\<forall>s. P (fst (run_state m s)))"

named_theorems yields_intros \<open>compositional rules for the values a computation returns\<close>

lemma yieldsD: "yields P m \<Longrightarrow> run_state m s = (x, t) \<Longrightarrow> P x"
  by (metis yields_def fst_conv)

lemma yields_wp: "yields P m \<Longrightarrow> wp m (\<lambda>x _. P x) s"
  by (auto intro!: wpI dest: yieldsD)

lemma yields_mono: "yields P m \<Longrightarrow> (\<And>x. P x \<Longrightarrow> Q x) \<Longrightarrow> yields Q m"
  by (simp add: yields_def)

lemma yields_return [yields_intros]: "P x \<Longrightarrow> yields P (ret x)"
  by (simp add: yields_def)

lemma yields_bind [yields_intros]: "(\<And>x. yields P (f x)) \<Longrightarrow> yields P (State_Monad.bind m f)"
  by (simp add: yields_def split: prod.splits)

lemma yields_bind_first: "yields Q m \<Longrightarrow> (\<And>x. Q x \<Longrightarrow> yields P (f x)) \<Longrightarrow> yields P (State_Monad.bind m f)"
  by (simp add: yields_def split: prod.splits) (metis fst_conv)

lemma yields_if [yields_intros]:
  "(b \<Longrightarrow> yields P m) \<Longrightarrow> (\<not> b \<Longrightarrow> yields P n) \<Longrightarrow> yields P (if b then m else n)"
  by simp

lemma yields_case_sum [yields_intros]:
  "(\<And>e. r = Inl e \<Longrightarrow> yields P (f e)) \<Longrightarrow> (\<And>x. r = Inr x \<Longrightarrow> yields P (g x)) \<Longrightarrow>
    yields P (case r of Inl e \<Rightarrow> f e | Inr x \<Rightarrow> g x)"
  by (simp split: sum.splits)

lemma yields_case_option [yields_intros]:
  "(r = None \<Longrightarrow> yields P m) \<Longrightarrow> (\<And>x. r = Some x \<Longrightarrow> yields P (g x)) \<Longrightarrow>
    yields P (case r of None \<Rightarrow> m | Some x \<Rightarrow> g x)"
  by (simp split: option.splits)

lemma yields_case_prod [yields_intros]:
  "(\<And>x y. r = (x, y) \<Longrightarrow> yields P (f x y)) \<Longrightarrow> yields P (case r of (x, y) \<Rightarrow> f x y)"
  by (simp split: prod.splits)

lemma yields_Let [yields_intros]: "yields P (f a) \<Longrightarrow> yields P (let x = a in f x)"
  by simp

section \<open>Invariants of a run\<close>

definition guarantees :: "('s \<Rightarrow> bool) \<Rightarrow> ('s, 'a) state \<Rightarrow> ('a \<Rightarrow> bool) \<Rightarrow> bool" where
  "guarantees I m R = (\<forall>s. I s \<longrightarrow> I (snd (run_state m s)) \<and> R (fst (run_state m s)))"

abbreviation maintains :: "('s \<Rightarrow> bool) \<Rightarrow> ('s, 'a) state \<Rightarrow> bool" where
  "maintains I m \<equiv> guarantees I m (\<lambda>_. True)"

named_theorems guarantees_intros \<open>compositional rules for invariants and results\<close>

lemma guaranteesI:
  "(\<And>s x t. I s \<Longrightarrow> run_state m s = (x, t) \<Longrightarrow> I t \<and> R x) \<Longrightarrow> guarantees I m R"
  by (simp add: guarantees_def) (metis prod.collapse)

lemma guaranteesD: "guarantees I m R \<Longrightarrow> I s \<Longrightarrow> run_state m s = (x, t) \<Longrightarrow> I t \<and> R x"
  by (metis guarantees_def fst_conv snd_conv)

lemma guarantees_mono: "guarantees I m R \<Longrightarrow> (\<And>x. R x \<Longrightarrow> S x) \<Longrightarrow> guarantees I m S"
  by (simp add: guarantees_def)

lemma guarantees_True: "guarantees I m R \<Longrightarrow> maintains I m"
  by (rule guarantees_mono) simp_all

lemma guarantees_conj:
  "guarantees I m R \<Longrightarrow> yields S m \<Longrightarrow> guarantees I m (\<lambda>x. R x \<and> S x)"
  by (simp add: guarantees_def yields_def)

lemma guarantees_return [guarantees_intros]: "R x \<Longrightarrow> guarantees I (ret x) R"
  by (simp add: guarantees_def)

lemma guarantees_bind_first:
  "guarantees I m R \<Longrightarrow> (\<And>x. R x \<Longrightarrow> guarantees I (f x) S) \<Longrightarrow> guarantees I (State_Monad.bind m f) S"
  by (simp add: guarantees_def split: prod.splits) (metis fst_conv snd_conv)

lemma guarantees_bind [guarantees_intros]:
  "maintains I m \<Longrightarrow> (\<And>x. guarantees I (f x) S) \<Longrightarrow> guarantees I (State_Monad.bind m f) S"
  by (rule guarantees_bind_first)

lemma guarantees_if [guarantees_intros]:
  "(b \<Longrightarrow> guarantees I m R) \<Longrightarrow> (\<not> b \<Longrightarrow> guarantees I n R) \<Longrightarrow> guarantees I (if b then m else n) R"
  by simp

lemma guarantees_case_sum [guarantees_intros]:
  "(\<And>e. r = Inl e \<Longrightarrow> guarantees I (f e) R) \<Longrightarrow> (\<And>x. r = Inr x \<Longrightarrow> guarantees I (g x) R) \<Longrightarrow>
    guarantees I (case r of Inl e \<Rightarrow> f e | Inr x \<Rightarrow> g x) R"
  by (simp split: sum.splits)

lemma guarantees_case_option [guarantees_intros]:
  "(r = None \<Longrightarrow> guarantees I m R) \<Longrightarrow> (\<And>x. r = Some x \<Longrightarrow> guarantees I (g x) R) \<Longrightarrow>
    guarantees I (case r of None \<Rightarrow> m | Some x \<Rightarrow> g x) R"
  by (simp split: option.splits)

lemma guarantees_case_prod [guarantees_intros]:
  "(\<And>x y. r = (x, y) \<Longrightarrow> guarantees I (f x y) R) \<Longrightarrow> guarantees I (case r of (x, y) \<Rightarrow> f x y) R"
  by (simp split: prod.splits)

lemma guarantees_Let [guarantees_intros]: "guarantees I (f a) R \<Longrightarrow> guarantees I (let x = a in f x) R"
  by simp

lemma guarantees_keeps: "keeps obs m \<Longrightarrow> (\<And>s. I s = J (obs s)) \<Longrightarrow> maintains I m"
  by (simp add: guarantees_def keeps_def)

end
