(* ===== verification/Go_Error.thy ===== *)
theory Go_Error
  imports Prelude
begin

text \<open>
  Go error values and formatted messages.  A message made by \<open>fmt.Sprintf\<close> is kept as its
  format and its arguments: nothing in the program looks inside one.  The typed errors of
  \<open>internal/ferrvault/client.go\<close> and \<open>internal/controller/transforms.go\<close> are constructors;
  \<open>Wrapf\<close> is \<open>fmt.Errorf\<close> with a \<open>%w\<close> verb, \<open>Errorf\<close> one without,
  \<open>Foreign\<close> an error value of a library (net/http, url, the Kubernetes client, the context).
\<close>

datatype auth_kind = AuthUnauthorized | AuthForbidden

datatype goerror =
    TransportError goerror int
  | AuthError auth_kind string
  | NotFoundError string
  | APIError int string int
  | TransformError int string gomsg
  | ErrTargetConflict
  | Errorf gomsg
  | Wrapf gomsg goerror
  | Foreign string
and gomsg = Sprintf string "goarg list"
and goarg = AStr string | AInt int | AStrs "string list" | AErr goerror | AMsg gomsg

text \<open>\<open>errors.Unwrap\<close>: the error one step down the chain.\<close>

fun unwrap :: "goerror \<Rightarrow> goerror option" where
  "unwrap (TransportError e _) = Some e"
| "unwrap (Wrapf _ e) = Some e"
| "unwrap _ = None"

text \<open>\<open>errors.As\<close>: the first error of the chain that the test recognises.\<close>

fun error_chain :: "goerror \<Rightarrow> goerror list" where
  "error_chain (TransportError e n) = TransportError e n # error_chain e"
| "error_chain (Wrapf m e) = Wrapf m e # error_chain e"
| "error_chain e = [e]"

definition errors_As :: "(goerror \<Rightarrow> bool) \<Rightarrow> goerror \<Rightarrow> goerror option" where
  "errors_As p e = List.find p (error_chain e)"

lemma error_chain_unwrap:
  "error_chain e = e # (case unwrap e of None \<Rightarrow> [] | Some u \<Rightarrow> error_chain u)"
  by (cases e) simp_all

fun is_TransportError :: "goerror \<Rightarrow> bool" where
  "is_TransportError (TransportError _ _) = True"
| "is_TransportError _ = False"

fun is_AuthError :: "goerror \<Rightarrow> bool" where
  "is_AuthError (AuthError _ _) = True"
| "is_AuthError _ = False"

fun is_NotFoundError :: "goerror \<Rightarrow> bool" where
  "is_NotFoundError (NotFoundError _) = True"
| "is_NotFoundError _ = False"

fun is_APIError :: "goerror \<Rightarrow> bool" where
  "is_APIError (APIError _ _ _) = True"
| "is_APIError _ = False"

lemma is_AuthError_iff: "is_AuthError e \<longleftrightarrow> (\<exists>k m. e = AuthError k m)"
  by (cases e) simp_all

lemma is_NotFoundError_iff: "is_NotFoundError e \<longleftrightarrow> (\<exists>m. e = NotFoundError m)"
  by (cases e) simp_all

lemma is_APIError_iff: "is_APIError e \<longleftrightarrow> (\<exists>s m n. e = APIError s m n)"
  by (cases e) simp_all

lemma is_TransportError_iff: "is_TransportError e \<longleftrightarrow> (\<exists>u n. e = TransportError u n)"
  by (cases e) simp_all

lemma errors_As_head: "p e \<Longrightarrow> errors_As p e = Some e"
  by (subst errors_As_def, subst error_chain_unwrap) simp

lemma errors_As_step:
  "\<not> p e \<Longrightarrow> errors_As p e = (case unwrap e of None \<Rightarrow> None | Some u \<Rightarrow> errors_As p u)"
  by (subst errors_As_def, subst error_chain_unwrap) (simp add: errors_As_def split: option.split)

lemma errors_As_SomeD: "errors_As p e = Some u \<Longrightarrow> p u"
  by (auto simp: errors_As_def find_Some_iff)

lemma errors_As_Wrapf [simp]:
  "errors_As p (Wrapf m e) = (if p (Wrapf m e) then Some (Wrapf m e) else errors_As p e)"
  by (simp add: errors_As_def)

lemma errors_As_TransportError [simp]:
  "errors_As p (TransportError e n) =
    (if p (TransportError e n) then Some (TransportError e n) else errors_As p e)"
  by (simp add: errors_As_def)

lemma errors_As_flat [simp]:
  "errors_As p (AuthError k m) = (if p (AuthError k m) then Some (AuthError k m) else None)"
  "errors_As p (NotFoundError m) = (if p (NotFoundError m) then Some (NotFoundError m) else None)"
  "errors_As p (APIError s m n) = (if p (APIError s m n) then Some (APIError s m n) else None)"
  "errors_As p (TransformError i t g) =
    (if p (TransformError i t g) then Some (TransformError i t g) else None)"
  "errors_As p ErrTargetConflict = (if p ErrTargetConflict then Some ErrTargetConflict else None)"
  "errors_As p (Errorf g) = (if p (Errorf g) then Some (Errorf g) else None)"
  "errors_As p (Foreign f) = (if p (Foreign f) then Some (Foreign f) else None)"
  by (simp_all add: errors_As_def)

text \<open>\<open>errors.Is\<close> against a sentinel: some error of the chain equals it.\<close>

definition errors_Is :: "goerror \<Rightarrow> goerror \<Rightarrow> bool" where
  "errors_Is target e = list_ex (\<lambda>u. u = target) (error_chain e)"

section \<open>The Error methods\<close>

definition TransportError_Error :: "goerror \<Rightarrow> gomsg" where
  "TransportError_Error underlying = Sprintf ''ferrvault transport error: %v'' [AErr underlying]"

definition AuthError_Error :: "auth_kind \<Rightarrow> string \<Rightarrow> gomsg" where
  "AuthError_Error kind msg =
     (case kind of
        AuthForbidden \<Rightarrow> Sprintf ''ferrvault forbidden: %s'' [AStr msg]
      | _ \<Rightarrow> Sprintf ''ferrvault unauthorized: %s'' [AStr msg])"

definition NotFoundError_Error :: "string \<Rightarrow> gomsg" where
  "NotFoundError_Error msg = Sprintf ''ferrvault not found: %s'' [AStr msg]"

definition APIError_Error :: "int \<Rightarrow> string \<Rightarrow> gomsg" where
  "APIError_Error status msg = Sprintf ''ferrvault api error %d: %s'' [AInt status, AStr msg]"

definition TransformError_Error :: "int \<Rightarrow> string \<Rightarrow> gomsg \<Rightarrow> gomsg" where
  "TransformError_Error idx ty msg =
     (if idx < 0 then Sprintf ''transform %s: %s'' [AStr ty, AMsg msg]
      else Sprintf ''transforms[%d] (%s): %s'' [AInt idx, AStr ty, AMsg msg])"

text \<open>The call of the interface method \<open>error.Error\<close>.\<close>

fun err_Error :: "goerror \<Rightarrow> gomsg" where
  "err_Error (TransportError e _) = TransportError_Error e"
| "err_Error (AuthError k m) = AuthError_Error k m"
| "err_Error (NotFoundError m) = NotFoundError_Error m"
| "err_Error (APIError s m _) = APIError_Error s m"
| "err_Error (TransformError i t m) = TransformError_Error i t m"
| "err_Error ErrTargetConflict =
     Sprintf ''target Secret exists and is not managed by this operator'' []"
| "err_Error (Errorf m) = m"
| "err_Error (Wrapf m _) = m"
| "err_Error (Foreign s) = Sprintf s []"

end
