(* ===== verification/Api_Types.thy ===== *)
theory Api_Types
  imports Go_Error
begin

text \<open>
  The custom resources of \<open>api/ferrvault/v1alpha1\<close> and the parts of the Kubernetes objects
  the controllers read and write.  A pointer that may be nil is an \<open>option\<close>; a Kubernetes
  annotation map that may be nil is a \<open>gomap option\<close>; a slice is a list.
\<close>

section \<open>Kubernetes object metadata and conditions\<close>

datatype condition_status = ConditionTrue | ConditionFalse | ConditionUnknown

record condition =
  c_type :: string
  c_status :: condition_status
  c_reason :: string
  c_message :: gomsg
  c_observedGeneration :: int
  c_lastTransitionTime :: instant

record owner_ref =
  or_uid :: string
  or_name :: string
  or_controller :: bool

record objmeta =
  om_name :: string
  om_namespace :: string
  om_uid :: string
  om_resourceVersion :: string
  om_generation :: int
  om_deletionTimestamp :: "instant option"
  om_finalizers :: "string list"
  om_annotations :: "string gomap option"
  om_ownerReferences :: "owner_ref list"

text \<open>Reading a key of a map that may be nil: a nil map has no key.\<close>

definition lookup :: "'v gomap option \<Rightarrow> string \<Rightarrow> 'v option" where
  "lookup m k = (case m of None \<Rightarrow> None | Some a \<Rightarrow> map_of a k)"

text \<open>Go's single-value map read: the zero value, the empty string, for a missing key.\<close>

definition lookup_str :: "string gomap option \<Rightarrow> string \<Rightarrow> string" where
  "lookup_str m k = (case lookup m k of None \<Rightarrow> [] | Some v \<Rightarrow> v)"

text \<open>\<open>if m == nil { m = map[string]string{} }\<close>.\<close>

definition made :: "'v gomap option \<Rightarrow> 'v gomap" where
  "made m = (case m of None \<Rightarrow> [] | Some a \<Rightarrow> a)"

lemma lookup_simps [simp]: "lookup None k = None" "lookup (Some a) k = map_of a k"
  by (simp_all add: lookup_def)

lemma lookup_made [simp]: "map_of (made m) k = lookup m k"
  by (cases m) (simp_all add: made_def)

section \<open>FerrVaultConnection\<close>

record secret_key_ref =
  skr_Name :: string
  skr_Key :: string

record oidc_auth =
  oa_ClusterID :: string
  oa_TokenPath :: string
  oa_Audience :: string

record connection_spec =
  cs_Mode :: string
  cs_URL :: string
  cs_Organization :: string
  cs_TokenSecretRef :: "secret_key_ref option"
  cs_OIDC :: "oidc_auth option"

record connection_status =
  cst_Conditions :: "condition list"
  cst_LastCheckedAt :: "instant option"

record connection =
  cn_meta :: objmeta
  cn_Spec :: connection_spec
  cn_Status :: connection_status

definition ModeCloud :: string where "ModeCloud = ''cloud''"
definition ModeFerrVault :: string where "ModeFerrVault = ''ferrvault''"

definition DefaultTokenPath :: string where
  "DefaultTokenPath = ''/var/run/secrets/ferrvault/token''"

definition Spec_ResolvedMode :: "connection_spec \<Rightarrow> string" where
  "Spec_ResolvedMode s = (if cs_Mode s = [] then ModeFerrVault else cs_Mode s)"

definition ResolvedMode :: "connection \<Rightarrow> string" where
  "ResolvedMode conn = Spec_ResolvedMode (cn_Spec conn)"

section \<open>FerrVaultSecret\<close>

text \<open>A struct with a single field is that field.\<close>

type_synonym local_object_reference = string
type_synonym secret_selector = "string list"

record workload_ref =
  wr_Kind :: string
  wr_Name :: string

record secret_target =
  st_Name :: string
  st_Type :: string

record secret_transform =
  tr_Type :: string
  tr_Value :: string
  tr_From :: string
  tr_To :: string
  tr_Keys :: "string list"
  tr_Key :: string

record secret_spec =
  ss_ConnectionRef :: local_object_reference
  ss_Project :: string
  ss_Vault :: string
  ss_SelectorNames :: secret_selector
  ss_Target :: secret_target
  ss_RefreshInterval :: string
  ss_RolloutRestart :: "workload_ref list"
  ss_Transforms :: "secret_transform list"

record secret_status =
  sst_Conditions :: "condition list"
  sst_LastSyncedAt :: "instant option"
  sst_LastRolloutHash :: string
  sst_SyncedKeys :: "string list"
  sst_MissingKeys :: "string list"
  sst_ObservedGeneration :: int

record fvsecret =
  fs_meta :: objmeta
  fs_Spec :: secret_spec
  fs_Status :: secret_status

abbreviation fs_Name :: "fvsecret \<Rightarrow> string" where "fs_Name cr \<equiv> om_name (fs_meta cr)"
abbreviation fs_Namespace :: "fvsecret \<Rightarrow> string" where "fs_Namespace cr \<equiv> om_namespace (fs_meta cr)"
abbreviation cn_Name :: "connection \<Rightarrow> string" where "cn_Name c \<equiv> om_name (cn_meta c)"
abbreviation cn_Namespace :: "connection \<Rightarrow> string" where "cn_Namespace c \<equiv> om_namespace (cn_meta c)"

section \<open>The Kubernetes Secret and the workloads\<close>

record k8s_secret =
  sec_meta :: objmeta
  sec_Type :: string
  sec_Data :: "string gomap"
  sec_StringData :: "string gomap"

text \<open>
  A Deployment, StatefulSet or DaemonSet: its metadata and the annotations of its pod template.
\<close>

record workload =
  wl_meta :: objmeta
  wl_templateAnnotations :: "string gomap option"

text \<open>\<open>reconcile.Request\<close> and \<open>ctrl.Result\<close>: the only field the code sets is the delay.\<close>

record ctrl_result =
  RequeueAfter :: duration

end
