(* ===== verification/Go_Strings.thy ===== *)
theory Go_Strings
  imports Prelude
begin

text \<open>
  The functions of Go's \<open>strings\<close> package the program calls, on byte strings, and decimal
  and hexadecimal digits.  \<open>ToUpper\<close> is exact on ASCII strings; on others it is the
  argument \<open>uni\<close>, the Unicode case mapping, whose tables are not modelled.
\<close>

section \<open>Bytes\<close>

definition byte :: "char \<Rightarrow> nat" where
  "byte c = of_char c"

definition chr :: "nat \<Rightarrow> char" where
  "chr n = char_of n"

lemma byte_less [simp]: "byte c < 256"
  by (simp add: byte_def)

lemma chr_byte [simp]: "chr (byte c) = c"
  by (simp add: chr_def byte_def)

lemma byte_chr [simp]: "n < 256 \<Longrightarrow> byte (chr n) = n"
  by (simp add: chr_def byte_def)

lemma byte_inject [simp]: "byte a = byte b \<longleftrightarrow> a = b"
  by (simp add: byte_def)

definition is_ascii :: "string \<Rightarrow> bool" where
  "is_ascii s = list_all (\<lambda>c. byte c < 128) s"

section \<open>HasPrefix, TrimRight, TrimSpace, Join\<close>

fun HasPrefix :: "string \<Rightarrow> string \<Rightarrow> bool" where
  "HasPrefix s [] = True"
| "HasPrefix [] (p # ps) = False"
| "HasPrefix (c # cs) (p # ps) = (c = p \<and> HasPrefix cs ps)"

definition HasSuffix :: "string \<Rightarrow> string \<Rightarrow> bool" where
  "HasSuffix s p = HasPrefix (rev s) (rev p)"

lemma HasPrefix_iff: "HasPrefix s p \<longleftrightarrow> (\<exists>t. s = p @ t)"
  by (induction s p rule: HasPrefix.induct) auto

text \<open>\<open>strings.TrimRight(s, "/")\<close>.\<close>

definition TrimRight_slash :: "string \<Rightarrow> string" where
  "TrimRight_slash s = rev (dropWhile (\<lambda>c. c = CHR ''/'') (rev s))"

text \<open>
  \<open>unicode.IsSpace\<close> on the UTF-8 encodings: the ASCII spaces, U+0085, U+00A0, U+1680,
  U+2000 to U+200A, U+2028, U+2029, U+202F, U+205F and U+3000.
\<close>

definition space_encodings :: "string list" where
  "space_encodings =
     map (\<lambda>n. [chr n]) [9, 10, 11, 12, 13, 32] @
     [[chr 0xC2, chr 0x85], [chr 0xC2, chr 0xA0], [chr 0xE1, chr 0x9A, chr 0x80]] @
     map (\<lambda>n. [chr 0xE2, chr 0x80, chr n])
       [0x80, 0x81, 0x82, 0x83, 0x84, 0x85, 0x86, 0x87, 0x88, 0x89, 0x8A, 0xA8, 0xA9, 0xAF] @
     [[chr 0xE2, chr 0x81, chr 0x9F], [chr 0xE3, chr 0x80, chr 0x80]]"

fun drop_prefix :: "string list \<Rightarrow> string \<Rightarrow> string option" where
  "drop_prefix [] s = None"
| "drop_prefix (p # ps) s = (if HasPrefix s p then Some (drop (length p) s) else drop_prefix ps s)"

text \<open>Each round drops at least one byte, so as many rounds as bytes are enough.\<close>

fun trim_left :: "string list \<Rightarrow> nat \<Rightarrow> string \<Rightarrow> string" where
  "trim_left ps 0 s = s"
| "trim_left ps (Suc n) s = (case drop_prefix ps s of None \<Rightarrow> s | Some t \<Rightarrow> trim_left ps n t)"

definition TrimSpace :: "string \<Rightarrow> string" where
  "TrimSpace s =
     (let l = trim_left space_encodings (length s) s;
          r = trim_left (map rev space_encodings) (length l) (rev l)
      in rev r)"

lemma drop_prefix_SomeD:
  "drop_prefix ps s = Some t \<Longrightarrow> \<exists>p\<in>set ps. s = p @ t"
  by (induction ps) (auto simp: HasPrefix_iff split: if_splits)

lemma trim_left_suffix: "\<exists>p. s = p @ trim_left ps n s"
proof (induction n arbitrary: s)
  case (Suc n)
  show ?case
  proof (cases "drop_prefix ps s")
    case (Some t)
    then obtain p where "s = p @ t" by (auto dest: drop_prefix_SomeD)
    moreover obtain q where "t = q @ trim_left ps n t" using Suc.IH [of t] by blast
    ultimately have "s = (p @ q) @ trim_left ps (Suc n) s" using Some by simp
    then show ?thesis by (rule exI)
  qed simp
qed simp

lemma TrimSpace_infix: "\<exists>p q. s = p @ TrimSpace s @ q"
proof -
  define l where "l = trim_left space_encodings (length s) s"
  obtain p where p: "s = p @ l"
    using trim_left_suffix l_def by blast
  obtain q where q: "rev l = q @ trim_left (map rev space_encodings) (length l) (rev l)"
    using trim_left_suffix by blast
  have "TrimSpace s = rev (trim_left (map rev space_encodings) (length l) (rev l))"
    by (simp add: TrimSpace_def l_def Let_def)
  then have "l = TrimSpace s @ rev q"
    using q by (metis rev_append rev_rev_ident)
  with p show ?thesis by blast
qed

text \<open>\<open>strings.Join\<close>.\<close>

fun Join :: "string list \<Rightarrow> string \<Rightarrow> string" where
  "Join [] sep = []"
| "Join [x] sep = x"
| "Join (x # y # ys) sep = x @ sep @ Join (y # ys) sep"

section \<open>ToUpper\<close>

definition upper_byte :: "char \<Rightarrow> char" where
  "upper_byte c = (if 97 \<le> byte c \<and> byte c \<le> 122 then chr (byte c - 32) else c)"

definition ToUpper :: "(string \<Rightarrow> string) \<Rightarrow> string \<Rightarrow> string" where
  "ToUpper uni s = (if is_ascii s then map upper_byte s else uni s)"

lemma upper_byte_idem [simp]: "upper_byte (upper_byte c) = upper_byte c"
proof -
  have "byte (chr (byte c - 32)) = byte c - 32"
    by (rule byte_chr) (rule less_imp_diff_less, rule byte_less)
  then show ?thesis by (auto simp: upper_byte_def)
qed

section \<open>Digits\<close>

definition digit :: "nat \<Rightarrow> char" where
  "digit n = chr (48 + n)"

text \<open>\<open>%d\<close> of a natural number and of an integer.\<close>

fun nat_text :: "nat \<Rightarrow> string" where
  "nat_text n = (if n < 10 then [digit n] else nat_text (n div 10) @ [digit (n mod 10)])"

declare nat_text.simps [simp del]

definition int_text :: "int \<Rightarrow> string" where
  "int_text i = (if i < 0 then CHR ''-'' # nat_text (nat (- i)) else nat_text (nat i))"

definition is_digit :: "char \<Rightarrow> bool" where
  "is_digit c = (48 \<le> byte c \<and> byte c \<le> 57)"

definition digit_val :: "char \<Rightarrow> nat" where
  "digit_val c = byte c - 48"

definition digits_val :: "string \<Rightarrow> nat" where
  "digits_val s = foldl (\<lambda>n c. 10 * n + digit_val c) 0 s"

lemma digits_val_snoc: "digits_val (s @ [c]) = 10 * digits_val s + digit_val c"
  by (simp add: digits_val_def)

lemma digit_val_digit [simp]: "n < 10 \<Longrightarrow> digit_val (digit n) = n"
  by (simp add: digit_val_def digit_def)

lemma digits_val_nat_text [simp]: "digits_val (nat_text n) = n"
proof (induction n rule: nat_text.induct)
  case (1 n)
  show ?case
  proof (cases "n < 10")
    case True
    then show ?thesis
      by (subst nat_text.simps) (simp add: digits_val_def)
  next
    case False
    then show ?thesis
      using "1.IH" by (subst nat_text.simps) (simp add: digits_val_snoc)
  qed
qed

lemma nat_text_inject [simp]: "nat_text m = nat_text n \<longleftrightarrow> m = n"
  by (metis digits_val_nat_text)

lemma nat_text_nonempty [simp]: "nat_text n \<noteq> []"
  by (subst nat_text.simps) simp

text \<open>Two lower-case hexadecimal digits per byte (\<open>encoding/hex\<close>).\<close>

definition hex_digit :: "nat \<Rightarrow> char" where
  "hex_digit n = (if n < 10 then chr (48 + n) else chr (87 + n))"

definition hex_digit_upper :: "nat \<Rightarrow> char" where
  "hex_digit_upper n = (if n < 10 then chr (48 + n) else chr (55 + n))"

definition hex_EncodeToString :: "nat list \<Rightarrow> string" where
  "hex_EncodeToString bs = concat (map (\<lambda>b. [hex_digit (b div 16), hex_digit (b mod 16)]) bs)"

lemma hex_digit_inject: "a < 16 \<Longrightarrow> b < 16 \<Longrightarrow> hex_digit a = hex_digit b \<longleftrightarrow> a = b"
  by (auto simp: hex_digit_def dest!: arg_cong [where f = byte])

lemma hex_length [simp]: "length (hex_EncodeToString bs) = 2 * length bs"
  by (induction bs) (simp_all add: hex_EncodeToString_def)

end
