(* ===== verification/Go_Time.thy ===== *)
theory Go_Time
  imports Go_Strings
begin

text \<open>
  The part of \<open>time\<close> the program uses, on instants counted in nanoseconds since the Unix
  epoch: saturating difference, \<open>time.Time\<close>'s JSON form (RFC 3339), and
  \<open>Format(time.RFC3339Nano)\<close> in UTC.
\<close>

section \<open>Differences\<close>

text \<open>\<open>t.Sub(u)\<close> saturates at the ends of \<open>time.Duration\<close>.\<close>

definition time_Sub :: "instant \<Rightarrow> instant \<Rightarrow> duration" where
  "time_Sub t u = max (- (2 ^ 63)) (min (2 ^ 63 - 1) (t - u))"

lemma time_Sub_exact: "- (2 ^ 63) \<le> t - u \<Longrightarrow> t - u < 2 ^ 63 \<Longrightarrow> time_Sub t u = t - u"
  by (simp add: time_Sub_def)

lemma time_Sub_le_iff:
  "- (2 ^ 63) \<le> d \<Longrightarrow> d < 2 ^ 63 - 1 \<Longrightarrow> time_Sub t u \<le> d \<longleftrightarrow> t - u \<le> d"
  by (auto simp: time_Sub_def)

text \<open>\<open>d.Truncate(m)\<close> rounds toward zero to a multiple of a positive \<open>m\<close>.\<close>

definition Truncate :: "duration \<Rightarrow> duration \<Rightarrow> duration" where
  "Truncate d m = (if m \<le> 0 then d else if d < 0 then - ((- d) div m * m) else d div m * m)"

section \<open>The civil calendar\<close>

text \<open>Days since the epoch of a date, and back, with the year starting in March.\<close>

definition days_of_civil :: "int \<Rightarrow> int \<Rightarrow> int \<Rightarrow> int" where
  "days_of_civil y m d =
     (let y' = (if m \<le> 2 then y - 1 else y);
          mp = (m + 9) mod 12;
          doy = (153 * mp + 2) div 5 + d - 1
      in 365 * y' + y' div 4 - y' div 100 + y' div 400 + doy - 719468)"

definition civil_of_days :: "int \<Rightarrow> int \<times> int \<times> int" where
  "civil_of_days z0 =
     (let z = z0 + 719468;
          era = z div 146097;
          doe = z mod 146097;
          yoe = (doe - doe div 1460 + doe div 36524 - doe div 146096) div 365;
          doy = doe - (365 * yoe + yoe div 4 - yoe div 100);
          mp = (5 * doy + 2) div 153;
          d = doy - (153 * mp + 2) div 5 + 1;
          m = (if mp < 10 then mp + 3 else mp - 9);
          y = yoe + era * 400
      in (if m \<le> 2 then y + 1 else y, m, d))"

definition days_in :: "int \<Rightarrow> int \<Rightarrow> int" where
  "days_in y m =
     (if m = 2 then (if y mod 4 = 0 \<and> (y mod 100 \<noteq> 0 \<or> y mod 400 = 0) then 29 else 28)
      else if m \<in> {4, 6, 9, 11} then 30 else 31)"

section \<open>RFC 3339\<close>

definition parse_uint :: "string \<Rightarrow> int \<Rightarrow> int \<Rightarrow> int option" where
  "parse_uint s lo hi =
     (let x = int (digits_val s)
      in if list_all is_digit s \<and> lo \<le> x \<and> x \<le> hi then Some x else None)"

definition slice :: "nat \<Rightarrow> nat \<Rightarrow> string \<Rightarrow> string" where
  "slice i j s = drop i (take j s)"

definition parse_fraction :: "string \<Rightarrow> int \<times> string" where
  "parse_fraction s =
     (case s of
        CHR ''.'' # c # t \<Rightarrow>
          if is_digit c then
            (let ds = take 9 (takeWhile is_digit (c # t))
             in (int (digits_val ds) * 10 ^ (9 - length ds), dropWhile is_digit (c # t)))
          else (0, s)
      | _ \<Rightarrow> (0, s))"

definition parse_zone :: "string \<Rightarrow> int option" where
  "parse_zone s =
     (if s = ''Z'' then Some 0
      else if length s = 6 \<and> hd s \<in> set ''+-'' \<and> s ! 3 = CHR '':'' then
        (case (parse_uint (slice 1 3 s) 0 23, parse_uint (slice 4 6 s) 0 59) of
           (Some h, Some m) \<Rightarrow> Some ((if hd s = CHR ''-'' then -1 else 1) * ((h * 60 + m) * 60))
         | _ \<Rightarrow> None)
      else None)"

definition ParseRFC3339 :: "string \<Rightarrow> instant option" where
  "ParseRFC3339 s =
     (if length s < 19 \<or> s ! 4 \<noteq> CHR ''-'' \<or> s ! 7 \<noteq> CHR ''-'' \<or> s ! 10 \<noteq> CHR ''T'' \<or>
         s ! 13 \<noteq> CHR '':'' \<or> s ! 16 \<noteq> CHR '':'' then None
      else
        (case (parse_uint (slice 0 4 s) 0 9999, parse_uint (slice 5 7 s) 1 12) of
           (Some y, Some mo) \<Rightarrow>
             (case (parse_uint (slice 8 10 s) 1 (days_in y mo), parse_uint (slice 11 13 s) 0 23,
                    parse_uint (slice 14 16 s) 0 59, parse_uint (slice 17 19 s) 0 59) of
                (Some d, Some h, Some mi, Some sec) \<Rightarrow>
                  (case parse_fraction (drop 19 s) of
                     (nsec, z) \<Rightarrow>
                       map_option (\<lambda>off.
                           (days_of_civil y mo d * 86400 + h * 3600 + mi * 60 + sec - off) * 1000000000
                             + nsec)
                         (parse_zone z))
              | _ \<Rightarrow> None)
         | _ \<Rightarrow> None))"

text \<open>The zero \<open>time.Time\<close>: the first instant of year 1.\<close>

definition zero_time :: instant where
  "zero_time = -62135596800 * 1000000000"

definition pad_left :: "nat \<Rightarrow> string \<Rightarrow> string" where
  "pad_left n s = replicate (n - length s) (CHR ''0'') @ s"

definition FormatRFC3339Nano :: "instant \<Rightarrow> string" where
  "FormatRFC3339Nano t =
     (let secs = t div 1000000000; ns = t mod 1000000000;
          (y, mo, d) = civil_of_days (secs div 86400);
          sod = secs mod 86400;
          frac = rev (dropWhile (\<lambda>c. c = CHR ''0'') (rev (pad_left 9 (int_text ns))));
          two = (\<lambda>i. pad_left 2 (int_text i))
      in (if y < 0 then ''-'' else []) @ pad_left 4 (int_text \<bar>y\<bar>) @ ''-'' @ two mo @ ''-'' @ two d @ ''T'' @
         two (sod div 3600) @ '':'' @ two (sod div 60 mod 60) @ '':'' @ two (sod mod 60) @
         (if ns = 0 then [] else CHR ''.'' # frac) @ ''Z'')"

end
