(* ===== verification/Go_Url.thy ===== *)
theory Go_Url
  imports Go_Strings
begin

text \<open>
  The part of \<open>net/url\<close> the client uses: \<open>Parse\<close>, \<open>String\<close>, \<open>PathEscape\<close>, and
  \<open>Query\<close>/\<open>Set\<close>/\<open>Encode\<close> on the raw query, as in Go 1.26.
\<close>

section \<open>Escaping\<close>

datatype enc_mode = EncPath | EncPathSegment | EncHost | EncUserPassword | EncQuery | EncFragment

definition is_alnum :: "char \<Rightarrow> bool" where
  "is_alnum c = (48 \<le> byte c \<and> byte c \<le> 57 \<or> 65 \<le> byte c \<and> byte c \<le> 90 \<or>
     97 \<le> byte c \<and> byte c \<le> 122)"

definition shouldEscape :: "char \<Rightarrow> enc_mode \<Rightarrow> bool" where
  "shouldEscape c mode =
     (if is_alnum c then False
      else if mode = EncHost \<and> c \<in> set (CHR 0x22 # ''!$&()*+,;=:[]<>'' @ [CHR 0x27]) then False
      else if c \<in> set ''-_.~'' then False
      else if c \<in> set ''$&+,/:;=?@'' then
        (case mode of
           EncPath \<Rightarrow> c = CHR ''?''
         | EncPathSegment \<Rightarrow> c \<in> set ''/;,?''
         | EncUserPassword \<Rightarrow> c \<in> set ''@/?:''
         | EncQuery \<Rightarrow> True
         | EncFragment \<Rightarrow> False
         | EncHost \<Rightarrow> True)
      else if mode = EncFragment \<and> c \<in> set ''!()*'' then False
      else True)"

definition percent :: "char \<Rightarrow> string" where
  "percent c = [CHR ''%'', hex_digit_upper (byte c div 16), hex_digit_upper (byte c mod 16)]"

definition escape_char :: "enc_mode \<Rightarrow> char \<Rightarrow> string" where
  "escape_char mode c =
     (if c = CHR '' '' \<and> mode = EncQuery then ''+''
      else if shouldEscape c mode then percent c else [c])"

definition url_escape :: "enc_mode \<Rightarrow> string \<Rightarrow> string" where
  "url_escape mode s = concat (map (escape_char mode) s)"

definition PathEscape :: "string \<Rightarrow> string" where
  "PathEscape s = url_escape EncPathSegment s"

definition unhex :: "char \<Rightarrow> nat option" where
  "unhex c = (let n = byte c in
     if 48 \<le> n \<and> n \<le> 57 then Some (n - 48)
     else if 97 \<le> n \<and> n \<le> 102 then Some (n - 87)
     else if 65 \<le> n \<and> n \<le> 70 then Some (n - 55) else None)"

text \<open>A host may only percent-encode bytes outside ASCII, and may not hold a byte it escapes.\<close>

fun url_unescape :: "enc_mode \<Rightarrow> string \<Rightarrow> string option" where
  "url_unescape mode [] = Some []"
| "url_unescape mode (c # s) =
     (if c = CHR ''%'' then
        (case s of
           a # b # t \<Rightarrow>
             (case (unhex a, unhex b) of
                (Some x, Some y) \<Rightarrow>
                  if mode = EncHost \<and> x < 8 \<and> [c, a, b] \<noteq> ''%25'' then None
                  else map_option ((#) (chr (16 * x + y))) (url_unescape mode t)
              | _ \<Rightarrow> None)
         | _ \<Rightarrow> None)
      else if mode = EncHost \<and> byte c < 128 \<and> shouldEscape c mode then None
      else map_option ((#) (if c = CHR ''+'' \<and> mode = EncQuery then CHR '' '' else c))
             (url_unescape mode s))"

section \<open>Parse\<close>

record url =
  u_Scheme :: string
  u_Opaque :: string
  u_User :: "(string \<times> string option) option"
  u_Host :: string
  u_Path :: string
  u_RawPath :: string
  u_OmitHost :: bool
  u_ForceQuery :: bool
  u_RawQuery :: string
  u_Fragment :: string
  u_RawFragment :: string

definition empty_url :: url where
  "empty_url = \<lparr>u_Scheme = [], u_Opaque = [], u_User = None, u_Host = [], u_Path = [],
     u_RawPath = [], u_OmitHost = False, u_ForceQuery = False, u_RawQuery = [],
     u_Fragment = [], u_RawFragment = []\<rparr>"

text \<open>\<open>strings.Cut\<close> at the first occurrence of a byte.\<close>

definition cut_at :: "char \<Rightarrow> string \<Rightarrow> string \<times> string option" where
  "cut_at c s =
     (takeWhile (\<lambda>x. x \<noteq> c) s,
      case dropWhile (\<lambda>x. x \<noteq> c) s of [] \<Rightarrow> None | _ # t \<Rightarrow> Some t)"

text \<open>\<open>getScheme\<close>: the scheme and the rest, or an error for a leading colon.\<close>

fun scheme_from :: "string \<Rightarrow> string \<Rightarrow> (string \<times> string) option" where
  "scheme_from seen [] = Some ([], rev seen)"
| "scheme_from seen (c # s) =
     (if 65 \<le> byte c \<and> byte c \<le> 90 \<or> 97 \<le> byte c \<and> byte c \<le> 122 then scheme_from (c # seen) s
      else if is_digit c \<or> c \<in> set ''+-.'' then
        (if seen = [] then Some ([], c # s) else scheme_from (c # seen) s)
      else if c = CHR '':'' then (if seen = [] then None else Some (rev seen, s))
      else Some ([], rev seen @ c # s))"

definition lower_byte :: "char \<Rightarrow> char" where
  "lower_byte c = (if 65 \<le> byte c \<and> byte c \<le> 90 then chr (byte c + 32) else c)"

definition valid_optional_port :: "string \<Rightarrow> bool" where
  "valid_optional_port p = (case p of [] \<Rightarrow> True | c # d \<Rightarrow> c = CHR '':'' \<and> list_all is_digit d)"

definition parse_host :: "platform \<Rightarrow> string \<Rightarrow> string option" where
  "parse_host pf h =
     (case h of
        CHR ''['' # t \<Rightarrow>
          (let port = rev (takeWhile (\<lambda>c. c \<noteq> CHR '']'') (rev t));
               lit = take (length t - length port - 1) t
           in if CHR '']'' \<notin> set t \<or> CHR ''['' \<in> set t \<or> \<not> valid_optional_port port then None
              else map_option (\<lambda>a. ''['' @ a @ '']'' @ port) (pf_ip_literal pf lit))
      | _ \<Rightarrow>
          if CHR ''['' \<in> set h then None
          else if CHR '':'' \<in> set h \<and> \<not> valid_optional_port (dropWhile (\<lambda>c. c \<noteq> CHR '':'') h) then None
          else url_unescape EncHost h)"

definition valid_userinfo :: "string \<Rightarrow> bool" where
  "valid_userinfo s =
     list_all (\<lambda>c. is_alnum c \<or> c \<in> set (CHR 0x27 # ''-._:~!$&()*+,;=%@'')) s"

definition parse_authority ::
  "platform \<Rightarrow> string \<Rightarrow> ((string \<times> string option) option \<times> string) option" where
  "parse_authority pf a =
     (let host = rev (takeWhile (\<lambda>c. c \<noteq> CHR ''@'') (rev a));
          info = take (length a - length host - 1) a
      in case parse_host pf host of
           None \<Rightarrow> None
         | Some h \<Rightarrow>
             if CHR ''@'' \<notin> set a then Some (None, h)
             else if \<not> valid_userinfo info then None
             else
               (case cut_at (CHR '':'') info of
                  (name, None) \<Rightarrow>
                    map_option (\<lambda>n. (Some (n, None), h)) (url_unescape EncUserPassword name)
                | (name, Some pw) \<Rightarrow>
                    (case (url_unescape EncUserPassword name, url_unescape EncUserPassword pw) of
                       (Some n, Some p) \<Rightarrow> Some (Some (n, Some p), h)
                     | _ \<Rightarrow> None)))"

definition set_path :: "string \<Rightarrow> url \<Rightarrow> url option" where
  "set_path p u =
     map_option (\<lambda>path. u\<lparr>u_Path := path,
         u_RawPath := (if p = url_escape EncPath path then [] else p)\<rparr>)
       (url_unescape EncPath p)"

definition set_fragment :: "string \<Rightarrow> url \<Rightarrow> url option" where
  "set_fragment f u =
     map_option (\<lambda>frag. u\<lparr>u_Fragment := frag,
         u_RawFragment := (if f = url_escape EncFragment frag then [] else f)\<rparr>)
       (url_unescape EncFragment f)"

text \<open>The text after the scheme and before the fragment, its query cut off.\<close>

definition parse_rest :: "platform \<Rightarrow> string \<Rightarrow> url \<Rightarrow> url option" where
  "parse_rest pf rest u =
     (if \<not> HasPrefix rest ''/'' \<and> u_Scheme u \<noteq> [] then Some (u\<lparr>u_Opaque := rest\<rparr>)
      else if \<not> HasPrefix rest ''/'' \<and> CHR '':'' \<in> set (fst (cut_at (CHR ''/'') rest)) then None
      else if (u_Scheme u \<noteq> [] \<or> \<not> HasPrefix rest ''///'') \<and> HasPrefix rest ''//'' then
        (let auth = takeWhile (\<lambda>c. c \<noteq> CHR ''/'') (drop 2 rest);
             path = dropWhile (\<lambda>c. c \<noteq> CHR ''/'') (drop 2 rest)
         in case parse_authority pf auth of
              None \<Rightarrow> None
            | Some (user, host) \<Rightarrow> set_path path (u\<lparr>u_User := user, u_Host := host\<rparr>))
      else if u_Scheme u \<noteq> [] \<and> HasPrefix rest ''/'' then set_path rest (u\<lparr>u_OmitHost := True\<rparr>)
      else set_path rest u)"

definition url_Parse :: "platform \<Rightarrow> string \<Rightarrow> url option" where
  "url_Parse pf raw =
     (let (s, frag) = cut_at (CHR ''#'') raw
      in if list_ex (\<lambda>c. byte c < 32 \<or> byte c = 127) s then None
         else
           Option.bind
             (if s = ''*'' then Some (empty_url\<lparr>u_Path := ''*''\<rparr>)
              else
                (case scheme_from [] s of
                   None \<Rightarrow> None
                 | Some (scheme, rest) \<Rightarrow>
                     (let u = empty_url\<lparr>u_Scheme := map lower_byte scheme\<rparr>
                      in if HasSuffix rest ''?'' \<and> count_list rest (CHR ''?'') = 1
                         then parse_rest pf (butlast rest) (u\<lparr>u_ForceQuery := True\<rparr>)
                         else
                           (case cut_at (CHR ''?'') rest of
                              (r, q) \<Rightarrow>
                                parse_rest pf r (u\<lparr>u_RawQuery := (case q of None \<Rightarrow> [] | Some x \<Rightarrow> x)\<rparr>)))))
             (\<lambda>u. case frag of
                    None \<Rightarrow> Some u
                  | Some f \<Rightarrow> if f = [] then Some u else set_fragment f u))"

section \<open>String\<close>

definition valid_encoded :: "enc_mode \<Rightarrow> string \<Rightarrow> bool" where
  "valid_encoded mode s =
     list_all (\<lambda>c. c \<in> set (CHR 0x27 # ''!$&()*+,;=:@[]%'') \<or> \<not> shouldEscape c mode) s"

definition EscapedPath :: "url \<Rightarrow> string" where
  "EscapedPath u =
     (if u_RawPath u \<noteq> [] \<and> valid_encoded EncPath (u_RawPath u) \<and>
         url_unescape EncPath (u_RawPath u) = Some (u_Path u) then u_RawPath u
      else if u_Path u = ''*'' then ''*''
      else url_escape EncPath (u_Path u))"

definition EscapedFragment :: "url \<Rightarrow> string" where
  "EscapedFragment u =
     (if u_RawFragment u \<noteq> [] \<and> valid_encoded EncFragment (u_RawFragment u) \<and>
         url_unescape EncFragment (u_RawFragment u) = Some (u_Fragment u) then u_RawFragment u
      else url_escape EncFragment (u_Fragment u))"

definition userinfo_String :: "string \<times> string option \<Rightarrow> string" where
  "userinfo_String ui =
     (case ui of (n, pw) \<Rightarrow>
        url_escape EncUserPassword n @
          (case pw of None \<Rightarrow> [] | Some p \<Rightarrow> CHR '':'' # url_escape EncUserPassword p))"

definition url_String :: "url \<Rightarrow> string" where
  "url_String u =
     (let scheme = (if u_Scheme u = [] then [] else u_Scheme u @ '':'');
          auth =
            (if (u_Scheme u \<noteq> [] \<or> u_Host u \<noteq> [] \<or> u_User u \<noteq> None) \<and>
                \<not> (u_OmitHost u \<and> u_Host u = [] \<and> u_User u = None) then
               (if u_Host u \<noteq> [] \<or> u_Path u \<noteq> [] \<or> u_User u \<noteq> None then ''//'' else []) @
               (case u_User u of None \<Rightarrow> [] | Some ui \<Rightarrow> userinfo_String ui @ ''@'') @
               url_escape EncHost (u_Host u)
             else []);
          path = EscapedPath u;
          slash = (if path \<noteq> [] \<and> \<not> HasPrefix path ''/'' \<and> u_Host u \<noteq> [] then ''/'' else []);
          dot = (if scheme @ auth @ slash = [] \<and> CHR '':'' \<in> set (fst (cut_at (CHR ''/'') path))
                 then ''./'' else []);
          body = (if u_Opaque u \<noteq> [] then u_Opaque u else auth @ slash @ dot @ path);
          query = (if u_ForceQuery u \<or> u_RawQuery u \<noteq> [] then CHR ''?'' # u_RawQuery u else []);
          frag = (if u_Fragment u \<noteq> [] then CHR ''#'' # EscapedFragment u else [])
      in scheme @ body @ query @ frag)"

section \<open>Query values\<close>

text \<open>The values in the order they are given; \<open>Query\<close> drops the pieces that do not parse.\<close>

fun split_at :: "char \<Rightarrow> string \<Rightarrow> string list" where
  "split_at c [] = [[]]"
| "split_at c (x # xs) =
     (if x = c then [] # split_at c xs
      else (case split_at c xs of [] \<Rightarrow> [[x]] | p # ps \<Rightarrow> (x # p) # ps))"

definition parse_pair :: "string \<Rightarrow> (string \<times> string) option" where
  "parse_pair s =
     (if s = [] \<or> CHR '';'' \<in> set s then None
      else
        (case cut_at (CHR ''='') s of
           (k, v) \<Rightarrow>
             (case (url_unescape EncQuery k,
                    url_unescape EncQuery (case v of None \<Rightarrow> [] | Some x \<Rightarrow> x)) of
                (Some k', Some v') \<Rightarrow> Some (k', v')
              | _ \<Rightarrow> None)))"

definition url_Query :: "url \<Rightarrow> (string \<times> string) list" where
  "url_Query u = List.map_filter parse_pair (split_at (CHR ''&'') (u_RawQuery u))"

definition query_Set :: "string \<Rightarrow> string \<Rightarrow> (string \<times> string) list \<Rightarrow> (string \<times> string) list" where
  "query_Set k v q = filter (\<lambda>p. fst p \<noteq> k) q @ [(k, v)]"

definition query_Encode :: "(string \<times> string) list \<Rightarrow> string" where
  "query_Encode q =
     Join (map (\<lambda>(k, v). url_escape EncQuery k @ ''='' @ url_escape EncQuery v) (sort_key fst q)) ''&''"

end
