(* ===== verification/Env.thy ===== *)
theory Env
  imports Effects Api_Types Go_Time Go_Url
begin

text \<open>
  The world around the operator.  \<open>'w\<close> is everything outside the process: clock, random
  sources, network, file system and the Kubernetes API server.  The record \<open>env\<close> holds one
  operation per library call the program makes; it is an argument of the model, and the
  theorems state what they need of it as hypotheses.
\<close>

section \<open>Requests and responses\<close>

text \<open>
  A context is known by its deadline; whether it is already done is the world's to say.
\<close>

type_synonym ctx = "instant option"

record http_request =
  rq_Method :: string
  rq_URL :: url
  rq_Header :: "(string \<times> string) list"
  rq_Body :: "string option"

text \<open>The body of a response is what \<open>io.ReadAll\<close> returns for it.\<close>

record http_response =
  rs_StatusCode :: int
  rs_Body :: "goerror + string"

datatype workload_kind = KDeployment | KStatefulSet | KDaemonSet

record list_options =
  lo_namespace :: "string option"
  lo_field :: "(string \<times> string) option"
  lo_limit :: "int option"

section \<open>The operations of the world\<close>

text \<open>
  \<open>e_create_or_update\<close> is \<open>controllerutil.CreateOrUpdate\<close>: it reads the object, gives it (or
  the empty one when there is none) to the mutation, and writes the outcome; the mutation's
  second result is the variable it assigns outside itself.  \<open>e_update_secret_cr\<close> and the
  other writes return the object as the client leaves it.
\<close>

record 'w env =
  e_pf :: platform
  e_now :: "('w, instant) state"
  e_Int63n :: "int \<Rightarrow> ('w, int) state"
  e_Float64 :: "('w, rat) state"
  e_ctx_Err :: "ctx \<Rightarrow> ('w, goerror option) state"
  e_ctx_wait :: "ctx \<Rightarrow> duration \<Rightarrow> ('w, goerror option) state"
  e_http_Do :: "duration \<Rightarrow> ctx \<Rightarrow> http_request \<Rightarrow> ('w, goerror + http_response) state"
  e_ReadFile :: "string \<Rightarrow> ('w, goerror + string) state"
  e_get_secret_cr :: "ctx \<Rightarrow> nname \<Rightarrow> ('w, goerror + fvsecret) state"
  e_get_connection :: "ctx \<Rightarrow> nname \<Rightarrow> ('w, goerror + connection) state"
  e_get_secret :: "ctx \<Rightarrow> nname \<Rightarrow> ('w, goerror + k8s_secret) state"
  e_get_workload :: "ctx \<Rightarrow> workload_kind \<Rightarrow> nname \<Rightarrow> ('w, goerror + workload) state"
  e_list_secret_crs :: "ctx \<Rightarrow> list_options \<Rightarrow> ('w, goerror + fvsecret list) state"
  e_list_connections :: "ctx \<Rightarrow> list_options \<Rightarrow> ('w, goerror + connection list) state"
  e_update_secret_cr :: "ctx \<Rightarrow> fvsecret \<Rightarrow> ('w, goerror + fvsecret) state"
  e_update_connection :: "ctx \<Rightarrow> connection \<Rightarrow> ('w, goerror + connection) state"
  e_status_secret_cr :: "ctx \<Rightarrow> fvsecret \<Rightarrow> ('w, goerror + fvsecret) state"
  e_status_connection :: "ctx \<Rightarrow> connection \<Rightarrow> ('w, goerror + connection) state"
  e_create_or_update :: "ctx \<Rightarrow> k8s_secret \<Rightarrow> (k8s_secret \<Rightarrow> goerror + (k8s_secret \<times> string)) \<Rightarrow>
    ('w, goerror + (k8s_secret \<times> string)) state"
  e_patch_workload :: "ctx \<Rightarrow> workload_kind \<Rightarrow> workload \<Rightarrow> workload \<Rightarrow> ('w, goerror option) state"
  e_IsNotFound :: "goerror \<Rightarrow> bool"
  e_AddFinalizer :: "objmeta \<Rightarrow> string \<Rightarrow> objmeta \<times> bool"
  e_RemoveFinalizer :: "objmeta \<Rightarrow> string \<Rightarrow> objmeta \<times> bool"
  e_SetControllerReference :: "fvsecret \<Rightarrow> k8s_secret \<Rightarrow> goerror + k8s_secret"
  e_RemoveStatusCondition :: "condition list \<Rightarrow> string \<Rightarrow> condition list"

section \<open>What the code relies on\<close>

text \<open>
  A random source draws from its documented range: \<open>rand.Int63n(n)\<close> from \<open>[0, n)\<close>,
  \<open>rand.Float64()\<close> from \<open>[0, 1)\<close>.
\<close>

definition draws_in_range :: "'w env \<Rightarrow> bool" where
  "draws_in_range E \<longleftrightarrow>
     (\<forall>n w. 0 < n \<longrightarrow> 0 \<le> fst (run_state (e_Int63n E n) w) \<and> fst (run_state (e_Int63n E n) w) < n) \<and>
     (\<forall>w. 0 \<le> fst (run_state (e_Float64 E) w) \<and> fst (run_state (e_Float64 E) w) < 1)"

text \<open>
  \<open>obs\<close> is a part of the world that only the writes named by the flags can change: the
  clock, the random sources, HTTP calls, file reads, and the API server's reads leave it alone.
\<close>

definition reads_keep :: "('w \<Rightarrow> 'o) \<Rightarrow> 'w env \<Rightarrow> bool" where
  "reads_keep obs E \<longleftrightarrow>
     keeps obs (e_now E) \<and> (\<forall>n. keeps obs (e_Int63n E n)) \<and> keeps obs (e_Float64 E) \<and>
     (\<forall>c. keeps obs (e_ctx_Err E c)) \<and> (\<forall>c d. keeps obs (e_ctx_wait E c d)) \<and>
     (\<forall>d c r. keeps obs (e_http_Do E d c r)) \<and> (\<forall>p. keeps obs (e_ReadFile E p)) \<and>
     (\<forall>c k. keeps obs (e_get_secret_cr E c k)) \<and> (\<forall>c k. keeps obs (e_get_connection E c k)) \<and>
     (\<forall>c k. keeps obs (e_get_secret E c k)) \<and> (\<forall>c t k. keeps obs (e_get_workload E c t k)) \<and>
     (\<forall>c o'. keeps obs (e_list_secret_crs E c o')) \<and> (\<forall>c o'. keeps obs (e_list_connections E c o'))"

named_theorems env_keeps \<open>the operations of the world that keep an observation\<close>

lemma reads_keepD [env_keeps]:
  assumes "reads_keep obs E"
  shows "keeps obs (e_now E)" "keeps obs (e_Int63n E n)" "keeps obs (e_Float64 E)"
    "keeps obs (e_ctx_Err E c)" "keeps obs (e_ctx_wait E c d)" "keeps obs (e_http_Do E d c r)"
    "keeps obs (e_ReadFile E p)" "keeps obs (e_get_secret_cr E c k)"
    "keeps obs (e_get_connection E c k)" "keeps obs (e_get_secret E c k)"
    "keeps obs (e_get_workload E c t k)" "keeps obs (e_list_secret_crs E c lo)"
    "keeps obs (e_list_connections E c lo)"
  using assms by (simp_all add: reads_keep_def del: split_paired_All)

text \<open>Writes of the custom resources, and their statuses, that leave \<open>obs\<close> alone.\<close>

definition status_writes_keep :: "('w \<Rightarrow> 'o) \<Rightarrow> 'w env \<Rightarrow> bool" where
  "status_writes_keep obs E \<longleftrightarrow>
     (\<forall>c x. keeps obs (e_status_secret_cr E c x)) \<and> (\<forall>c x. keeps obs (e_status_connection E c x))"

definition cr_writes_keep :: "('w \<Rightarrow> 'o) \<Rightarrow> 'w env \<Rightarrow> bool" where
  "cr_writes_keep obs E \<longleftrightarrow>
     (\<forall>c x. keeps obs (e_update_secret_cr E c x)) \<and> (\<forall>c x. keeps obs (e_update_connection E c x))"

definition workload_writes_keep :: "('w \<Rightarrow> 'o) \<Rightarrow> 'w env \<Rightarrow> bool" where
  "workload_writes_keep obs E \<longleftrightarrow> (\<forall>c t b x. keeps obs (e_patch_workload E c t b x))"

lemma writes_keepD [env_keeps]:
  "status_writes_keep obs E \<Longrightarrow> keeps obs (e_status_secret_cr E c x)"
  "status_writes_keep obs E \<Longrightarrow> keeps obs (e_status_connection E c y)"
  "cr_writes_keep obs E \<Longrightarrow> keeps obs (e_update_secret_cr E c x)"
  "cr_writes_keep obs E \<Longrightarrow> keeps obs (e_update_connection E c y)"
  "workload_writes_keep obs E \<Longrightarrow> keeps obs (e_patch_workload E c t b z)"
  by (simp_all add: status_writes_keep_def cr_writes_keep_def workload_writes_keep_def)

section \<open>The state of the process\<close>

text \<open>
  The two reconcilers' retry ledgers, the token broker's cache (a nil map until it is made),
  the time of the last finished reconcile, and the calls made to the Prometheus client so far,
  latest first.
\<close>

datatype controller = SecretController | ConnectionController

datatype metric_call =
    Observe string string rat
  | Inc string string
  | SetToCurrentTime string string string
  | SetGauge string string string rat
  | DeleteLabelValues string string string

record cached_bearer =
  cb_token :: string
  cb_expiresAt :: instant

record 'w proc =
  p_world :: 'w
  p_attempts :: "controller \<Rightarrow> nname \<Rightarrow> int option"
  p_cache :: "(nname \<Rightarrow> cached_bearer option) option"
  p_last :: instant
  p_metrics :: "metric_call list"

definition in_world :: "('w, 'a) state \<Rightarrow> ('w proc, 'a) state" where
  "in_world m = zoom p_world (\<lambda>w p. p\<lparr>p_world := w\<rparr>) m"

lemma keeps_in_world [keeps_intros]:
  "keeps obs m \<Longrightarrow> keeps (\<lambda>p. obs (p_world p)) (in_world m)"
  unfolding in_world_def by (rule keeps_zoom [where part = obs]) simp_all

lemma guarantees_in_world:
  "guarantees I m R \<Longrightarrow> guarantees (\<lambda>p. I (p_world p)) (in_world m) R"
  by (simp add: guarantees_def in_world_def split: prod.splits) (metis fst_conv snd_conv)

lemma wp_in_world [wp_simps]:
  "wp (in_world m) Q p = wp m (\<lambda>x w. Q x (p\<lparr>p_world := w\<rparr>)) (p_world p)"
  by (simp add: in_world_def wp_simps)

lemma run_in_world:
  "run_state (in_world m) p = (case run_state m (p_world p) of (x, w) \<Rightarrow> (x, p\<lparr>p_world := w\<rparr>))"
  by (simp add: in_world_def)

end
