(* ===== verification/Go_Float.thy ===== *)
theory Go_Float
  imports Go_Strings Complex_Main
begin

text \<open>
  Finite \<open>float64\<close> values as rationals, IEEE rounding to nearest even (\<open>fl64\<close>), the
  decimal reader of \<open>strconv.ParseFloat\<close> and the shortest decimal writers behind
  \<open>%g\<close> and \<open>json.Marshal\<close>.  A signed zero only matters to the writers, so a JSON number
  carries its sign beside its magnitude.
\<close>

section \<open>Rounding to 53 bits\<close>

fun bits :: "nat \<Rightarrow> nat" where
  "bits n = (if n = 0 then 0 else Suc (bits (n div 2)))"

declare bits.simps [simp del]

definition pow2 :: "int \<Rightarrow> rat" where
  "pow2 e = (if 0 \<le> e then 2 ^ nat e else inverse (2 ^ nat (- e)))"

text \<open>The exponent of the leading bit of a positive rational.\<close>

definition exponent :: "rat \<Rightarrow> int" where
  "exponent x =
     (let p = nat (fst (quotient_of x)); d = nat (snd (quotient_of x));
          e = int (bits p) - int (bits d)
      in if pow2 e \<le> x then e else e - 1)"

text \<open>Nearest integer, the even one when halfway.\<close>

definition round_even :: "rat \<Rightarrow> int" where
  "round_even x =
     (let q = \<lfloor>x\<rfloor>; r = x - of_int q
      in if r < 1 / 2 then q else if r > 1 / 2 then q + 1 else if even q then q else q + 1)"

definition grid :: "rat \<Rightarrow> int" where
  "grid x = max (exponent x - 52) (- 1074)"

definition round_mag :: "rat \<Rightarrow> rat" where
  "round_mag x = (if x \<le> 0 then 0 else of_int (round_even (x / pow2 (grid x))) * pow2 (grid x))"

definition fl64 :: "rat \<Rightarrow> rat" where
  "fl64 x = (if x < 0 then - round_mag (- x) else round_mag x)"

definition max_f64 :: rat where
  "max_f64 = (2 ^ 53 - 1) * 2 ^ 971"

text \<open>Conversion of a float to an integer type truncates toward zero.\<close>

definition trunc :: "rat \<Rightarrow> int" where
  "trunc x = (if x < 0 then - \<lfloor>- x\<rfloor> else \<lfloor>x\<rfloor>)"

text \<open>To \<open>int64\<close>; out of range, the platform decides.\<close>

definition float_to_int64 :: "platform \<Rightarrow> rat \<Rightarrow> int" where
  "float_to_int64 pf x =
     (if - (2 ^ 63) \<le> trunc x \<and> trunc x < 2 ^ 63 then trunc x else wrap64 (pf_int64 pf x))"

section \<open>What rounding preserves\<close>

lemma pow2_powi: "pow2 e = 2 powi e"
  by (simp add: pow2_def power_int_def power_inverse inverse_eq_divide)
    (simp add: power_one_over)

lemma pow2_pos [simp]: "0 < pow2 e"
  by (simp add: pow2_powi)

lemma pow2_add: "pow2 (a + b) = pow2 a * pow2 b"
  by (simp add: pow2_powi power_int_add)

lemma pow2_nat: "pow2 (int n) = 2 ^ n"
  by (simp add: pow2_def)

lemma pow2_numeral: "pow2 (numeral k) = 2 ^ numeral k"
  by (simp add: pow2_def)

lemma pow2_le: "a \<le> b \<Longrightarrow> pow2 a \<le> pow2 b"
  by (simp add: pow2_powi power_int_increasing)

lemma pow2_less_iff: "pow2 a < pow2 b \<longleftrightarrow> a < b"
  using pow2_le [of b a] power_int_strict_increasing [of a b "2 :: rat"]
  by (cases "a < b") (auto simp: pow2_powi)

lemma bits_bounds: "0 < n \<Longrightarrow> 2 ^ (bits n - 1) \<le> n \<and> n < 2 ^ bits n"
proof (induction n rule: bits.induct)
  case (1 n)
  show ?case
  proof (cases "n div 2 = 0")
    case True
    then have "n = 1" using 1 by simp
    then show ?thesis by (simp add: bits.simps)
  next
    case False
    with 1 have IH: "2 ^ (bits (n div 2) - 1) \<le> n div 2" "n div 2 < 2 ^ bits (n div 2)" by auto
    have b: "bits n = Suc (bits (n div 2))" using False by (subst bits.simps) auto
    have "0 < bits (n div 2)" using False by (subst bits.simps) simp
    then have "2 ^ bits (n div 2) = 2 * (2::nat) ^ (bits (n div 2) - 1)"
      by (cases "bits (n div 2)") simp_all
    then show ?thesis using IH b by (simp del: One_nat_def) linarith
  qed
qed

lemma pow2_exponent: "0 < x \<Longrightarrow> pow2 (exponent x) \<le> x"
proof -
  assume x: "0 < x"
  obtain p d where q: "quotient_of x = (p, d)" by fastforce
  have d: "0 < d" and xe: "x = of_int p / of_int d"
    using q quotient_of_denom_pos quotient_of_div by auto
  then have p: "0 < p" using x by (simp add: zero_less_divide_iff)
  define a where "a = bits (nat p)"
  define b where "b = bits (nat d)"
  have "0 < a" unfolding a_def using p by (subst bits.simps) simp
  have "2 ^ (a - 1) \<le> nat p" "nat d < 2 ^ b"
    unfolding a_def b_def using bits_bounds [of "nat p"] bits_bounds [of "nat d"] p d by auto
  then have "int (2 ^ (a - 1)) \<le> int (nat p)" "int (nat d) < int (2 ^ b)"
    by (simp_all only: of_nat_le_iff of_nat_less_iff)
  then have pa: "2 ^ (a - 1) \<le> p" and db: "d < 2 ^ b"
    using p d by simp_all
  have "pow2 (int a - int b - 1) \<le> x"
  proof -
    have "pow2 (int a - int b - 1) * 2 ^ b = pow2 (int (a - 1))"
      using \<open>0 < a\<close> by (simp add: pow2_nat [symmetric] pow2_add [symmetric] of_nat_diff)
    also have "\<dots> = of_int (2 ^ (a - 1))" by (simp add: pow2_nat)
    also have "\<dots> \<le> (of_int p :: rat)" using pa by (simp only: of_int_le_iff)
    also have "\<dots> = x * of_int d" using xe d by simp
    also have "\<dots> \<le> x * 2 ^ b"
    proof (rule mult_left_mono)
      have "(of_int d :: rat) \<le> of_int (2 ^ b)" using db by (simp only: of_int_le_iff less_imp_le)
      then show "of_int d \<le> (2 :: rat) ^ b" by simp
    qed (use x in simp)
    finally show ?thesis by simp
  qed
  then show ?thesis
    by (simp add: exponent_def q a_def b_def Let_def)
qed

lemma round_even_le: "x \<le> of_int n \<Longrightarrow> round_even x \<le> n"
proof -
  assume x: "x \<le> of_int n"
  then have "\<lfloor>x\<rfloor> \<le> n" by (simp add: floor_le_iff)
  moreover have "\<lfloor>x\<rfloor> = n \<Longrightarrow> x - of_int \<lfloor>x\<rfloor> = 0" using x of_int_floor_le [of x] by simp
  ultimately show ?thesis by (cases "\<lfloor>x\<rfloor> = n") (auto simp: round_even_def Let_def)
qed

lemma round_even_ge: "of_int n \<le> x \<Longrightarrow> n \<le> round_even x"
proof -
  assume "of_int n \<le> x"
  then have "n \<le> \<lfloor>x\<rfloor>" by (simp add: le_floor_iff)
  then show ?thesis by (auto simp: round_even_def Let_def)
qed

text \<open>
  A float is \<open>n * 2 ^ e\<close> with at most 53 bits in \<open>n\<close>. Rounding never crosses one.
\<close>

definition is_float :: "rat \<Rightarrow> bool" where
  "is_float y \<longleftrightarrow> (\<exists>n e. 0 \<le> n \<and> n < 2 ^ 53 \<and> - 1074 \<le> e \<and> y = of_int n * pow2 e)"

lemma float_below: "0 \<le> n \<Longrightarrow> n < 2 ^ 53 \<Longrightarrow> of_int n * pow2 e < pow2 (53 + e)"
proof -
  assume "n < 2 ^ 53"
  then have "(of_int n :: rat) < of_int (2 ^ 53)" by (simp only: of_int_less_iff)
  then have "of_int n * pow2 e < of_int (2 ^ 53) * pow2 e"
    by (rule mult_strict_right_mono) simp
  moreover have "pow2 (53 + e) = of_int (2 ^ 53) * pow2 e"
    using pow2_add [of 53 e] by (simp add: pow2_numeral)
  ultimately show ?thesis by (simp only:)
qed

lemma fl64_le:
  assumes "0 < x" "x \<le> y" "is_float y"
  shows "fl64 x \<le> y"
proof -
  obtain n e where n: "0 \<le> n" "n < 2 ^ 53" "- 1074 \<le> e" "y = of_int n * pow2 e"
    using assms(3) by (auto simp: is_float_def)
  have "grid x \<le> e"
  proof (rule ccontr)
    assume "\<not> grid x \<le> e"
    with n(3) have g: "e < exponent x - 52" by (auto simp: grid_def)
    have "pow2 (exponent x) \<le> y" using pow2_exponent [OF assms(1)] assms(2) by simp
    also have "y < pow2 (53 + e)"
      using float_below [OF n(1,2)] by (simp only: n(4))
    finally have "exponent x < 53 + e" by (simp only: pow2_less_iff)
    with g show False by simp
  qed
  then obtain k where k: "e = grid x + int k" using zle_iff_zadd by blast
  have "x / pow2 (grid x) \<le> of_int (n * 2 ^ k)"
    using assms(2) by (simp add: n(4) k pow2_add pow2_nat divide_simps mult_ac)
  then have "round_even (x / pow2 (grid x)) \<le> n * 2 ^ k" by (rule round_even_le)
  then have "(of_int (round_even (x / pow2 (grid x))) :: rat) \<le> of_int (n * 2 ^ k)"
    by (simp only: of_int_le_iff)
  then have "of_int (round_even (x / pow2 (grid x))) * pow2 (grid x) \<le> of_int (n * 2 ^ k) * pow2 (grid x)"
    by (rule mult_right_mono) (simp add: less_imp_le)
  also have "\<dots> = y" by (simp add: n(4) k pow2_add pow2_nat)
  finally show ?thesis using assms(1) by (simp add: fl64_def round_mag_def)
qed

lemma fl64_ge:
  assumes "0 < x" "y \<le> x" "is_float y"
  shows "y \<le> fl64 x"
proof -
  obtain n e where n: "0 \<le> n" "n < 2 ^ 53" "- 1074 \<le> e" "y = of_int n * pow2 e"
    using assms(3) by (auto simp: is_float_def)
  have "\<exists>m. y \<le> of_int m * pow2 (grid x) \<and> of_int m * pow2 (grid x) \<le> x"
  proof (cases "grid x \<le> e")
    case True
    then obtain k where k: "e = grid x + int k" using zle_iff_zadd by blast
    have "y = of_int (n * 2 ^ k) * pow2 (grid x)" by (simp add: n(4) k pow2_add pow2_nat)
    then show ?thesis using assms(2) by (intro exI [of _ "n * 2 ^ k"]) simp
  next
    case False
    with n(3) have g: "grid x = exponent x - 52" "e < exponent x - 52" by (auto simp: grid_def)
    have "y < pow2 (53 + e)"
      using float_below [OF n(1,2)] by (simp only: n(4))
    also have "\<dots> \<le> pow2 (exponent x)" using g by (intro pow2_le) simp
    also have "pow2 (exponent x) = of_int (2 ^ 52) * pow2 (grid x)"
      using pow2_add [of 52 "grid x"] g(1) by (simp add: pow2_numeral)
    finally show ?thesis
      using pow2_exponent [OF assms(1)] pow2_add [of 52 "grid x"] g(1)
      by (intro exI [of _ "2 ^ 52"]) (simp add: pow2_numeral)
  qed
  then obtain m where m: "y \<le> of_int m * pow2 (grid x)" "of_int m * pow2 (grid x) \<le> x" by blast
  then have "of_int m \<le> x / pow2 (grid x)" by (simp add: pos_le_divide_eq)
  then have "m \<le> round_even (x / pow2 (grid x))" by (rule round_even_ge)
  then have "(of_int m :: rat) \<le> of_int (round_even (x / pow2 (grid x)))" by (simp only: of_int_le_iff)
  then have "(of_int m :: rat) * pow2 (grid x) \<le> of_int (round_even (x / pow2 (grid x))) * pow2 (grid x)"
    by (rule mult_right_mono) (simp add: less_imp_le)
  with m(1) have "y \<le> of_int (round_even (x / pow2 (grid x))) * pow2 (grid x)" by (rule order_trans)
  then show ?thesis using assms(1) by (simp add: fl64_def round_mag_def)
qed

lemma fl64_float: "is_float y \<Longrightarrow> fl64 y = y"
proof (cases "y = 0")
  case True
  then show ?thesis by (simp add: fl64_def round_mag_def)
next
  case False
  assume f: "is_float y"
  then have "0 \<le> y" by (auto simp: is_float_def less_imp_le intro!: mult_nonneg_nonneg)
  with False have "0 < y" by simp
  with f show ?thesis by (intro antisym fl64_le fl64_ge) simp_all
qed

lemma fl64_zero [simp]: "fl64 0 = 0"
  by (simp add: fl64_def round_mag_def)

lemma is_float_int: "0 \<le> n \<Longrightarrow> n < 2 ^ 53 \<Longrightarrow> is_float (of_int n)"
  unfolding is_float_def by (intro exI [of _ n] exI [of _ 0]) (simp add: pow2_def)

lemma is_float_scaled: "0 \<le> n \<Longrightarrow> n < 2 ^ 53 \<Longrightarrow> k \<le> 1074 \<Longrightarrow> is_float (of_int n / 2 ^ k)"
  unfolding is_float_def
  by (intro exI [of _ n] exI [of _ "- int k"]) (simp add: pow2_def divide_inverse)

lemma fl64_between:
  "0 < x \<Longrightarrow> a \<le> x \<Longrightarrow> x \<le> b \<Longrightarrow> is_float a \<Longrightarrow> is_float b \<Longrightarrow> a \<le> fl64 x \<and> fl64 x \<le> b"
  by (simp add: fl64_ge fl64_le)

section \<open>JSON numbers\<close>

datatype f64 = F64 (f_neg: bool) (f_mag: rat)

definition f_val :: "f64 \<Rightarrow> rat" where
  "f_val f = (if f_neg f then - f_mag f else f_mag f)"

definition pow10 :: "int \<Rightarrow> rat" where
  "pow10 e = (if 0 \<le> e then 10 ^ nat e else inverse (10 ^ nat (- e)))"

text \<open>
  \<open>strconv.ParseFloat\<close> on a JSON number literal: the sign, the digits before and after the
  point, the decimal exponent.  A magnitude that rounds above the largest float is an error.
\<close>

definition ParseFloat :: "bool \<Rightarrow> string \<Rightarrow> string \<Rightarrow> int \<Rightarrow> f64 option" where
  "ParseFloat neg ds fs ex =
     (let m = round_mag (of_nat (digits_val (ds @ fs)) * pow10 (ex - int (length fs)))
      in if m > max_f64 then None else Some (F64 neg m))"

section \<open>Shortest decimals\<close>

text \<open>
  \<open>dec_exp x\<close> is the \<open>k\<close> with \<open>10 ^ (k - 1) \<le> x < 10 ^ k\<close>, searched from the estimate
  the binary exponent gives.
\<close>

fun dec_exp_from :: "nat \<Rightarrow> rat \<Rightarrow> int \<Rightarrow> int" where
  "dec_exp_from 0 x k = k"
| "dec_exp_from (Suc n) x k = (if x < pow10 k then k else dec_exp_from n x (k + 1))"

definition dec_exp :: "rat \<Rightarrow> int" where
  "dec_exp x = dec_exp_from 8 x ((exponent x * 3) div 10 - 2)"

text \<open>
  The fewest digits that read back as \<open>x\<close>: at each length the decimal below and the one
  above are tried, the nearer one when both read back.
\<close>

fun shortest_from :: "nat \<Rightarrow> nat \<Rightarrow> rat \<Rightarrow> int \<Rightarrow> nat \<times> nat" where
  "shortest_from 0 n x k = (nat \<lfloor>x * pow10 (int n - k)\<rfloor>, n)"
| "shortest_from (Suc fuel) n x k =
     (let y = x * pow10 (int n - k);
          lo = nat \<lfloor>y\<rfloor>;
          okdown = (round_mag (of_nat lo * pow10 (k - int n)) = x);
          okup = (round_mag (of_nat (lo + 1) * pow10 (k - int n)) = x)
      in if okdown \<and> okup then (nat (round_even y), n)
         else if okdown then (lo, n)
         else if okup then (lo + 1, n)
         else shortest_from fuel (n + 1) x k)"

text \<open>
  Digits without trailing zeros, and the position of the decimal point; rounding up to a power
  of ten gives one digit more than was asked for and moves the point. Seventeen digits always
  identify a float.
\<close>

definition shortest :: "rat \<Rightarrow> string \<times> int" where
  "shortest x =
     (if x = 0 then ([], 0)
      else let k = dec_exp x;
               (d, n) = shortest_from 17 1 x k;
               t = nat_text d
           in (rev (dropWhile (\<lambda>c. c = CHR ''0'') (rev t)), k + (int (length t) - int n)))"

definition pad_exp :: "int \<Rightarrow> string" where
  "pad_exp e = (if e < 0 then ''-'' else ''+'') @
     (if \<bar>e\<bar> < 10 then ''0'' else []) @ nat_text (nat \<bar>e\<bar>)"

definition fmtE :: "bool \<Rightarrow> string \<Rightarrow> int \<Rightarrow> string" where
  "fmtE neg ds dp =
     (if neg then ''-'' else []) @
     (case ds of [] \<Rightarrow> ''0'' | c # cs \<Rightarrow> c # (if cs = [] then [] else CHR ''.'' # cs)) @
     ''e'' @ pad_exp (if ds = [] then 0 else dp - 1)"

definition fmtF :: "bool \<Rightarrow> string \<Rightarrow> int \<Rightarrow> string" where
  "fmtF neg ds dp =
     (let n = int (length ds)
      in (if neg then ''-'' else []) @
         (if dp \<le> 0 then ''0'' else take (nat dp) ds @ replicate (nat (dp - n)) (CHR ''0'')) @
         (if n \<le> dp then [] else
            ''.'' @ replicate (nat (- dp)) (CHR ''0'') @ drop (nat dp) ds))"

text \<open>\<open>%g\<close> with the shortest precision: an exponent below -4 or from 6 on is written with \<open>e\<close>.\<close>

definition fmt_g :: "f64 \<Rightarrow> string" where
  "fmt_g f =
     (case shortest (f_mag f) of (ds, dp) \<Rightarrow>
        let ex = dp - 1
        in if ex < -4 \<or> ex \<ge> 6 then fmtE (f_neg f) ds dp else fmtF (f_neg f) ds dp)"

text \<open>
  \<open>json.Marshal\<close> of a float: plain digits between 1e-6 and 1e21, otherwise an exponent whose
  single digit loses its leading zero.
\<close>

definition clean_exp :: "string \<Rightarrow> string" where
  "clean_exp b =
     (case rev b of
        d # z # s # e # rest \<Rightarrow>
          if e = CHR ''e'' \<and> (s = CHR ''-'' \<or> s = CHR ''+'') \<and> z = CHR ''0''
          then rev (d # s # e # rest) else b
      | _ \<Rightarrow> b)"

definition fmt_json :: "f64 \<Rightarrow> string" where
  "fmt_json f =
     (case shortest (f_mag f) of (ds, dp) \<Rightarrow>
        if f_mag f \<noteq> 0 \<and> (f_mag f < pow10 (-6) \<or> f_mag f \<ge> pow10 21)
        then clean_exp (fmtE (f_neg f) ds dp)
        else fmtF (f_neg f) ds dp)"

end
