(* ===== verification/Go_Json.thy ===== *)
theory Go_Json
  imports Go_Float
begin

text \<open>
  \<open>encoding/json\<close>: the syntax check and reader of \<open>json.Unmarshal\<close>, its decoding into
  \<open>any\<close>, the rules of its decoding into structs the client uses, and \<open>json.Marshal\<close>.
  A parsed document keeps number literals as text and objects as the list of their members, in
  order and with duplicates, because the two decodings treat them differently.
\<close>

datatype 'n json =
    JNull
  | JBool bool
  | JNum 'n
  | JStr string
  | JArr "'n json list"
  | JObj "(string \<times> 'n json) list"

text \<open>A number literal: sign, integer digits, fraction digits, decimal exponent; and its text.\<close>

record num_lit =
  nl_neg :: bool
  nl_int :: string
  nl_frac :: string
  nl_exp :: int
  nl_plain :: bool

section \<open>UTF-8\<close>

definition cont :: "char \<Rightarrow> bool" where
  "cont c = (0x80 \<le> byte c \<and> byte c \<le> 0xBF)"

text \<open>\<open>utf8.DecodeRune\<close>: the code point and its width, \<open>None\<close> for an invalid encoding.\<close>

fun DecodeRune :: "string \<Rightarrow> (nat \<times> nat) option" where
  "DecodeRune [] = None"
| "DecodeRune (a # s) =
     (let x = byte a in
      if x < 0x80 then Some (x, 1)
      else if 0xC2 \<le> x \<and> x \<le> 0xDF then
        (case s of b # _ \<Rightarrow>
           if cont b then Some ((x - 0xC0) * 64 + (byte b - 0x80), 2) else None
         | _ \<Rightarrow> None)
      else if 0xE0 \<le> x \<and> x \<le> 0xEF then
        (case s of b # c # _ \<Rightarrow>
           if cont b \<and> cont c \<and> (x = 0xE0 \<longrightarrow> 0xA0 \<le> byte b) \<and> (x = 0xED \<longrightarrow> byte b \<le> 0x9F)
           then Some ((x - 0xE0) * 4096 + (byte b - 0x80) * 64 + (byte c - 0x80), 3) else None
         | _ \<Rightarrow> None)
      else if 0xF0 \<le> x \<and> x \<le> 0xF4 then
        (case s of b # c # d # _ \<Rightarrow>
           if cont b \<and> cont c \<and> cont d \<and> (x = 0xF0 \<longrightarrow> 0x90 \<le> byte b) \<and>
              (x = 0xF4 \<longrightarrow> byte b \<le> 0x8F)
           then Some ((x - 0xF0) * 262144 + (byte b - 0x80) * 4096 + (byte c - 0x80) * 64 +
                      (byte d - 0x80), 4)
           else None
         | _ \<Rightarrow> None)
      else None)"

text \<open>\<open>utf8.AppendRune\<close>; surrogates and values above U+10FFFF become U+FFFD.\<close>

definition EncodeRune :: "nat \<Rightarrow> string" where
  "EncodeRune r =
     (if r < 0x80 then [chr r]
      else if r < 0x800 then [chr (0xC0 + r div 64), chr (0x80 + r mod 64)]
      else if (0xD800 \<le> r \<and> r \<le> 0xDFFF) \<or> 0x10FFFF < r then [chr 0xEF, chr 0xBF, chr 0xBD]
      else if r < 0x10000 then
        [chr (0xE0 + r div 4096), chr (0x80 + r div 64 mod 64), chr (0x80 + r mod 64)]
      else
        [chr (0xF0 + r div 262144), chr (0x80 + r div 4096 mod 64),
         chr (0x80 + r div 64 mod 64), chr (0x80 + r mod 64)])"

definition replacement :: string where
  "replacement = [chr 0xEF, chr 0xBF, chr 0xBD]"

section \<open>Reading\<close>

definition is_ws :: "char \<Rightarrow> bool" where
  "is_ws c = (byte c = 32 \<or> byte c = 9 \<or> byte c = 10 \<or> byte c = 13)"

definition skip_ws :: "string \<Rightarrow> string" where
  "skip_ws s = dropWhile is_ws s"

definition hex_val :: "char \<Rightarrow> nat option" where
  "hex_val c =
     (let b = byte c in
      if 48 \<le> b \<and> b \<le> 57 then Some (b - 48)
      else if 97 \<le> b \<and> b \<le> 102 then Some (b - 87)
      else if 65 \<le> b \<and> b \<le> 70 then Some (b - 55) else None)"

fun hex4 :: "string \<Rightarrow> (nat \<times> string) option" where
  "hex4 (a # b # c # d # s) =
     (case (hex_val a, hex_val b, hex_val c, hex_val d) of
        (Some w, Some x, Some y, Some z) \<Rightarrow> Some (w * 4096 + x * 256 + y * 16 + z, s)
      | _ \<Rightarrow> None)"
| "hex4 _ = None"

text \<open>
  The low half of a surrogate pair: \<open>\u\<close> and four digits in the low range, right after the
  high half. Otherwise the high half alone becomes U+FFFD.
\<close>

definition surrogate :: "nat \<Rightarrow> string \<Rightarrow> string \<times> string" where
  "surrogate hi s =
     (case s of
        x # u # t \<Rightarrow>
          if byte x = 92 \<and> u = CHR ''u'' then
            (case hex4 t of
               Some (lo, r) \<Rightarrow>
                 if 0xD800 \<le> hi \<and> hi \<le> 0xDBFF \<and> 0xDC00 \<le> lo \<and> lo \<le> 0xDFFF
                 then (EncodeRune (0x10000 + (hi - 0xD800) * 1024 + (lo - 0xDC00)), r)
                 else (replacement, s)
             | None \<Rightarrow> (replacement, s))
          else (replacement, s)
      | _ \<Rightarrow> (replacement, s))"

text \<open>\<open>unquote\<close>: the text after the opening quote up to the closing one, one rune per round.\<close>

fun parse_string :: "nat \<Rightarrow> string \<Rightarrow> (string \<times> string) option" where
  "parse_string 0 s = None"
| "parse_string (Suc n) s =
     (case s of
        [] \<Rightarrow> None
      | c # t \<Rightarrow>
          if byte c = 34 then Some ([], t)
          else if byte c = 92 then
            (case t of
               [] \<Rightarrow> None
             | e # u \<Rightarrow>
                 if e = CHR ''u'' then
                   (case hex4 u of
                      None \<Rightarrow> None
                    | Some (r, v) \<Rightarrow>
                        (let (piece, w) =
                           (if 0xD800 \<le> r \<and> r \<le> 0xDFFF then surrogate r v else (EncodeRune r, v))
                         in map_option (apfst ((@) piece)) (parse_string n w)))
                 else
                   (case map_of [(34, 34), (92, 92), (47, 47), (98, 8), (102, 12),
                                 (110, 10), (114, 13), (116, 9)] (byte e) of
                      None \<Rightarrow> None
                    | Some b \<Rightarrow> map_option (apfst ((#) (chr b))) (parse_string n u)))
          else if byte c < 32 then None
          else
            (case DecodeRune s of
               None \<Rightarrow> map_option (apfst ((@) replacement)) (parse_string n t)
             | Some (r, w) \<Rightarrow> map_option (apfst ((@) (take w s))) (parse_string n (drop w s))))"

text \<open>A number: optional minus, no leading zero, optional fraction and exponent.\<close>

definition parse_exp :: "string \<Rightarrow> (int \<times> bool \<times> string) option" where
  "parse_exp s =
     (case s of
        c # t \<Rightarrow>
          if c = CHR ''e'' \<or> c = CHR ''E'' then
            (let (sg, u) = (case t of x # v \<Rightarrow> if x = CHR ''-'' then (-1, v)
                                               else if x = CHR ''+'' then (1, v) else (1, t)
                            | [] \<Rightarrow> (1::int, t));
                 ds = takeWhile is_digit u
             in if ds = [] then None
                else Some (sg * int (digits_val ds), False, dropWhile is_digit u))
          else Some (0, True, s)
      | [] \<Rightarrow> Some (0, True, s))"

definition parse_number :: "string \<Rightarrow> (num_lit \<times> string) option" where
  "parse_number s =
     (let (neg, t) = (case s of c # u \<Rightarrow> if c = CHR ''-'' then (True, u) else (False, s)
                      | [] \<Rightarrow> (False, s));
          ds = takeWhile is_digit t;
          u = dropWhile is_digit t
      in if ds = [] \<or> (hd ds = CHR ''0'' \<and> length ds \<noteq> 1) then None
         else
           (case u of
              c # v \<Rightarrow>
                if c = CHR ''.'' then
                  (let fs = takeWhile is_digit v in
                   if fs = [] then None
                   else map_option (\<lambda>(e, _, r). (\<lparr>nl_neg = neg, nl_int = ds, nl_frac = fs,
                          nl_exp = e, nl_plain = False\<rparr>, r)) (parse_exp (dropWhile is_digit v)))
                else map_option (\<lambda>(e, p, r). (\<lparr>nl_neg = neg, nl_int = ds, nl_frac = [],
                          nl_exp = e, nl_plain = p\<rparr>, r)) (parse_exp u)
            | [] \<Rightarrow> Some (\<lparr>nl_neg = neg, nl_int = ds, nl_frac = [], nl_exp = 0, nl_plain = True\<rparr>, [])))"

text \<open>
  Values. Every call consumes a byte or ends, so the fuel, twice the input's length, is enough;
  \<open>d\<close> is how many more levels of nesting the scanner accepts.
\<close>

fun parse_value :: "nat \<Rightarrow> nat \<Rightarrow> string \<Rightarrow> (num_lit json \<times> string) option"
  and parse_elements :: "nat \<Rightarrow> nat \<Rightarrow> string \<Rightarrow> (num_lit json list \<times> string) option"
  and parse_members :: "nat \<Rightarrow> nat \<Rightarrow> string \<Rightarrow> ((string \<times> num_lit json) list \<times> string) option"
where
  "parse_value 0 d s = None"
| "parse_value (Suc n) d s0 =
     (let s = skip_ws s0 in
      case s of
        [] \<Rightarrow> None
      | c # t \<Rightarrow>
          if c = CHR ''{'' then
            (if d = 0 then None
             else case skip_ws t of
               x # u \<Rightarrow> if x = CHR ''}'' then Some (JObj [], u)
                        else map_option (apfst JObj) (parse_members n (d - 1) t)
             | [] \<Rightarrow> None)
          else if c = CHR ''['' then
            (if d = 0 then None
             else case skip_ws t of
               x # u \<Rightarrow> if x = CHR '']'' then Some (JArr [], u)
                        else map_option (apfst JArr) (parse_elements n (d - 1) t)
             | [] \<Rightarrow> None)
          else if byte c = 34 then map_option (apfst JStr) (parse_string (Suc (length t)) t)
          else if HasPrefix s ''true'' then Some (JBool True, drop 4 s)
          else if HasPrefix s ''false'' then Some (JBool False, drop 5 s)
          else if HasPrefix s ''null'' then Some (JNull, drop 4 s)
          else map_option (apfst JNum) (parse_number s))"
| "parse_elements 0 d s = None"
| "parse_elements (Suc n) d s =
     (case parse_value n d s of
        None \<Rightarrow> None
      | Some (v, t) \<Rightarrow>
          (case skip_ws t of
             [] \<Rightarrow> None
           | c # u \<Rightarrow>
               if c = CHR '','' then map_option (apfst ((#) v)) (parse_elements n d u)
               else if c = CHR '']'' then Some ([v], u)
               else None))"
| "parse_members 0 d s = None"
| "parse_members (Suc n) d s =
     (case skip_ws s of
        [] \<Rightarrow> None
      | q # t \<Rightarrow>
          if byte q \<noteq> 34 then None
          else
            (case parse_string (Suc (length t)) t of
               None \<Rightarrow> None
             | Some (k, u) \<Rightarrow>
                 (case skip_ws u of
                    [] \<Rightarrow> None
                  | c # v \<Rightarrow>
                      if c \<noteq> CHR '':'' then None
                      else
                        (case parse_value n d v of
                           None \<Rightarrow> None
                         | Some (x, w) \<Rightarrow>
                             (case skip_ws w of
                                [] \<Rightarrow> None
                              | e # r \<Rightarrow>
                                  if e = CHR '','' then
                                    map_option (apfst ((#) (k, x))) (parse_members n d r)
                                  else if e = CHR ''}'' then Some ([(k, x)], r)
                                  else None)))))"

definition parse_json :: "string \<Rightarrow> num_lit json option" where
  "parse_json s =
     (case parse_value (2 * length s + 2) 10000 s of
        Some (v, t) \<Rightarrow> if skip_ws t = [] then Some v else None
      | None \<Rightarrow> None)"

section \<open>Decoding into any\<close>

text \<open>
  Numbers become floats, objects become maps: a repeated member replaces the earlier one. A
  number out of range is an error of the whole call.
\<close>

definition lit_float :: "num_lit \<Rightarrow> f64 option" where
  "lit_float l = ParseFloat (nl_neg l) (nl_int l) (nl_frac l) (nl_exp l)"

fun to_any :: "num_lit json \<Rightarrow> f64 json option"
  and to_any_list :: "num_lit json list \<Rightarrow> f64 json list option"
  and to_any_members :: "(string \<times> num_lit json) list \<Rightarrow> f64 json gomap \<Rightarrow> f64 json gomap option"
where
  "to_any JNull = Some JNull"
| "to_any (JBool b) = Some (JBool b)"
| "to_any (JNum l) = map_option JNum (lit_float l)"
| "to_any (JStr s) = Some (JStr s)"
| "to_any (JArr xs) = map_option JArr (to_any_list xs)"
| "to_any (JObj ms) = map_option JObj (to_any_members ms [])"
| "to_any_list [] = Some []"
| "to_any_list (x # xs) =
     (case to_any x of None \<Rightarrow> None | Some y \<Rightarrow> map_option ((#) y) (to_any_list xs))"
| "to_any_members [] out = Some out"
| "to_any_members ((k, x) # ms) out =
     (case to_any x of None \<Rightarrow> None | Some y \<Rightarrow> to_any_members ms (mset_key k y out))"

definition Unmarshal_any :: "string \<Rightarrow> f64 json option" where
  "Unmarshal_any s = (case parse_json s of None \<Rightarrow> None | Some v \<Rightarrow> to_any v)"

text \<open>What decoding into \<open>any\<close> guarantees: every object in the value is a map.\<close>

fun json_wf :: "'n json \<Rightarrow> bool" where
  "json_wf (JArr xs) = list_all json_wf xs"
| "json_wf (JObj ms) = (wf_map ms \<and> list_all (\<lambda>m. json_wf (snd m)) ms)"
| "json_wf _ = True"

lemma list_all_mset_key:
  "list_all (\<lambda>m. P (snd m)) out \<Longrightarrow> P y \<Longrightarrow> list_all (\<lambda>m. P (snd m)) (mset_key k y out)"
  by (induction out) auto

lemma to_any_wf:
  shows "to_any v = Some w \<Longrightarrow> json_wf w"
    and "to_any_list xs = Some ys \<Longrightarrow> list_all json_wf ys"
    and "to_any_members ms out = Some res \<Longrightarrow> wf_map out \<Longrightarrow>
           list_all (\<lambda>m. json_wf (snd m)) out \<Longrightarrow>
           wf_map res \<and> list_all (\<lambda>m. json_wf (snd m)) res"
  by (induction v and xs and ms out arbitrary: w and ys and res
      rule: to_any_to_any_list_to_any_members.induct)
    (auto split: option.splits simp: list_all_mset_key)

lemma Unmarshal_any_wf: "Unmarshal_any s = Some v \<Longrightarrow> json_wf v"
  by (auto simp: Unmarshal_any_def to_any_wf(1) split: option.splits)

section \<open>Writing\<close>

text \<open>
  A string literal with HTML escaping on, the default: quotes, backslashes, control characters,
  \<open><\<close>, \<open>>\<close>, \<open>&\<close>, U+2028 and U+2029 are escaped, an invalid byte becomes the escape
  of U+FFFD.
\<close>

definition backslash :: char where
  "backslash = chr 92"

definition hex_escape :: "nat \<Rightarrow> string" where
  "hex_escape b = backslash # ''u00'' @ [hex_digit (b div 16), hex_digit (b mod 16)]"

definition escape_byte :: "char \<Rightarrow> string" where
  "escape_byte c =
     (let b = byte c in
      if b = 34 \<or> b = 92 then [backslash, c]
      else if b = 8 then [backslash, CHR ''b'']
      else if b = 12 then [backslash, CHR ''f'']
      else if b = 10 then [backslash, CHR ''n'']
      else if b = 13 then [backslash, CHR ''r'']
      else if b = 9 then [backslash, CHR ''t'']
      else if b < 32 \<or> b = 60 \<or> b = 62 \<or> b = 38 then hex_escape b
      else [c])"

fun write_runes :: "nat \<Rightarrow> string \<Rightarrow> string" where
  "write_runes 0 s = []"
| "write_runes (Suc n) s =
     (case s of
        [] \<Rightarrow> []
      | c # t \<Rightarrow>
          if byte c < 128 then escape_byte c @ write_runes n t
          else
            (case DecodeRune s of
               None \<Rightarrow> backslash # ''ufffd'' @ write_runes n t
             | Some (r, w) \<Rightarrow>
                 (if r = 0x2028 \<or> r = 0x2029
                  then backslash # ''u202'' @ [hex_digit (r mod 16)] else take w s) @
                 write_runes n (drop w s)))"

definition Marshal_string :: "string \<Rightarrow> string" where
  "Marshal_string s = chr 34 # write_runes (length s) s @ [chr 34]"

fun intercalate_comma :: "string list \<Rightarrow> string" where
  "intercalate_comma [] = []"
| "intercalate_comma [x] = x"
| "intercalate_comma (x # y # ys) = x @ '','' @ intercalate_comma (y # ys)"

text \<open>Object members are written in the order of their keys.\<close>

fun Marshal_any :: "f64 json \<Rightarrow> string"
  and Marshal_list :: "f64 json list \<Rightarrow> string list"
  and Marshal_members :: "(string \<times> f64 json) list \<Rightarrow> (string \<times> string) list"
where
  "Marshal_any JNull = ''null''"
| "Marshal_any (JBool b) = (if b then ''true'' else ''false'')"
| "Marshal_any (JNum f) = fmt_json f"
| "Marshal_any (JStr s) = Marshal_string s"
| "Marshal_any (JArr xs) = ''['' @ intercalate_comma (Marshal_list xs) @ '']''"
| "Marshal_any (JObj ms) =
     (let texts = Marshal_members ms in
      ''{'' @ intercalate_comma
        (map (\<lambda>k. Marshal_string k @ '':'' @ (case map_of texts k of None \<Rightarrow> [] | Some t \<Rightarrow> t))
             (sorted_keys texts)) @ ''}'')"
| "Marshal_list [] = []"
| "Marshal_list (x # xs) = Marshal_any x # Marshal_list xs"
| "Marshal_members [] = []"
| "Marshal_members ((k, x) # ms) = (k, Marshal_any x) # Marshal_members ms"

section \<open>Decoding into structs\<close>

text \<open>
  A member sets the field whose name it has, or, when no field has exactly that name, the one
  whose folded name equals its folded name. Folding maps ASCII letters to upper case, and the
  long s and the Kelvin sign, whose simple folds are \<open>S\<close> and \<open>K\<close>; no other rune folds
  to an ASCII letter.
\<close>

fun fold_name :: "string \<Rightarrow> string" where
  "fold_name [] = []"
| "fold_name (c # s) =
     (if byte c = 0xC5 then
        (case s of d # t \<Rightarrow> if byte d = 0xBF then CHR ''S'' # fold_name t else c # fold_name s
         | [] \<Rightarrow> [c])
      else if byte c = 0xE2 then
        (case s of
           d # e # t \<Rightarrow>
             if byte d = 0x84 \<and> byte e = 0xAA then CHR ''K'' # fold_name t else c # fold_name s
         | _ \<Rightarrow> c # fold_name s)
      else upper_byte c # fold_name s)"

definition field_of :: "string list \<Rightarrow> string \<Rightarrow> string option" where
  "field_of fnames k =
     (if k \<in> set fnames then Some k
      else List.find (\<lambda>f. fold_name f = fold_name k) fnames)"

text \<open>
  A struct from a document: \<open>null\<close> leaves it as it is, any other non-object is an error;
  each member that names a field is given to \<open>put\<close>, which fails on a type mismatch.
\<close>

fun decode_members ::
  "string list \<Rightarrow> (string \<Rightarrow> num_lit json \<Rightarrow> 'a \<Rightarrow> 'a option) \<Rightarrow>
   (string \<times> num_lit json) list \<Rightarrow> 'a \<Rightarrow> 'a option" where
  "decode_members fnames put [] x = Some x"
| "decode_members fnames put ((k, v) # ms) x =
     (case field_of fnames k of
        None \<Rightarrow> decode_members fnames put ms x
      | Some f \<Rightarrow> (case put f v x of None \<Rightarrow> None | Some y \<Rightarrow> decode_members fnames put ms y))"

fun decode_struct ::
  "string list \<Rightarrow> (string \<Rightarrow> num_lit json \<Rightarrow> 'a \<Rightarrow> 'a option) \<Rightarrow> num_lit json \<Rightarrow> 'a \<Rightarrow> 'a option" where
  "decode_struct fnames put JNull x = Some x"
| "decode_struct fnames put (JObj ms) x = decode_members fnames put ms x"
| "decode_struct fnames put _ x = None"

fun decode_string :: "num_lit json \<Rightarrow> string \<Rightarrow> string option" where
  "decode_string JNull old = Some old"
| "decode_string (JStr s) old = Some s"
| "decode_string _ old = None"

fun decode_strings :: "num_lit json \<Rightarrow> string list option" where
  "decode_strings JNull = Some []"
| "decode_strings (JArr xs) = those (map (\<lambda>v. decode_string v []) xs)"
| "decode_strings _ = None"

fun decode_string_members ::
  "(string \<times> num_lit json) list \<Rightarrow> string gomap \<Rightarrow> string gomap option" where
  "decode_string_members [] out = Some out"
| "decode_string_members ((k, v) # ms) out =
     (case decode_string v [] of
        None \<Rightarrow> None
      | Some t \<Rightarrow> decode_string_members ms (mset_key k t out))"

fun decode_string_map :: "num_lit json \<Rightarrow> string gomap \<Rightarrow> string gomap option" where
  "decode_string_map JNull old = Some []"
| "decode_string_map (JObj ms) old = decode_string_members ms old"
| "decode_string_map _ old = None"

text \<open>\<open>strconv.ParseInt\<close> of the literal: digits only, within 64 bits.\<close>

fun decode_int :: "num_lit json \<Rightarrow> int \<Rightarrow> int option" where
  "decode_int JNull old = Some old"
| "decode_int (JNum l) old =
     (let i = (if nl_neg l then - int (digits_val (nl_int l)) else int (digits_val (nl_int l)))
      in if nl_plain l \<and> - (2 ^ 63) \<le> i \<and> i < 2 ^ 63 then Some i else None)"
| "decode_int _ old = None"

lemma decode_string_members_wf:
  "decode_string_members ms out = Some res \<Longrightarrow> wf_map out \<Longrightarrow> wf_map res"
  by (induction ms out arbitrary: res rule: decode_string_members.induct)
    (auto split: option.splits)

lemma decode_string_map_wf: "decode_string_map v old = Some m \<Longrightarrow> wf_map old \<Longrightarrow> wf_map m"
  by (cases v) (auto dest: decode_string_members_wf)

end
