(* ===== verification/Http_Client.thy ===== *)
theory Http_Client
  imports Env Go_Json
begin

text \<open>
  \<open>internal/ferrvault/client.go\<close>: the HTTP client of the FerrVault API, its bounded retry loop
  and its error classification.  The loop runs on the world's state alone; \<open>send\<close> and
  \<open>classify\<close> are its two function arguments, and the variable \<open>out\<close> that the classifier
  assigns is threaded through it.
\<close>

section \<open>Retry policy\<close>

definition RequestTimeout :: duration where "RequestTimeout = 10 * second"

record retry_policy =
  rp_MaxAttempts :: int
  rp_Backoff :: "duration list"
  rp_Jitter :: rat

definition DefaultRetryPolicy :: retry_policy where
  "DefaultRetryPolicy =
     \<lparr>rp_MaxAttempts = 3,
      rp_Backoff = [100 * millisecond, 400 * millisecond, 1600 * millisecond],
      rp_Jitter = 1 / 4\<rparr>"

text \<open>The loop over \<open>retry = 0 .. MaxAttempts - 2\<close>, each delay at its largest.\<close>

definition longest_delay :: "platform \<Rightarrow> retry_policy \<Rightarrow> nat \<Rightarrow> duration" where
  "longest_delay pf p retry =
     (let idx = min retry (length (rp_Backoff p) - 1)
      in float_to_int64 pf (fl64 (fl64 (of_int (rp_Backoff p ! idx)) * fl64 (1 + rp_Jitter p))))"

definition LongestCall :: "platform \<Rightarrow> retry_policy \<Rightarrow> duration \<Rightarrow> duration" where
  "LongestCall pf p requestTimeout =
     (let total = wrap64 (rp_MaxAttempts p * requestTimeout)
      in if rp_Backoff p = [] then total
         else fold (\<lambda>retry total. wrap64 (total + longest_delay pf p retry))
                [0..<nat (rp_MaxAttempts p - 1)] total)"

section \<open>Client\<close>

record fv_client =
  c_baseURL :: url
  c_token :: string
  c_Timeout :: duration
  c_retry :: retry_policy

definition WithRetry :: "retry_policy \<Rightarrow> fv_client \<Rightarrow> fv_client" where
  "WithRetry p c = c\<lparr>c_retry := p\<rparr>"

definition New :: "platform \<Rightarrow> string \<Rightarrow> string \<Rightarrow> (fv_client \<Rightarrow> fv_client) list \<Rightarrow> goerror + fv_client" where
  "New pf baseURL token opts =
     (if token = [] then Inl (Errorf (Sprintf ''ferrvault: empty API token'' []))
      else
        (case url_Parse pf baseURL of
           None \<Rightarrow>
             (let err = Foreign ''parse: invalid URL''
              in Inl (Wrapf (Sprintf ''ferrvault: invalid base URL %q: %w'' [AStr baseURL, AErr err]) err))
         | Some u \<Rightarrow>
             if u_Scheme u \<noteq> ''http'' \<and> u_Scheme u \<noteq> ''https'' then
               Inl (Errorf (Sprintf ''ferrvault: base URL must use http(s), got %q'' [AStr baseURL]))
             else
               (let c = \<lparr>c_baseURL = u, c_token = token, c_Timeout = RequestTimeout,
                         c_retry = DefaultRetryPolicy\<rparr>
                in Inr (fold (\<lambda>opt c. opt c) opts c))))"

definition IsClusterIdentity :: "fv_client \<Rightarrow> bool" where
  "IsClusterIdentity c = HasPrefix (c_token c) ''ffclust_''"

section \<open>Errors\<close>

definition StatusOK :: int where "StatusOK = 200"
definition StatusBadRequest :: int where "StatusBadRequest = 400"
definition StatusUnauthorized :: int where "StatusUnauthorized = 401"
definition StatusForbidden :: int where "StatusForbidden = 403"
definition StatusNotFound :: int where "StatusNotFound = 404"
definition StatusTooManyRequests :: int where "StatusTooManyRequests = 429"

lemmas http_statuses = StatusOK_def StatusBadRequest_def StatusUnauthorized_def
  StatusForbidden_def StatusNotFound_def StatusTooManyRequests_def

definition IsAuthError :: "goerror option \<Rightarrow> bool" where
  "IsAuthError err = (case err of None \<Rightarrow> False | Some e \<Rightarrow> errors_As is_AuthError e \<noteq> None)"

definition IsNotFound :: "goerror option \<Rightarrow> bool" where
  "IsNotFound err = (case err of None \<Rightarrow> False | Some e \<Rightarrow> errors_As is_NotFoundError e \<noteq> None)"

fun api_status :: "goerror \<Rightarrow> int" where
  "api_status (APIError s _ _) = s"
| "api_status _ = 0"

definition IsRateLimited :: "goerror option \<Rightarrow> bool" where
  "IsRateLimited err =
     (case err of
        None \<Rightarrow> False
      | Some e \<Rightarrow>
          (case errors_As is_APIError e of
             None \<Rightarrow> False
           | Some a \<Rightarrow> api_status a = StatusTooManyRequests))"

definition isRetriable :: "goerror \<Rightarrow> bool" where
  "isRetriable err =
     (if errors_As is_TransportError err \<noteq> None then True
      else
        (case errors_As is_APIError err of
           Some ae \<Rightarrow> 500 \<le> api_status ae \<and> api_status ae \<le> 599
         | None \<Rightarrow> False))"

text \<open>
  The assignment \<open>te.Attempts = attempts\<close> through the pointer found by \<open>errors.As\<close>: the
  first transport error and the first API error of the chain.
\<close>

fun stamp_transport :: "int \<Rightarrow> goerror \<Rightarrow> goerror" where
  "stamp_transport n (TransportError e _) = TransportError e n"
| "stamp_transport n (Wrapf m e) = Wrapf m (stamp_transport n e)"
| "stamp_transport n e = e"

fun stamp_api :: "int \<Rightarrow> goerror \<Rightarrow> goerror" where
  "stamp_api n (APIError s m _) = APIError s m n"
| "stamp_api n (TransportError e k) = TransportError (stamp_api n e) k"
| "stamp_api n (Wrapf m e) = Wrapf m (stamp_api n e)"
| "stamp_api n e = e"

definition annotateAttempts :: "int \<Rightarrow> goerror option \<Rightarrow> goerror option" where
  "annotateAttempts attempts err = map_option (stamp_api attempts \<circ> stamp_transport attempts) err"

definition errorMessage :: "string \<Rightarrow> string \<Rightarrow> string" where
  "errorMessage body fallback =
     (case Option.bind (parse_json body)
             (\<lambda>j. decode_struct [''error''] (\<lambda>_ v old. decode_string v old) j []) of
        Some e \<Rightarrow> if e \<noteq> [] then e else fallback
      | None \<Rightarrow> fallback)"

section \<open>The retry loop\<close>

definition backoff_delay :: "'w env \<Rightarrow> retry_policy \<Rightarrow> int \<Rightarrow> ('w, duration) state" where
  "backoff_delay E p attempt =
     (if rp_Backoff p = [] then ret 0
      else
        (let idx0 = attempt - 1;
             len = int (length (rp_Backoff p));
             idx = (if idx0 \<ge> len then len - 1 else idx0);
             base = rp_Backoff p ! nat idx
         in if rp_Jitter p \<le> 0 then ret base
            else
              State_Monad.bind (e_Float64 E) (\<lambda>f.
                let j = rp_Jitter p;
                    mult = fl64 (fl64 (1 - j) + fl64 (fl64 (2 * j) * f))
                in ret (float_to_int64 (e_pf E) (fl64 (fl64 (of_int base) * mult))))))"

text \<open>The error and the \<open>out\<close> of one attempt, from what \<open>send\<close> and \<open>io.ReadAll\<close> returned.\<close>

definition attempt_result ::
  "(http_response \<Rightarrow> string \<Rightarrow> 'o \<Rightarrow> goerror option \<times> 'o) \<Rightarrow> goerror + http_response \<Rightarrow> 'o \<Rightarrow>
   goerror option \<times> 'o" where
  "attempt_result classify sent out =
     (case sent of
        Inl sendErr \<Rightarrow> (Some (TransportError sendErr 0), out)
      | Inr resp \<Rightarrow>
          (case rs_Body resp of
             Inl readErr \<Rightarrow> (Some (TransportError readErr 0), out)
           | Inr body \<Rightarrow> classify resp body out))"

text \<open>
  The wait before the next attempt, with \<open>retry\<close> the rest of the loop: a delay that is not
  positive is skipped, and a context done during the wait ends the loop.
\<close>

definition pause_then ::
  "'w env \<Rightarrow> retry_policy \<Rightarrow> ctx \<Rightarrow> int \<Rightarrow> 'o \<Rightarrow> ('w, int \<times> goerror option \<times> 'o) state \<Rightarrow>
   ('w, int \<times> goerror option \<times> 'o) state" where
  "pause_then E p ctx attempt out retry =
     State_Monad.bind (backoff_delay E p attempt) (\<lambda>delay.
       if delay \<le> 0 then retry
       else
         State_Monad.bind (e_ctx_wait E ctx delay) (\<lambda>woken.
           case woken of Some err \<Rightarrow> ret (attempt, Some err, out) | None \<Rightarrow> retry))"

text \<open>
  One iteration per remaining attempt \<open>n\<close>; the loop ends by a return in its body, or after
  the last attempt with the annotated last error.
\<close>

fun retry_loop ::
  "'w env \<Rightarrow> retry_policy \<Rightarrow> ctx \<Rightarrow> ('w, goerror + http_response) state \<Rightarrow>
   (http_response \<Rightarrow> string \<Rightarrow> 'o \<Rightarrow> goerror option \<times> 'o) \<Rightarrow> int \<Rightarrow> nat \<Rightarrow> int \<Rightarrow>
   goerror option \<Rightarrow> 'o \<Rightarrow> ('w, int \<times> goerror option \<times> 'o) state" where
  "retry_loop E p ctx send classify maxAttempts 0 attempt lastErr out =
     ret (maxAttempts, annotateAttempts maxAttempts lastErr, out)"
| "retry_loop E p ctx send classify maxAttempts (Suc n) attempt lastErr out =
     State_Monad.bind (e_ctx_Err E ctx) (\<lambda>stopped.
     case stopped of
       Some err \<Rightarrow> ret (attempt, Some err, out)
     | None \<Rightarrow>
     State_Monad.bind send (\<lambda>sent.
     let (attemptErr, out') = attempt_result classify sent out
     in case attemptErr of
          None \<Rightarrow> ret (attempt, None, out')
        | Some e \<Rightarrow>
            if \<not> isRetriable e \<or> attempt = maxAttempts then
              ret (attempt, annotateAttempts attempt (Some e), out')
            else
              pause_then E p ctx attempt out'
                (retry_loop E p ctx send classify maxAttempts n (attempt + 1) (Some e) out')))"

definition doWithRetry ::
  "'w env \<Rightarrow> fv_client \<Rightarrow> ctx \<Rightarrow> ('w, goerror + http_response) state \<Rightarrow>
   (http_response \<Rightarrow> string \<Rightarrow> 'o \<Rightarrow> goerror option \<times> 'o) \<Rightarrow> 'o \<Rightarrow>
   ('w, int \<times> goerror option \<times> 'o) state" where
  "doWithRetry E c ctx send classify out =
     (let m = rp_MaxAttempts (c_retry c); maxAttempts = (if m < 1 then 1 else m)
      in retry_loop E (c_retry c) ctx send classify maxAttempts (nat maxAttempts) 1 None out)"

section \<open>Requests\<close>

text \<open>\<open>http.StatusText\<close>.\<close>

definition status_texts :: "(int \<times> string) list" where
  "status_texts =
     [(100, ''Continue''), (101, ''Switching Protocols''), (102, ''Processing''),
      (103, ''Early Hints''), (200, ''OK''), (201, ''Created''), (202, ''Accepted''),
      (203, ''Non-Authoritative Information''), (204, ''No Content''), (205, ''Reset Content''),
      (206, ''Partial Content''), (207, ''Multi-Status''), (208, ''Already Reported''),
      (226, ''IM Used''), (300, ''Multiple Choices''), (301, ''Moved Permanently''),
      (302, ''Found''), (303, ''See Other''), (304, ''Not Modified''), (305, ''Use Proxy''),
      (307, ''Temporary Redirect''), (308, ''Permanent Redirect''), (400, ''Bad Request''),
      (401, ''Unauthorized''), (402, ''Payment Required''), (403, ''Forbidden''),
      (404, ''Not Found''), (405, ''Method Not Allowed''), (406, ''Not Acceptable''),
      (407, ''Proxy Authentication Required''), (408, ''Request Timeout''), (409, ''Conflict''),
      (410, ''Gone''), (411, ''Length Required''), (412, ''Precondition Failed''),
      (413, ''Request Entity Too Large''), (414, ''Request URI Too Long''),
      (415, ''Unsupported Media Type''), (416, ''Requested Range Not Satisfiable''),
      (417, ''Expectation Failed''), (418, ''I'' @ [CHR 0x27] @ ''m a teapot''),
      (421, ''Misdirected Request''), (422, ''Unprocessable Entity''), (423, ''Locked''),
      (424, ''Failed Dependency''), (425, ''Too Early''), (426, ''Upgrade Required''),
      (428, ''Precondition Required''), (429, ''Too Many Requests''),
      (431, ''Request Header Fields Too Large''), (451, ''Unavailable For Legal Reasons''),
      (500, ''Internal Server Error''), (501, ''Not Implemented''), (502, ''Bad Gateway''),
      (503, ''Service Unavailable''), (504, ''Gateway Timeout''),
      (505, ''HTTP Version Not Supported''), (506, ''Variant Also Negotiates''),
      (507, ''Insufficient Storage''), (508, ''Loop Detected''), (510, ''Not Extended''),
      (511, ''Network Authentication Required'')]"

definition StatusText :: "int \<Rightarrow> string" where
  "StatusText code = (case map_of status_texts code of None \<Rightarrow> [] | Some t \<Rightarrow> t)"

text \<open>
  \<open>http.NewRequestWithContext\<close> parses the URL text it is given; the headers the code sets
  are added in order.
\<close>

definition build_request ::
  "platform \<Rightarrow> string \<Rightarrow> string \<Rightarrow> string \<Rightarrow> string option \<Rightarrow> (string \<times> string) list \<Rightarrow>
   goerror + http_request" where
  "build_request pf what verb target body headers =
     (case url_Parse pf target of
        None \<Rightarrow>
          (let err = Foreign ''parse: invalid URL'' in Inl (Wrapf (Sprintf what [AErr err]) err))
      | Some u \<Rightarrow> Inr \<lparr>rq_Method = verb, rq_URL = u, rq_Header = headers, rq_Body = body\<rparr>)"

definition send_request ::
  "'w env \<Rightarrow> fv_client \<Rightarrow> ctx \<Rightarrow> goerror + http_request \<Rightarrow> ('w, goerror + http_response) state" where
  "send_request E c ctx built =
     (case built of
        Inl err \<Rightarrow> ret (Inl err)
      | Inr req \<Rightarrow> e_http_Do E (c_Timeout c) ctx req)"

text \<open>\<open>u := *c.baseURL; u.Path = strings.TrimRight(u.Path, "/") + path\<close>.\<close>

definition endpoint :: "fv_client \<Rightarrow> string \<Rightarrow> url" where
  "endpoint c path = (c_baseURL c)\<lparr>u_Path := TrimRight_slash (u_Path (c_baseURL c)) @ path\<rparr>"

section \<open>Probe\<close>

definition classify_probe :: "http_response \<Rightarrow> string \<Rightarrow> unit \<Rightarrow> goerror option \<times> unit" where
  "classify_probe resp body out =
     (if rs_StatusCode resp = StatusOK then (None, out)
      else (Some (APIError (rs_StatusCode resp)
              (''health check returned '' @ StatusText (rs_StatusCode resp)) 0), out))"

definition Probe :: "'w env \<Rightarrow> fv_client \<Rightarrow> ctx \<Rightarrow> ('w, goerror option) state" where
  "Probe E c ctx =
     (let u = endpoint c ''/healthz'';
          send = send_request E c ctx
            (build_request (e_pf E) ''ferrvault: build probe request: %w'' ''GET'' (url_String u) None
              [(''Accept'', ''application/json'')])
      in State_Monad.bind (doWithRetry E c ctx send classify_probe ()) (\<lambda>(_, err, _). ret err))"

section \<open>OIDCExchange\<close>

record oidc_response =
  ox_AccessToken :: string
  ox_ExpiresAt :: instant
  ox_TokenType :: string

definition oidc_empty :: oidc_response where
  "oidc_empty = \<lparr>ox_AccessToken = [], ox_ExpiresAt = zero_time, ox_TokenType = []\<rparr>"

text \<open>\<open>time.Time\<close>'s \<open>UnmarshalJSON\<close>: \<open>null\<close> is ignored, otherwise a quoted RFC 3339 text.\<close>

fun decode_time :: "num_lit json \<Rightarrow> instant \<Rightarrow> instant option" where
  "decode_time JNull old = Some old"
| "decode_time (JStr s) old = ParseRFC3339 s"
| "decode_time _ old = None"

definition put_oidc :: "string \<Rightarrow> num_lit json \<Rightarrow> oidc_response \<Rightarrow> oidc_response option" where
  "put_oidc f v r =
     (if f = ''access_token'' then
        map_option (\<lambda>s. r\<lparr>ox_AccessToken := s\<rparr>) (decode_string v (ox_AccessToken r))
      else if f = ''expires_at'' then
        map_option (\<lambda>t. r\<lparr>ox_ExpiresAt := t\<rparr>) (decode_time v (ox_ExpiresAt r))
      else map_option (\<lambda>s. r\<lparr>ox_TokenType := s\<rparr>) (decode_string v (ox_TokenType r)))"

definition decode_oidc :: "string \<Rightarrow> oidc_response option" where
  "decode_oidc body =
     Option.bind (parse_json body)
       (\<lambda>j. decode_struct [''access_token'', ''expires_at'', ''token_type''] put_oidc j oidc_empty)"

definition decode_error :: "string \<Rightarrow> goerror" where
  "decode_error fmt =
     (let err = Foreign ''json: cannot unmarshal'' in Wrapf (Sprintf fmt [AErr err]) err)"

definition classify_oidc ::
  "http_response \<Rightarrow> string \<Rightarrow> oidc_response \<Rightarrow> goerror option \<times> oidc_response" where
  "classify_oidc resp body out =
     (let code = rs_StatusCode resp
      in if code = StatusOK then
           (case decode_oidc body of
              None \<Rightarrow> (Some (decode_error ''ferrvault: decode oidc response: %w''), out)
            | Some r \<Rightarrow> (None, r))
         else if code = StatusUnauthorized then
           (Some (AuthError AuthUnauthorized (errorMessage body ''unauthorized'')), out)
         else if code = StatusBadRequest then
           (Some (APIError code (errorMessage body ''bad request'') 0), out)
         else (Some (APIError code (errorMessage body (StatusText code)) 0), out))"

definition oidc_payload :: "string \<Rightarrow> string \<Rightarrow> string" where
  "oidc_payload clusterID saToken =
     ''{'' @ Marshal_string ''cluster_id'' @ '':'' @ Marshal_string clusterID @ '','' @
     Marshal_string ''token'' @ '':'' @ Marshal_string saToken @ ''}''"

definition OIDCExchange ::
  "'w env \<Rightarrow> fv_client \<Rightarrow> ctx \<Rightarrow> string \<Rightarrow> string \<Rightarrow> ('w, goerror + string \<times> instant) state" where
  "OIDCExchange E c ctx clusterID saToken =
     (let u = endpoint c ''/api/v1/clusters/oidc-exchange'';
          payload = oidc_payload clusterID saToken;
          send = send_request E c ctx
            (build_request (e_pf E) ''ferrvault: build request: %w'' ''POST'' (url_String u) (Some payload)
              [(''Content-Type'', ''application/json''), (''Accept'', ''application/json'')])
      in State_Monad.bind (doWithRetry E c ctx send classify_oidc oidc_empty) (\<lambda>(_, err, out).
           case err of
             Some e \<Rightarrow> ret (Inl e)
           | None \<Rightarrow> ret (Inr (ox_AccessToken out, ox_ExpiresAt out))))"

section \<open>The two reveal endpoints\<close>

record vault_summary =
  vs_ID :: string
  vs_Name :: string
  vs_Environment :: string

record reveal_response =
  rv_Secrets :: "string gomap"
  rv_Missing :: "string list"
  rv_Vault :: vault_summary

definition no_vault :: vault_summary where
  "no_vault = \<lparr>vs_ID = [], vs_Name = [], vs_Environment = []\<rparr>"

definition no_reveal :: reveal_response where
  "no_reveal = \<lparr>rv_Secrets = [], rv_Missing = [], rv_Vault = no_vault\<rparr>"

definition put_vault :: "string \<Rightarrow> num_lit json \<Rightarrow> vault_summary \<Rightarrow> vault_summary option" where
  "put_vault f v r =
     (if f = ''id'' then map_option (\<lambda>s. r\<lparr>vs_ID := s\<rparr>) (decode_string v (vs_ID r))
      else if f = ''name'' then map_option (\<lambda>s. r\<lparr>vs_Name := s\<rparr>) (decode_string v (vs_Name r))
      else map_option (\<lambda>s. r\<lparr>vs_Environment := s\<rparr>) (decode_string v (vs_Environment r)))"

definition put_reveal :: "string \<Rightarrow> num_lit json \<Rightarrow> reveal_response \<Rightarrow> reveal_response option" where
  "put_reveal f v r =
     (if f = ''secrets'' then
        map_option (\<lambda>m. r\<lparr>rv_Secrets := m\<rparr>) (decode_string_map v (rv_Secrets r))
      else if f = ''missing'' then map_option (\<lambda>xs. r\<lparr>rv_Missing := xs\<rparr>) (decode_strings v)
      else map_option (\<lambda>x. r\<lparr>rv_Vault := x\<rparr>)
             (decode_struct [''id'', ''name'', ''environment''] put_vault v (rv_Vault r)))"

definition decode_reveal :: "string \<Rightarrow> reveal_response option" where
  "decode_reveal body =
     Option.bind (parse_json body)
       (\<lambda>j. decode_struct [''secrets'', ''missing'', ''vault''] put_reveal j no_reveal)"

text \<open>The status switch the two reveal calls share, around the decoder of a 200 body.\<close>

definition classify_reveal ::
  "(string \<Rightarrow> 'o option) \<Rightarrow> http_response \<Rightarrow> string \<Rightarrow> 'o \<Rightarrow> goerror option \<times> 'o" where
  "classify_reveal decode resp body out =
     (let code = rs_StatusCode resp
      in if code = StatusOK then
           (case decode body of
              None \<Rightarrow> (Some (decode_error ''ferrvault: decode response: %w''), out)
            | Some r \<Rightarrow> (None, r))
         else if code = StatusUnauthorized then
           (Some (AuthError AuthUnauthorized (errorMessage body ''unauthorized'')), out)
         else if code = StatusForbidden then
           (Some (AuthError AuthForbidden (errorMessage body ''forbidden'')), out)
         else if code = StatusNotFound then
           (Some (NotFoundError (errorMessage body ''not found'')), out)
         else (Some (APIError code (errorMessage body (StatusText code)) 0), out))"

definition reveal_path :: "string \<Rightarrow> string \<Rightarrow> string \<Rightarrow> string" where
  "reveal_path org project vaultName =
     ''/api/v1/orgs/'' @ PathEscape org @ ''/projects/'' @ PathEscape project @
     ''/vaults/by-name/'' @ PathEscape vaultName @ ''/secrets/reveal''"

definition reveal_url :: "fv_client \<Rightarrow> string \<Rightarrow> string \<Rightarrow> string \<Rightarrow> string list \<Rightarrow> url" where
  "reveal_url c org project vaultName names =
     (let u = endpoint c (reveal_path org project vaultName)
      in if names \<noteq> [] then
           u\<lparr>u_RawQuery := query_Encode (query_Set ''names'' (Join names '','') (url_Query u))\<rparr>
         else u)"

definition BulkReveal ::
  "'w env \<Rightarrow> fv_client \<Rightarrow> ctx \<Rightarrow> string \<Rightarrow> string \<Rightarrow> string \<Rightarrow> string \<Rightarrow> string list \<Rightarrow>
   ('w, goerror + reveal_response) state" where
  "BulkReveal E c ctx org project vaultName namespace names =
     (let u = reveal_url c org project vaultName names;
          headers = [(''Authorization'', ''Bearer '' @ c_token c), (''Accept'', ''application/json'')] @
            (if namespace \<noteq> [] then [(''X-FerrVault-Namespace'', namespace)] else []);
          send = send_request E c ctx
            (build_request (e_pf E) ''ferrvault: build request: %w'' ''GET'' (url_String u) None headers)
      in State_Monad.bind (doWithRetry E c ctx send (classify_reveal decode_reveal) no_reveal)
           (\<lambda>(_, err, out).
             case err of Some e \<Rightarrow> ret (Inl e) | None \<Rightarrow> ret (Inr out)))"

record vault_hit =
  vh_Name :: string
  vh_Value :: string
  vh_Version :: int
  vh_FetchedAt :: string

record vault_reveal_response =
  vr_Hits :: "vault_hit list"
  vr_Missing :: "string list"

definition no_hit :: vault_hit where
  "no_hit = \<lparr>vh_Name = [], vh_Value = [], vh_Version = 0, vh_FetchedAt = []\<rparr>"

definition put_hit :: "string \<Rightarrow> num_lit json \<Rightarrow> vault_hit \<Rightarrow> vault_hit option" where
  "put_hit f v r =
     (if f = ''name'' then map_option (\<lambda>s. r\<lparr>vh_Name := s\<rparr>) (decode_string v (vh_Name r))
      else if f = ''value'' then map_option (\<lambda>s. r\<lparr>vh_Value := s\<rparr>) (decode_string v (vh_Value r))
      else if f = ''version'' then map_option (\<lambda>i. r\<lparr>vh_Version := i\<rparr>) (decode_int v (vh_Version r))
      else map_option (\<lambda>s. r\<lparr>vh_FetchedAt := s\<rparr>) (decode_string v (vh_FetchedAt r)))"

fun decode_hits :: "num_lit json \<Rightarrow> vault_hit list option" where
  "decode_hits JNull = Some []"
| "decode_hits (JArr xs) =
     those (map (\<lambda>v. decode_struct [''name'', ''value'', ''version'', ''fetched_at''] put_hit v no_hit) xs)"
| "decode_hits _ = None"

definition put_vault_reveal ::
  "string \<Rightarrow> num_lit json \<Rightarrow> vault_reveal_response \<Rightarrow> vault_reveal_response option" where
  "put_vault_reveal f v r =
     (if f = ''hits'' then map_option (\<lambda>hs. r\<lparr>vr_Hits := hs\<rparr>) (decode_hits v)
      else map_option (\<lambda>xs. r\<lparr>vr_Missing := xs\<rparr>) (decode_strings v))"

definition no_vault_reveal :: vault_reveal_response where
  "no_vault_reveal = \<lparr>vr_Hits = [], vr_Missing = []\<rparr>"

definition decode_vault_reveal :: "string \<Rightarrow> vault_reveal_response option" where
  "decode_vault_reveal body =
     Option.bind (parse_json body)
       (\<lambda>j. decode_struct [''hits'', ''missing''] put_vault_reveal j no_vault_reveal)"

text \<open>\<open>json.Marshal(vaultRevealRequest{...})\<close>: an empty list of names is left out.\<close>

definition vault_payload :: "string \<Rightarrow> string list \<Rightarrow> string" where
  "vault_payload vault names =
     ''{'' @ Marshal_string ''vault'' @ '':'' @ Marshal_string vault @
     (if names = [] then []
      else '','' @ Marshal_string ''names'' @ '':['' @ Join (map Marshal_string names) '','' @ '']'') @ ''}''"

definition collect_hits :: "vault_hit list \<Rightarrow> string gomap" where
  "collect_hits hits = fold (\<lambda>h m. mset_key (vh_Name h) (vh_Value h) m) hits []"

definition RevealFromVault ::
  "'w env \<Rightarrow> fv_client \<Rightarrow> ctx \<Rightarrow> string \<Rightarrow> string list \<Rightarrow> ('w, goerror + reveal_response) state" where
  "RevealFromVault E c ctx vault names =
     (let u = endpoint c ''/operator/secrets/reveal'';
          bodyBytes = vault_payload vault names;
          headers = [(''Authorization'', ''Bearer '' @ c_token c), (''Accept'', ''application/json''),
            (''Content-Type'', ''application/json'')];
          send = send_request E c ctx
            (build_request (e_pf E) ''ferrvault: build request: %w'' ''POST'' (url_String u)
              (Some bodyBytes) headers)
      in State_Monad.bind (doWithRetry E c ctx send (classify_reveal decode_vault_reveal) no_vault_reveal)
           (\<lambda>(_, err, raw).
             case err of
               Some e \<Rightarrow> ret (Inl e)
             | None \<Rightarrow>
                 ret (Inr \<lparr>rv_Secrets = collect_hits (vr_Hits raw), rv_Missing = vr_Missing raw,
                           rv_Vault = no_vault\<lparr>vs_Name := vault\<rparr>\<rparr>)))"

end
