(* ===== verification/Token_Broker.thy ===== *)
theory Token_Broker
  imports Http_Client
begin

text \<open>
  \<open>internal/controller/token_broker.go\<close>: where the bearer for a connection comes from.  The
  cache is \<open>p_cache\<close>, nil until it is made; the reader of the projected token and the
  exchanger are the fields of \<open>broker\<close>, as in the code, and \<open>NewTokenBroker\<close> wires the real
  ones. Each locked operation is one step.
\<close>

definition oidcRefreshLeeway :: duration where "oidcRefreshLeeway = 60 * second"

type_synonym 'w tokenReader = "string \<Rightarrow> ('w, goerror + string) state"
type_synonym 'w oidcExchanger =
  "ctx \<Rightarrow> string \<Rightarrow> string \<Rightarrow> string \<Rightarrow> ('w, goerror + string \<times> instant) state"

record 'w broker =
  br_ReadToken :: "'w tokenReader"
  br_Exchange :: "'w oidcExchanger"

definition readFileString :: "'w env \<Rightarrow> 'w tokenReader" where
  "readFileString E path =
     State_Monad.bind (e_ReadFile E path) (\<lambda>r.
       case r of Inl err \<Rightarrow> ret (Inl err) | Inr b \<Rightarrow> ret (Inr b))"

definition realExchange :: "'w env \<Rightarrow> 'w oidcExchanger" where
  "realExchange E ctx baseURL clusterID saToken =
     (case New (e_pf E) baseURL ''anonymous'' [] of
        Inl err \<Rightarrow> ret (Inl err)
      | Inr c \<Rightarrow> OIDCExchange E c ctx clusterID saToken)"

definition NewTokenBroker :: "'w env \<Rightarrow> 'w broker" where
  "NewTokenBroker E = \<lparr>br_ReadToken = readFileString E, br_Exchange = realExchange E\<rparr>"

section \<open>The cache\<close>

definition cache_key :: "connection \<Rightarrow> nname" where
  "cache_key conn = (cn_Namespace conn, cn_Name conn)"

definition cacheGet :: "'w env \<Rightarrow> connection \<Rightarrow> ('w proc, string option) state" where
  "cacheGet E conn =
     State_Monad.bind (gets p_cache) (\<lambda>cache.
     case cache of
       None \<Rightarrow> State_Monad.bind (modify (\<lambda>p. p\<lparr>p_cache := Some (\<lambda>_. None)\<rparr>)) (\<lambda>_. ret None)
     | Some m \<Rightarrow>
         (case m (cache_key conn) of
            None \<Rightarrow> ret None
          | Some entry \<Rightarrow>
              State_Monad.bind (in_world (e_now E)) (\<lambda>now.
              if time_Sub (cb_expiresAt entry) now \<le> oidcRefreshLeeway then
                State_Monad.bind (modify (\<lambda>p. p\<lparr>p_cache := Some (m(cache_key conn := None))\<rparr>))
                  (\<lambda>_. ret None)
              else ret (Some (cb_token entry)))))"

definition cachePut :: "connection \<Rightarrow> string \<Rightarrow> instant \<Rightarrow> ('w proc, unit) state" where
  "cachePut conn token expiresAt =
     modify (\<lambda>p. p\<lparr>p_cache :=
       Some ((case p_cache p of None \<Rightarrow> (\<lambda>_. None) | Some m \<Rightarrow> m)
         (cache_key conn \<mapsto> \<lparr>cb_token = token, cb_expiresAt = expiresAt\<rparr>))\<rparr>)"

definition Invalidate :: "string \<Rightarrow> string \<Rightarrow> ('w proc, unit) state" where
  "Invalidate namespace name =
     modify (\<lambda>p. p\<lparr>p_cache := map_option (\<lambda>m. m((namespace, name) := None)) (p_cache p)\<rparr>)"

section \<open>Resolving a bearer\<close>

definition nname_arg :: "nname \<Rightarrow> goarg" where
  "nname_arg k = AStr (fst k @ ''/'' @ snd k)"

definition loadFromSecret ::
  "'w env \<Rightarrow> ctx \<Rightarrow> connection \<Rightarrow> secret_key_ref \<Rightarrow> ('w proc, goerror + string) state" where
  "loadFromSecret E ctx conn ref =
     (let key = (cn_Namespace conn, skr_Name ref)
      in State_Monad.bind (in_world (e_get_secret E ctx key)) (\<lambda>got.
         case got of
           Inl err \<Rightarrow>
             ret (Inl (Wrapf (Sprintf ''load token Secret %s: %w'' [nname_arg key, AErr err]) err))
         | Inr tokenSecret \<Rightarrow>
             (case map_of (sec_Data tokenSecret) (skr_Key ref) of
                None \<Rightarrow>
                  ret (Inl (Errorf (Sprintf ''key %q missing from token Secret %s''
                    [AStr (skr_Key ref), nname_arg key])))
              | Some raw \<Rightarrow>
                  (let token = TrimSpace raw
                   in if token = [] then
                        ret (Inl (Errorf (Sprintf ''token Secret %s has empty value at key %q''
                          [nname_arg key, AStr (skr_Key ref)])))
                      else ret (Inr token)))))"

definition loadFromOIDC ::
  "'w env \<Rightarrow> 'w broker \<Rightarrow> ctx \<Rightarrow> connection \<Rightarrow> oidc_auth \<Rightarrow> ('w proc, goerror + string) state" where
  "loadFromOIDC E b ctx conn auth =
     State_Monad.bind (cacheGet E conn) (\<lambda>cached.
     case cached of
       Some token \<Rightarrow> ret (Inr token)
     | None \<Rightarrow>
         (let path = (if oa_TokenPath auth = [] then DefaultTokenPath else oa_TokenPath auth)
          in State_Monad.bind (in_world (br_ReadToken b path)) (\<lambda>rd.
             case rd of
               Inl err \<Rightarrow>
                 ret (Inl (Wrapf (Sprintf ''read projected SA token at %s: %w'' [AStr path, AErr err]) err))
             | Inr raw \<Rightarrow>
                 (let saToken = TrimSpace raw
                  in if saToken = [] then
                       ret (Inl (Errorf (Sprintf ''projected SA token at %s is empty'' [AStr path])))
                     else
                       State_Monad.bind
                         (in_world (br_Exchange b ctx (cs_URL (cn_Spec conn)) (oa_ClusterID auth) saToken))
                         (\<lambda>ex.
                          case ex of
                            Inl err \<Rightarrow>
                              ret (Inl (Wrapf (Sprintf ''OIDC exchange failed: %w'' [AErr err]) err))
                          | Inr (bearer, expiresAt) \<Rightarrow>
                              State_Monad.bind (cachePut conn bearer expiresAt) (\<lambda>_.
                                ret (Inr bearer)))))))"

definition TokenFor ::
  "'w env \<Rightarrow> 'w broker \<Rightarrow> ctx \<Rightarrow> connection \<Rightarrow> ('w proc, goerror + string) state" where
  "TokenFor E b ctx conn =
     (case (cs_TokenSecretRef (cn_Spec conn), cs_OIDC (cn_Spec conn)) of
        (None, None) \<Rightarrow>
          ret (Inl (Errorf (Sprintf ''FerrVaultConnection %s/%s: set either tokenSecretRef or oidc''
            [AStr (cn_Namespace conn), AStr (cn_Name conn)])))
      | (Some _, Some _) \<Rightarrow>
          ret (Inl (Errorf (Sprintf ''FerrVaultConnection %s/%s: set only one of tokenSecretRef or oidc, not both''
            [AStr (cn_Namespace conn), AStr (cn_Name conn)])))
      | (Some ref, None) \<Rightarrow> loadFromSecret E ctx conn ref
      | (None, Some auth) \<Rightarrow> loadFromOIDC E b ctx conn auth)"

text \<open>
  A reconciler without a broker makes one for the call: its cache starts empty and is lost.
\<close>

definition with_broker ::
  "'w broker option \<Rightarrow> 'w env \<Rightarrow> ('w broker \<Rightarrow> ('w proc, 'a) state) \<Rightarrow> ('w proc, 'a) state" where
  "with_broker b E m =
     (case b of
        Some br \<Rightarrow> m br
      | None \<Rightarrow>
          State_Monad.bind (gets p_cache) (\<lambda>shared.
          State_Monad.bind (modify (\<lambda>p. p\<lparr>p_cache := Some (\<lambda>_. None)\<rparr>)) (\<lambda>_.
          State_Monad.bind (m (NewTokenBroker E)) (\<lambda>x.
          State_Monad.bind (modify (\<lambda>p. p\<lparr>p_cache := shared\<rparr>)) (\<lambda>_. ret x)))))"

section \<open>What resolving keeps\<close>

lemma keeps_cacheGet: "keeps obs (e_now E) \<Longrightarrow> keeps (\<lambda>p. obs (p_world p)) (cacheGet E conn)"
  unfolding cacheGet_def
  by (intro keeps_bind keeps_gets keeps_case_option keeps_return keeps_modify keeps_in_world keeps_if) simp_all

definition broker_keeps :: "('w \<Rightarrow> 'o) \<Rightarrow> 'w broker \<Rightarrow> bool" where
  "broker_keeps obs b \<longleftrightarrow> (\<forall>p. keeps obs (br_ReadToken b p)) \<and> (\<forall>c u i t. keeps obs (br_Exchange b c u i t))"

lemma keeps_TokenFor:
  assumes "reads_keep obs E" "broker_keeps obs b"
  shows "keeps (\<lambda>p. obs (p_world p)) (TokenFor E b ctx conn)"
proof -
  have b: "keeps obs (br_ReadToken b p)" "keeps obs (br_Exchange b c u i t)" for p c u i t
    using assms(2) by (simp_all add: broker_keeps_def)
  have "keeps (\<lambda>p. obs (p_world p)) (loadFromSecret E ctx conn ref)" for ref
    unfolding loadFromSecret_def Let_def
    by (intro keeps_intros) (rule reads_keepD [OF assms(1)])
  moreover have "keeps (\<lambda>p. obs (p_world p)) (loadFromOIDC E b ctx conn auth)" for auth
    unfolding loadFromOIDC_def Let_def cachePut_def
    by (intro keeps_intros keeps_cacheGet b reads_keepD(1) [OF assms(1)]) simp
  ultimately show ?thesis
    unfolding TokenFor_def by (auto split: option.splits intro: keeps_return)
qed

section \<open>The contract of the cache\<close>

text \<open>
  What the resolver relies on: an entry is what was last put under its key, reading hands out
  only an entry's own token and only while more than the leeway remains, and a read that hands
  out nothing leaves no entry behind.
\<close>

locale bearer_cache =
  fixes entry :: "'s \<Rightarrow> 'k \<Rightarrow> cached_bearer option"
    and lookup_bearer :: "'k \<Rightarrow> ('s, string option) state"
    and store :: "'k \<Rightarrow> string \<Rightarrow> instant \<Rightarrow> ('s, unit) state"
    and clock :: "'s \<Rightarrow> instant"
  assumes store_entry: "wp (store k t x) (\<lambda>_ s'. entry s' k = Some \<lparr>cb_token = t, cb_expiresAt = x\<rparr>) s"
    and store_other: "j \<noteq> k \<Longrightarrow> wp (store k t x) (\<lambda>_ s'. entry s' j = entry s j) s"
    and lookup_fresh: "wp (lookup_bearer k) (\<lambda>r s'. \<forall>t. r = Some t \<longrightarrow>
      (\<exists>e. entry s k = Some e \<and> cb_token e = t \<and> time_Sub (cb_expiresAt e) (clock s) > oidcRefreshLeeway \<and>
         entry s' k = Some e)) s"
    and lookup_none: "wp (lookup_bearer k) (\<lambda>r s'. r = None \<longrightarrow> entry s' k = None) s"
    and lookup_other: "j \<noteq> k \<Longrightarrow> wp (lookup_bearer k) (\<lambda>_ s'. entry s' j = entry s j) s"
begin

lemma stored_token_only:
  "wp (State_Monad.bind (store k t x) (\<lambda>_. lookup_bearer k)) (\<lambda>r _. r = None \<or> r = Some t) s"
  unfolding wp_bind
proof (rule wp_mono [OF store_entry])
  fix u s' assume e: "entry s' k = Some \<lparr>cb_token = t, cb_expiresAt = x\<rparr>"
  show "wp (lookup_bearer k) (\<lambda>r _. r = None \<or> r = Some t) s'"
    by (rule wp_mono [OF lookup_fresh]) (use e in \<open>auto simp: not_None_eq [symmetric] simp del: not_None_eq split: option.splits intro: classical\<close>)
qed

end

definition cache_entry :: "'w proc \<Rightarrow> nname \<Rightarrow> cached_bearer option" where
  "cache_entry p k = (case p_cache p of None \<Rightarrow> None | Some m \<Rightarrow> m k)"

definition conn_for :: "nname \<Rightarrow> connection" where
  "conn_for k =
     \<lparr>cn_meta = \<lparr>om_name = snd k, om_namespace = fst k, om_uid = [], om_resourceVersion = [],
        om_generation = 0, om_deletionTimestamp = None, om_finalizers = [], om_annotations = None,
        om_ownerReferences = []\<rparr>,
      cn_Spec = \<lparr>cs_Mode = [], cs_URL = [], cs_Organization = [], cs_TokenSecretRef = None, cs_OIDC = None\<rparr>,
      cn_Status = \<lparr>cst_Conditions = [], cst_LastCheckedAt = None\<rparr>\<rparr>"

lemma cache_key_conn_for [simp]: "cache_key (conn_for k) = k"
  by (simp add: cache_key_def conn_for_def)

lemma cacheGet_key: "cache_key c = cache_key d \<Longrightarrow> cacheGet E c = cacheGet E d"
  unfolding cacheGet_def by (simp only:)

interpretation cache: bearer_cache cache_entry "\<lambda>k. cacheGet E (conn_for k)" "\<lambda>k. cachePut (conn_for k)"
    "\<lambda>p. fst (run_state (e_now E) (p_world p))" for E :: "'w env"
  by unfold_locales
    (auto simp: cacheGet_def cachePut_def cache_entry_def wp_simps wp_def [of "e_now E"] split: option.splits prod.splits)

lemma cacheGet_fresh:
  assumes "cache_entry p (cache_key conn) = Some e" "run_state (e_now E) (p_world p) = (now, w)"
    and "time_Sub (cb_expiresAt e) now > oidcRefreshLeeway"
  shows "run_state (cacheGet E conn) p = (Some (cb_token e), p\<lparr>p_world := w\<rparr>)"
  using assms by (auto simp: cacheGet_def cache_entry_def in_world_def split: option.splits)

section \<open>Properties\<close>

text \<open>
  A connection must name exactly one source of its token. With none or with both
  the call fails at once, touching neither the cache nor the outside world.
\<close>

theorem exactly_one_token_source:
  assumes "(cs_TokenSecretRef (cn_Spec conn) = None) = (cs_OIDC (cn_Spec conn) = None)"
  shows "\<exists>err. run_state (TokenFor E b ctx conn) p = (Inl err, p)"
  using assms by (auto simp: TokenFor_def split: option.splits)

text \<open>
  A token read from a Secret is the stored value with surrounding white space
  removed, and it is never empty.
\<close>

theorem secret_token_trimmed:
  assumes "cs_TokenSecretRef (cn_Spec conn) = Some ref" "cs_OIDC (cn_Spec conn) = None"
  shows "wp (TokenFor E b ctx conn) (\<lambda>r _. \<forall>t. r = Inr t \<longrightarrow>
    t \<noteq> [] \<and> (\<exists>s raw. fst (run_state (e_get_secret E ctx (cn_Namespace conn, skr_Name ref)) (p_world p)) = Inr s \<and>
      map_of (sec_Data s) (skr_Key ref) = Some raw \<and> t = TrimSpace raw)) p"
  using assms
  by (auto simp: TokenFor_def loadFromSecret_def Let_def wp_simps
      wp_def [of "e_get_secret E ctx (cn_Namespace conn, skr_Name ref)"] wp_return
      split: prod.splits sum.splits option.splits if_splits)

text \<open>
  Property C38: while a cached bearer has more than a minute left it is handed out again, and
  the call does nothing but read the clock: no file is read and no exchange is made.
\<close>

theorem cached_bearer_reused:
  assumes "cs_TokenSecretRef (cn_Spec conn) = None" "cs_OIDC (cn_Spec conn) = Some auth"
    and "cache_entry p (cache_key conn) = Some e"
    and "run_state (e_now E) (p_world p) = (now, w)"
    and "time_Sub (cb_expiresAt e) now > 60 * second"
  shows "run_state (TokenFor E b ctx conn) p = (Inr (cb_token e), p\<lparr>p_world := w\<rparr>)"
  using assms cacheGet_fresh [OF assms(3,4)]
  by (simp add: TokenFor_def loadFromOIDC_def oidcRefreshLeeway_def)

text \<open>
  Property C25: the cache never answers with a bearer that has a minute or less left, and a
  bearer obtained by an exchange is remembered with its expiry for the next call.
\<close>

theorem broker_refreshes_expiring:
  assumes "cs_TokenSecretRef (cn_Spec conn) = None" "cs_OIDC (cn_Spec conn) = Some auth"
    and "\<forall>e. cache_entry p (cache_key conn) = Some e \<longrightarrow>
      time_Sub (cb_expiresAt e) (fst (run_state (e_now E) (p_world p))) \<le> 60 * second"
  shows "wp (TokenFor E b ctx conn) (\<lambda>r p'. \<forall>t. r = Inr t \<longrightarrow>
    (\<exists>path w raw w' exp w''.
       run_state (br_ReadToken b path) w = (Inr raw, w') \<and>
       run_state (br_Exchange b ctx (cs_URL (cn_Spec conn)) (oa_ClusterID auth) (TrimSpace raw)) w' = (Inr (t, exp), w'') \<and>
       cache_entry p' (cache_key conn) = Some \<lparr>cb_token = t, cb_expiresAt = exp\<rparr> \<and> p_world p' = w'')) p"
proof -
  have miss: "wp (cacheGet E conn) (\<lambda>r _. r = None) p"
    using assms(3)
    by (auto simp: cacheGet_def cache_entry_def oidcRefreshLeeway_def wp_simps wp_def [of "e_now E"]
        split: option.splits prod.splits)
  show ?thesis
    unfolding TokenFor_def assms(1,2) option.case prod.case loadFromOIDC_def wp_bind
    by (rule wp_mono [OF miss])
      (auto simp: Let_def wp_simps cachePut_def cache_entry_def wp_def [of "br_ReadToken b _"]
        wp_def [of "br_Exchange b _ _ _ _"] split: prod.splits sum.splits option.splits; blast)
qed

text \<open>
  Property C36 (a flaw): the cache is keyed by the connection's name only. After the URL or the
  cluster ID of a connection changed, the bearer that the old configuration obtained is still
  handed out, for as long as it lives; nothing in the program drops it.
\<close>

theorem changed_connection_reuses_bearer:
  assumes "cache_key conn' = cache_key conn"
    and "cs_TokenSecretRef (cn_Spec conn') = None" "cs_OIDC (cn_Spec conn') = Some auth'"
    and "run_state (e_now E) (p_world (snd (run_state (cachePut conn bearer expires) p))) = (now, w)"
    and "time_Sub expires now > 60 * second"
  shows "fst (run_state (TokenFor E b ctx conn') (snd (run_state (cachePut conn bearer expires) p))) = Inr bearer"
proof -
  let ?p = "snd (run_state (cachePut conn bearer expires) p)"
  have "cache_entry ?p (cache_key conn') = Some \<lparr>cb_token = bearer, cb_expiresAt = expires\<rparr>"
    by (simp add: assms(1) cachePut_def cache_entry_def)
  then have "run_state (cacheGet E conn') ?p = (Some bearer, ?p\<lparr>p_world := w\<rparr>)"
    using cacheGet_fresh [where p = ?p and conn = conn' and E = E] assms(4,5) by (simp add: oidcRefreshLeeway_def)
  then show ?thesis
    using assms(2,3) by (simp add: TokenFor_def loadFromOIDC_def)
qed

end
