(* ===== verification/Go_Sha256.thy ===== *)
theory Go_Sha256
  imports Go_Strings "HOL-Library.Word"
begin

unbundle bit_operations_syntax

text \<open>
  \<open>crypto/sha256\<close>: FIPS 180-4 on a list of bytes. The padded message is cut into 64-byte
  blocks, each block is expanded to 64 words and mixed into the eight chaining words.
\<close>

type_synonym w32 = "32 word"

text \<open>
  The constants, as the standard defines them: the first 32 bits of the fractional parts of the
  cube roots of the first 64 primes, and of the square roots of the first eight.
\<close>

definition first_primes :: "nat list" where
  "first_primes =
     [2, 3, 5, 7, 11, 13, 17, 19, 23, 29, 31, 37, 41, 43, 47, 53,
      59, 61, 67, 71, 73, 79, 83, 89, 97, 101, 103, 107, 109, 113, 127, 131,
      137, 139, 149, 151, 157, 163, 167, 173, 179, 181, 191, 193, 197, 199, 211, 223,
      227, 229, 233, 239, 241, 251, 257, 263, 269, 271, 277, 281, 283, 293, 307, 311]"

definition integer_root :: "nat \<Rightarrow> nat \<Rightarrow> nat" where
  "integer_root k n = fold (\<lambda>b r. if (r + 2 ^ b) ^ k \<le> n then r + 2 ^ b else r) (rev [0..<40]) 0"

definition root_bits :: "nat \<Rightarrow> nat \<Rightarrow> w32" where
  "root_bits k p = of_nat (integer_root k (p * 2 ^ (32 * k)))"

definition sha_K :: "w32 list" where
  "sha_K = map (root_bits 3) first_primes"

definition sha_H0 :: "w32 list" where
  "sha_H0 = map (root_bits 2) (take 8 first_primes)"

definition sha_pad :: "nat list \<Rightarrow> nat list" where
  "sha_pad bs =
     (let n = length bs; z = (119 - n mod 64) mod 64
      in bs @ [128] @ replicate z 0 @
         map (\<lambda>i. (8 * n) div 256 ^ (7 - i) mod 256) [0..<8])"

fun be_words :: "nat list \<Rightarrow> w32 list" where
  "be_words (a # b # c # d # s) =
     of_nat (a * 16777216 + b * 65536 + c * 256 + d) # be_words s"
| "be_words _ = []"

definition small0 :: "w32 \<Rightarrow> w32" where
  "small0 x = word_rotr 7 x XOR word_rotr 18 x XOR drop_bit 3 x"

definition small1 :: "w32 \<Rightarrow> w32" where
  "small1 x = word_rotr 17 x XOR word_rotr 19 x XOR drop_bit 10 x"

definition big0 :: "w32 \<Rightarrow> w32" where
  "big0 x = word_rotr 2 x XOR word_rotr 13 x XOR word_rotr 22 x"

definition big1 :: "w32 \<Rightarrow> w32" where
  "big1 x = word_rotr 6 x XOR word_rotr 11 x XOR word_rotr 25 x"

text \<open>The message schedule, latest word first.\<close>

fun sha_extend :: "nat \<Rightarrow> w32 list \<Rightarrow> w32 list" where
  "sha_extend 0 ws = ws"
| "sha_extend (Suc n) ws =
     sha_extend n ((small1 (ws ! 1) + ws ! 6 + small0 (ws ! 14) + ws ! 15) # ws)"

definition sha_schedule :: "nat list \<Rightarrow> w32 list" where
  "sha_schedule block = rev (sha_extend 48 (rev (be_words block)))"

fun sha_rounds :: "(w32 \<times> w32) list \<Rightarrow> w32 list \<Rightarrow> w32 list" where
  "sha_rounds ((k, w) # kws) [a, b, c, d, e, f, g, h] =
     (let t1 = h + big1 e + ((e AND f) XOR (NOT e AND g)) + k + w;
          t2 = big0 a + ((a AND b) XOR (a AND c) XOR (b AND c))
      in sha_rounds kws [t1 + t2, a, b, c, d + t1, e, f, g])"
| "sha_rounds _ st = st"

definition sha_compress :: "w32 list \<Rightarrow> nat list \<Rightarrow> w32 list" where
  "sha_compress hs block = map2 (+) hs (sha_rounds (zip sha_K (sha_schedule block)) hs)"

fun sha_blocks :: "nat \<Rightarrow> w32 list \<Rightarrow> nat list \<Rightarrow> w32 list" where
  "sha_blocks 0 hs bs = hs"
| "sha_blocks (Suc n) hs bs = sha_blocks n (sha_compress hs (take 64 bs)) (drop 64 bs)"

definition be_bytes :: "w32 \<Rightarrow> nat list" where
  "be_bytes w = (let n = unat w in [n div 16777216, n div 65536 mod 256, n div 256 mod 256, n mod 256])"

definition sha256 :: "nat list \<Rightarrow> nat list" where
  "sha256 bs =
     (let p = sha_pad bs in concat (map be_bytes (sha_blocks (length p div 64) sha_H0 p)))"

lemma length_sha_rounds: "length st = 8 \<Longrightarrow> length (sha_rounds kws st) = 8"
  by (induction kws st rule: sha_rounds.induct) (simp_all add: Let_def)

lemma length_sha_compress: "length hs = 8 \<Longrightarrow> length (sha_compress hs block) = 8"
  by (simp add: sha_compress_def length_sha_rounds)

lemma length_sha_blocks: "length hs = 8 \<Longrightarrow> length (sha_blocks n hs bs) = 8"
  by (induction n arbitrary: hs bs) (simp_all add: length_sha_compress)

lemma length_concat_const:
  "(\<And>x. x \<in> set xs \<Longrightarrow> length (f x) = n) \<Longrightarrow> length (concat (map f xs)) = n * length xs"
  by (induction xs) auto

lemma length_sha256 [simp]: "length (sha256 bs) = 32"
proof -
  have "length (sha_blocks n sha_H0 p) = 8" for n p
    by (rule length_sha_blocks) (simp add: sha_H0_def first_primes_def)
  then show ?thesis
    by (simp add: sha256_def Let_def be_bytes_def length_concat_const [where n = 4])
qed

end
