(* ===== verification/Shared.thy ===== *)
theory Shared
  imports Env Go_Sha256
begin

text \<open>
  \<open>internal/controller/shared.go\<close>: the content digest of a key/value map and the upsert of a
  status condition.
\<close>

section \<open>The content digest\<close>

definition nul :: string where "nul = [chr 0]"

definition data_of :: "string gomap \<Rightarrow> string \<Rightarrow> string" where
  "data_of data k = lookup_str (Some data) k"

text \<open>The bytes written into the hash, key by key in sorted order.\<close>

definition hash_chunk :: "string gomap \<Rightarrow> string \<Rightarrow> string" where
  "hash_chunk data k = k @ nul @ data_of data k @ nul"

definition hash_input :: "string gomap \<Rightarrow> string" where
  "hash_input data = concat (map (hash_chunk data) (sorted_keys data))"

definition hashSecretData :: "string gomap \<Rightarrow> string" where
  "hashSecretData data = hex_EncodeToString (sha256 (map byte (hash_input data)))"

lemma hash_input_cong:
  "same_map m n \<Longrightarrow> wf_map m \<Longrightarrow> wf_map n \<Longrightarrow> hash_input m = hash_input n"
  using sorted_keys_cong [of m n]
  by (simp add: hash_input_def hash_chunk_def [abs_def] data_of_def lookup_str_def same_map_def)

lemma split_at_nul:
  assumes "chr 0 \<notin> set a" "chr 0 \<notin> set b" "a @ nul @ x = b @ nul @ y"
  shows "a = b \<and> x = y"
proof -
  have t: "takeWhile (\<lambda>c. c \<noteq> d) (z @ [d] @ r) = z \<and> dropWhile (\<lambda>c. c \<noteq> d) (z @ [d] @ r) = [d] @ r"
    if "d \<notin> set z" for z r :: string and d
    using that by (induction z) auto
  note ta = t [OF assms(1), of x, folded nul_def] and tb = t [OF assms(2), of y, folded nul_def]
  have "a = b" using ta tb unfolding assms(3) by (metis (no_types))
  with assms(3) show ?thesis by simp
qed

lemma hash_chunks_inj:
  assumes "\<forall>k\<in>set ks. chr 0 \<notin> set k \<and> chr 0 \<notin> set (data_of m k)"
    "\<forall>k\<in>set ls. chr 0 \<notin> set k \<and> chr 0 \<notin> set (data_of n k)"
    "concat (map (hash_chunk m) ks) = concat (map (hash_chunk n) ls)"
  shows "ks = ls \<and> (\<forall>k\<in>set ks. data_of m k = data_of n k)"
  using assms
proof (induction ks arbitrary: ls)
  case Nil
  then show ?case by (cases ls) (simp_all add: hash_chunk_def nul_def)
next
  case (Cons k ks)
  have "hash_chunk m k \<noteq> []" by (simp add: hash_chunk_def nul_def)
  with Cons.prems(3) obtain l ls' where ls: "ls = l # ls'" by (cases ls) auto
  let ?rest = "\<lambda>m k ks. data_of m k @ nul @ concat (map (hash_chunk m) ks)"
  have "k @ nul @ ?rest m k ks = l @ nul @ ?rest n l ls'"
    using Cons.prems(3) by (simp only: ls list.map concat.simps) (simp only: hash_chunk_def append_assoc)
  then have kl: "k = l" and "?rest m k ks = ?rest n l ls'"
    using split_at_nul [of k l "?rest m k ks" "?rest n l ls'"] Cons.prems(1,2) by (simp_all add: ls)
  then have "data_of m k = data_of n l" "concat (map (hash_chunk m) ks) = concat (map (hash_chunk n) ls')"
    using split_at_nul [of "data_of m k" "data_of n l" "concat (map (hash_chunk m) ks)"
        "concat (map (hash_chunk n) ls')"] Cons.prems(1,2) by (simp_all add: ls)
  with Cons.IH [of ls'] Cons.prems(1,2) kl show ?case by (simp add: ls)
qed

definition nul_free :: "string gomap \<Rightarrow> bool" where
  "nul_free m = list_all (\<lambda>(k, v). chr 0 \<notin> set k \<and> chr 0 \<notin> set v) m"

lemma nul_free_data:
  assumes "nul_free m" "k \<in> set (mkeys m)"
  shows "chr 0 \<notin> set k \<and> chr 0 \<notin> set (data_of m k)"
proof -
  obtain v where v: "map_of m k = Some v"
    using assms(2) by (auto dest: weak_map_of_SomeI)
  then have "(k, v) \<in> set m" by (rule map_of_SomeD)
  then show ?thesis using assms(1) v by (auto simp: nul_free_def list_all_iff data_of_def lookup_str_def)
qed

lemma hash_input_inj:
  assumes "nul_free m" "nul_free n" "hash_input m = hash_input n"
  shows "same_map m n"
proof -
  have "\<forall>k\<in>set (sorted_keys m). chr 0 \<notin> set k \<and> chr 0 \<notin> set (data_of m k)"
    "\<forall>k\<in>set (sorted_keys n). chr 0 \<notin> set k \<and> chr 0 \<notin> set (data_of n k)"
    using nul_free_data assms(1,2) by simp_all
  from hash_chunks_inj [OF this assms(3) [unfolded hash_input_def]]
  have eq: "sorted_keys m = sorted_keys n" "\<forall>k\<in>set (sorted_keys m). data_of m k = data_of n k"
    by (rule conjunct1, rule conjunct2)
  have "map_of m k = map_of n k" for k
  proof (cases "k \<in> set (mkeys m)")
    case True
    then have "k \<in> set (mkeys n)" using eq(1) by (metis list.set_map set_sorted_keys)
    with True have "map_of m k \<noteq> None" "map_of n k \<noteq> None"
      by (simp_all only: map_of_eq_None_iff set_map not_not)
    then obtain v v' where "map_of m k = Some v" "map_of n k = Some v'" by blast
    moreover have "data_of m k = data_of n k"
      using eq(2) True by (simp only: set_sorted_keys set_map)
    ultimately show ?thesis by (simp add: data_of_def lookup_str_def)
  next
    case False
    then have "k \<notin> set (mkeys n)" using eq(1) by (metis list.set_map set_sorted_keys)
    with False show ?thesis by (simp add: map_of_eq_None_iff [THEN iffD2])
  qed
  then show ?thesis by (simp add: same_map_def fun_eq_iff)
qed

lemma length_hash [simp]: "length (hashSecretData m) = 64"
  by (simp add: hashSecretData_def length_sha256)

lemma hash_nonempty [simp]: "hashSecretData m \<noteq> []"
  using length_hash [of m] by (metis list.size(3) zero_neq_numeral)

section \<open>Conditions\<close>

fun upsert_condition :: "condition \<Rightarrow> condition list \<Rightarrow> condition list" where
  "upsert_condition c [] = [c]"
| "upsert_condition c (d # ds) =
     (if c_type d = c_type c then
        (if c_status d = c_status c then c\<lparr>c_lastTransitionTime := c_lastTransitionTime d\<rparr> else c) # ds
      else d # upsert_condition c ds)"

definition setCondition :: "'w env \<Rightarrow> condition list \<Rightarrow> condition \<Rightarrow> ('w proc, condition list) state" where
  "setCondition E conds c =
     State_Monad.bind (in_world (e_now E)) (\<lambda>now.
       ret (upsert_condition (c\<lparr>c_lastTransitionTime := now\<rparr>) conds))"

text \<open>The zero value of the fields a caller leaves out.\<close>

definition new_condition :: "string \<Rightarrow> condition_status \<Rightarrow> string \<Rightarrow> gomsg \<Rightarrow> condition" where
  "new_condition ty st rsn msg =
     \<lparr>c_type = ty, c_status = st, c_reason = rsn, c_message = msg, c_observedGeneration = 0,
      c_lastTransitionTime = zero_time\<rparr>"

definition find_condition :: "string \<Rightarrow> condition list \<Rightarrow> condition option" where
  "find_condition ty conds = List.find (\<lambda>c. c_type c = ty) conds"

lemma find_upsert:
  "find_condition (c_type c) (upsert_condition c conds) =
     Some (case find_condition (c_type c) conds of
         None \<Rightarrow> c
       | Some d \<Rightarrow> if c_status d = c_status c then c\<lparr>c_lastTransitionTime := c_lastTransitionTime d\<rparr> else c)"
  by (induction c conds rule: upsert_condition.induct) (auto simp: find_condition_def)

lemma find_upsert_other:
  "ty \<noteq> c_type c \<Longrightarrow> find_condition ty (upsert_condition c conds) = find_condition ty conds"
  by (induction c conds rule: upsert_condition.induct) (auto simp: find_condition_def)

lemma types_upsert:
  "map c_type (upsert_condition c conds) =
     (if c_type c \<in> set (map c_type conds) then map c_type conds else map c_type conds @ [c_type c])"
  by (induction c conds rule: upsert_condition.induct) auto

lemma keeps_setCondition:
  "keeps obs (e_now E) \<Longrightarrow> keeps (\<lambda>p. obs (p_world p)) (setCondition E conds c)"
  unfolding setCondition_def by (intro keeps_bind keeps_in_world keeps_return)

section \<open>Properties\<close>

text \<open>
  The digest depends on the content of the map only, not on the order in which
  Go iterates over it.
\<close>

theorem hash_order_independent:
  assumes "wf_map m" "wf_map n" "same_map m n"
  shows "hashSecretData m = hashSecretData n"
  by (simp add: hashSecretData_def hash_input_cong [OF assms(3,1,2)])

text \<open>
  Property C24: as long as no key and no value holds a NUL byte, maps that feed the same bytes
  to the digest have the same content, so a change of content goes unnoticed only by a SHA-256
  collision.
\<close>

theorem hash_input_determines_content:
  assumes "nul_free m" "nul_free n" "hash_input m = hash_input n"
  shows "same_map m n"
  by (rule hash_input_inj [OF assms])

text \<open>
  A flaw: with NUL bytes in a value the digest is ambiguous: two maps with
  different keys have the same digest, so moving from one to the other restarts nothing.
\<close>

lemma hash_ambiguous_with_nul:
  "hashSecretData [(''a'', ''x'' @ nul @ ''b'' @ nul @ ''y'')] = hashSecretData [(''a'', ''x''), (''b'', ''y'')]
   \<and> \<not> same_map [(''a'', ''x'' @ nul @ ''b'' @ nul @ ''y'')] [(''a'', ''x''), (''b'', ''y'')]"
proof
  have "hash_input [(''a'', ''x'' @ nul @ ''b'' @ nul @ ''y'')] = hash_input [(''a'', ''x''), (''b'', ''y'')]"
    by (simp add: hash_input_def hash_chunk_def data_of_def lookup_str_def sorted_keys_def)
  then show "hashSecretData [(''a'', ''x'' @ nul @ ''b'' @ nul @ ''y'')] =
      hashSecretData [(''a'', ''x''), (''b'', ''y'')]"
    by (simp only: hashSecretData_def)
  show "\<not> same_map [(''a'', ''x'' @ nul @ ''b'' @ nul @ ''y'')] [(''a'', ''x''), (''b'', ''y'')]"
    by (auto simp: same_map_def dest: fun_cong [where x = "''b''"])
qed

text \<open>
  Property C30: setting a condition leaves every other type alone, keeps the types distinct,
  stores the new status, reason and message, and moves the transition time to now exactly when
  the status changes or the type is new.
\<close>

theorem setCondition_spec:
  "wp (setCondition E conds c) (\<lambda>conds' p'.
     (distinct (map c_type conds) \<longrightarrow> distinct (map c_type conds')) \<and>
     (\<forall>ty. ty \<noteq> c_type c \<longrightarrow> find_condition ty conds' = find_condition ty conds) \<and>
     (\<exists>d. find_condition (c_type c) conds' = Some d \<and>
        c_status d = c_status c \<and> c_reason d = c_reason c \<and> c_message d = c_message c \<and>
        c_lastTransitionTime d =
          (case find_condition (c_type c) conds of
             Some old \<Rightarrow> if c_status old = c_status c then c_lastTransitionTime old
               else fst (run_state (e_now E) (p_world p))
           | None \<Rightarrow> fst (run_state (e_now E) (p_world p))))) p"
proof -
  obtain n w where now: "run_state (e_now E) (p_world p) = (n, w)" by fastforce
  let ?c = "c\<lparr>c_lastTransitionTime := n\<rparr>"
  have "distinct (map c_type conds) \<Longrightarrow> distinct (map c_type (upsert_condition ?c conds))"
    by (simp only: types_upsert) auto
  moreover have "ty \<noteq> c_type c \<Longrightarrow> find_condition ty (upsert_condition ?c conds) = find_condition ty conds" for ty
    by (rule find_upsert_other) simp
  moreover note find_upsert [of ?c conds]
  ultimately show ?thesis
    by (simp add: setCondition_def wp_simps) (auto simp: wp_def now split: option.splits)
qed

end
