(* ===== verification/Metrics.thy ===== *)
theory Metrics
  imports Env Go_Float
begin

text \<open>
  \<open>internal/controller/metrics.go\<close>: what the controllers tell the Prometheus client.  The
  collectors belong to that library; the model records the calls, latest first.
\<close>

definition metric :: "metric_call \<Rightarrow> ('w proc, unit) state" where
  "metric m = modify (\<lambda>p. p\<lparr>p_metrics := m # p_metrics p\<rparr>)"

definition SyncDuration :: string where "SyncDuration = ''ferrvault_secret_sync_duration_seconds''"
definition SyncErrors :: string where "SyncErrors = ''ferrvault_secret_sync_errors_total''"
definition LastSyncTimestamp :: string where
  "LastSyncTimestamp = ''ferrvault_secret_last_sync_timestamp_seconds''"
definition RefreshInterval :: string where
  "RefreshInterval = ''ferrvault_secret_refresh_interval_seconds''"
definition ConnectionReady :: string where "ConnectionReady = ''ferrvault_connection_ready''"

lemmas collectors = SyncDuration_def SyncErrors_def LastSyncTimestamp_def RefreshInterval_def
  ConnectionReady_def

text \<open>
  The \<open>init\<close> of the package: the registry's \<open>MustRegister\<close>, which panics on a name taken
  already, is a parameter.
\<close>

definition metrics_init :: "(string list \<Rightarrow> 'r \<Rightarrow> 'r) \<Rightarrow> 'r \<Rightarrow> 'r" where
  "metrics_init MustRegister = MustRegister
     [SyncDuration, SyncErrors, LastSyncTimestamp, RefreshInterval, ConnectionReady]"

lemma collectors_distinct:
  "distinct [SyncDuration, SyncErrors, LastSyncTimestamp, RefreshInterval, ConnectionReady]"
  by (simp add: collectors)

text \<open>\<open>time.Duration.Seconds\<close>.\<close>

definition duration_Seconds :: "duration \<Rightarrow> rat" where
  "duration_Seconds d =
     (let s = (if d < 0 then - ((- d) div second) else d div second); ns = d - s * second
      in fl64 (fl64 (of_int s) + fl64 (of_int ns / 1000000000)))"

definition ObserveReconcile :: "'w env \<Rightarrow> instant \<Rightarrow> string \<Rightarrow> ('w proc, unit) state" where
  "ObserveReconcile E begin_at outcome =
     State_Monad.bind (in_world (e_now E)) (\<lambda>now.
       metric (Observe SyncDuration outcome (duration_Seconds (time_Sub now begin_at))))"

definition IncSyncError :: "string \<Rightarrow> ('w proc, unit) state" where
  "IncSyncError reason = metric (Inc SyncErrors reason)"

definition SetLastSyncTimestamp :: "string \<Rightarrow> string \<Rightarrow> duration \<Rightarrow> ('w proc, unit) state" where
  "SetLastSyncTimestamp namespace name refresh =
     State_Monad.bind (metric (SetToCurrentTime LastSyncTimestamp namespace name)) (\<lambda>_.
       metric (SetGauge RefreshInterval namespace name (duration_Seconds refresh)))"

definition DeleteLastSyncTimestamp :: "string \<Rightarrow> string \<Rightarrow> ('w proc, unit) state" where
  "DeleteLastSyncTimestamp namespace name =
     State_Monad.bind (metric (DeleteLabelValues LastSyncTimestamp namespace name)) (\<lambda>_.
       metric (DeleteLabelValues RefreshInterval namespace name))"

definition SetConnectionReady :: "string \<Rightarrow> string \<Rightarrow> bool \<Rightarrow> ('w proc, unit) state" where
  "SetConnectionReady namespace name ready =
     (let v = (if ready then 1 else 0) in metric (SetGauge ConnectionReady namespace name v))"

definition DeleteConnectionReady :: "string \<Rightarrow> string \<Rightarrow> ('w proc, unit) state" where
  "DeleteConnectionReady namespace name = metric (DeleteLabelValues ConnectionReady namespace name)"

lemma wp_metric [wp_simps]: "wp (metric m) Q p = Q () (p\<lparr>p_metrics := m # p_metrics p\<rparr>)"
  by (simp add: metric_def wp_simps)

lemma keeps_metric [keeps_intros]: "keeps (\<lambda>p. obs (p_world p)) (metric m)"
  unfolding metric_def by (rule keeps_modify) simp

lemma keeps_metric_calls [keeps_intros]:
  "keeps (\<lambda>p. obs (p_world p)) (IncSyncError r)"
  "keeps (\<lambda>p. obs (p_world p)) (SetLastSyncTimestamp ns n d)"
  "keeps (\<lambda>p. obs (p_world p)) (DeleteLastSyncTimestamp ns n)"
  "keeps (\<lambda>p. obs (p_world p)) (SetConnectionReady ns n b)"
  "keeps (\<lambda>p. obs (p_world p)) (DeleteConnectionReady ns n)"
  unfolding IncSyncError_def SetLastSyncTimestamp_def DeleteLastSyncTimestamp_def
    SetConnectionReady_def DeleteConnectionReady_def Let_def
  by (intro keeps_intros)+

lemma keeps_ObserveReconcile:
  "keeps obs (e_now E) \<Longrightarrow> keeps (\<lambda>p. obs (p_world p)) (ObserveReconcile E b r)"
  unfolding ObserveReconcile_def by (intro keeps_bind keeps_in_world keeps_metric)

lemmas metric_calls = IncSyncError_def SetLastSyncTimestamp_def DeleteLastSyncTimestamp_def
  SetConnectionReady_def DeleteConnectionReady_def ObserveReconcile_def

end
