(* ===== verification/Go_Base64.thy ===== *)
theory Go_Base64
  imports Go_Strings
begin

text \<open>
  \<open>encoding/base64\<close>: \<open>DecodeString\<close> of the padded standard and URL alphabets, which skips
  carriage returns and line feeds, accepts padding only at the end and does not check the unused
  bits; and the encoder of RFC 4648, the reference for the round trip.
\<close>

section \<open>Alphabets\<close>

definition b64_val :: "char \<Rightarrow> char \<Rightarrow> char \<Rightarrow> nat option" where
  "b64_val c62 c63 c =
     (let b = byte c in
      if 65 \<le> b \<and> b \<le> 90 then Some (b - 65)
      else if 97 \<le> b \<and> b \<le> 122 then Some (b - 71)
      else if 48 \<le> b \<and> b \<le> 57 then Some (b + 4)
      else if c = c62 then Some 62
      else if c = c63 then Some 63 else None)"

definition b64_chr :: "char \<Rightarrow> char \<Rightarrow> nat \<Rightarrow> char" where
  "b64_chr c62 c63 v =
     (if v < 26 then chr (v + 65) else if v < 52 then chr (v + 71) else if v < 62 then chr (v - 4)
      else if v = 62 then c62 else c63)"

definition std_val :: "char \<Rightarrow> nat option" where "std_val = b64_val (CHR ''+'') (CHR ''/'')"
definition url_val :: "char \<Rightarrow> nat option" where "url_val = b64_val (CHR ''-'') (CHR ''_'')"
definition std_chr :: "nat \<Rightarrow> char" where "std_chr = b64_chr (CHR ''+'') (CHR ''/'')"
definition url_chr :: "nat \<Rightarrow> char" where "url_chr = b64_chr (CHR ''-'') (CHR ''_'')"

section \<open>Decoding\<close>

definition pad_char :: char where "pad_char = CHR ''=''"

fun decode_quanta :: "(char \<Rightarrow> nat option) \<Rightarrow> string \<Rightarrow> string option" where
  "decode_quanta val [] = Some []"
| "decode_quanta val (a # b # c # d # s) =
     (case (val a, val b) of
        (Some x, Some y) \<Rightarrow>
          (case val c of
             None \<Rightarrow> if c = pad_char \<and> d = pad_char \<and> s = [] then Some [chr (x * 4 + y div 16)] else None
           | Some z \<Rightarrow>
               (case val d of
                  None \<Rightarrow> if d = pad_char \<and> s = []
                          then Some [chr (x * 4 + y div 16), chr (y mod 16 * 16 + z div 4)] else None
                | Some w \<Rightarrow>
                    map_option (\<lambda>r. chr (x * 4 + y div 16) # chr (y mod 16 * 16 + z div 4) #
                                    chr (z mod 4 * 64 + w) # r)
                      (decode_quanta val s)))
      | _ \<Rightarrow> None)"
| "decode_quanta val _ = None"

definition is_newline :: "char \<Rightarrow> bool" where
  "is_newline c = (byte c = 10 \<or> byte c = 13)"

definition b64_DecodeString :: "(char \<Rightarrow> nat option) \<Rightarrow> string \<Rightarrow> string option" where
  "b64_DecodeString val s = decode_quanta val (filter (\<lambda>c. \<not> is_newline c) s)"

section \<open>Encoding\<close>

fun b64_encode :: "(nat \<Rightarrow> char) \<Rightarrow> string \<Rightarrow> string" where
  "b64_encode f [] = []"
| "b64_encode f [a] = [f (byte a div 4), f (byte a mod 4 * 16), pad_char, pad_char]"
| "b64_encode f [a, b] =
     [f (byte a div 4), f (byte a mod 4 * 16 + byte b div 16), f (byte b mod 16 * 4), pad_char]"
| "b64_encode f (a # b # c # s) =
     f (byte a div 4) # f (byte a mod 4 * 16 + byte b div 16) #
     f (byte b mod 16 * 4 + byte c div 64) # f (byte c mod 64) # b64_encode f s"

section \<open>Round trip\<close>

lemma b64_val_chr:
  assumes "v < 64" "c62 \<noteq> c63" "byte c62 < 48" "byte c63 < 48 \<or> (90 < byte c63 \<and> byte c63 < 97)"
  shows "b64_val c62 c63 (b64_chr c62 c63 v) = Some v"
proof -
  consider "v < 26" | "26 \<le> v" "v < 52" | "52 \<le> v" "v < 62" | "v = 62" | "v = 63"
    using assms(1) by linarith
  then show ?thesis
    using assms(2-) by cases (auto simp: b64_val_def b64_chr_def Let_def)
qed

lemma std_val_chr [simp]: "v < 64 \<Longrightarrow> std_val (std_chr v) = Some v"
  unfolding std_val_def std_chr_def by (rule b64_val_chr) (auto simp: byte_def)

lemma url_val_chr [simp]: "v < 64 \<Longrightarrow> url_val (url_chr v) = Some v"
  unfolding url_val_def url_chr_def by (rule b64_val_chr) (auto simp: byte_def)

lemma pad_val [simp]: "std_val pad_char = None" "url_val pad_char = None"
  by (simp_all add: std_val_def url_val_def b64_val_def pad_char_def byte_def)

lemma sextets [simp]:
  "byte a div 4 < 64" "byte a mod 4 * 16 + byte b div 16 < 64" "byte b mod 16 * 4 + byte c div 64 < 64"
  "byte a mod 4 * 16 < 64" "byte b mod 16 * 4 < 64" "byte c mod 64 < 64"
  using byte_less [of a] byte_less [of b] byte_less [of c] by (simp_all, linarith+)

lemma regroup:
  "byte a div 4 * 4 + byte a mod 4 * 16 div 16 = byte a"
  "byte a div 4 * 4 + (byte a mod 4 * 16 + byte b div 16) div 16 = byte a"
  "(byte a mod 4 * 16 + byte b div 16) mod 16 * 16 + byte b mod 16 * 4 div 4 = byte b"
  "(byte a mod 4 * 16 + byte b div 16) mod 16 * 16 + (byte b mod 16 * 4 + byte c div 64) div 4 = byte b"
  "(byte b mod 16 * 4 + byte c div 64) mod 4 * 64 + byte c mod 64 = byte c"
proof -
  have *: "byte a div 16 mod 16 = byte a div 16" "byte a div 64 mod 4 = byte a div 64"
    "byte a div 64 div 4 = 0" "byte a div 16 div 16 = 0" for a
  proof -
    have "byte a div 16 < 16" "byte a div 64 < 4" using byte_less [of a] by linarith+
    then show "byte a div 16 mod 16 = byte a div 16" "byte a div 64 mod 4 = byte a div 64"
      "byte a div 64 div 4 = 0" "byte a div 16 div 16 = 0" by simp_all
  qed
  show
    "byte a div 4 * 4 + byte a mod 4 * 16 div 16 = byte a"
    "byte a div 4 * 4 + (byte a mod 4 * 16 + byte b div 16) div 16 = byte a"
    "(byte a mod 4 * 16 + byte b div 16) mod 16 * 16 + byte b mod 16 * 4 div 4 = byte b"
    "(byte a mod 4 * 16 + byte b div 16) mod 16 * 16 + (byte b mod 16 * 4 + byte c div 64) div 4 = byte b"
    "(byte b mod 16 * 4 + byte c div 64) mod 4 * 64 + byte c mod 64 = byte c"
    using byte_less [of b] by (simp_all add: * )
qed

lemma decode_encode_quanta:
  assumes "\<And>v. v < 64 \<Longrightarrow> val (f v) = Some v" and "val pad_char = None"
  shows "decode_quanta val (b64_encode f s) = Some s"
  using assms
  by (induction f s rule: b64_encode.induct) (simp_all only: b64_encode.simps
      decode_quanta.simps sextets option.simps prod.case simp_thms if_True regroup chr_byte option.map)

text \<open>No symbol of the encoding is a line break, so the filter keeps all of it.\<close>

lemma pad_no_newline [simp]: "\<not> is_newline pad_char"
  by (simp add: is_newline_def pad_char_def byte_def)

lemma encode_no_newline:
  "(\<And>v. v < 64 \<Longrightarrow> \<not> is_newline (f v)) \<Longrightarrow> filter (\<lambda>c. \<not> is_newline c) (b64_encode f s) = b64_encode f s"
  by (induction f s rule: b64_encode.induct) simp_all

lemma alphabet_no_newline:
  assumes "v < 64"
  shows "\<not> is_newline (std_chr v)" "\<not> is_newline (url_chr v)"
proof -
  have nl: "std_val c = None" "url_val c = None" if "is_newline c" for c
    using that by (auto simp: is_newline_def std_val_def url_val_def b64_val_def Let_def byte_def)
  show "\<not> is_newline (std_chr v)" "\<not> is_newline (url_chr v)"
    using assms nl by (metis std_val_chr url_val_chr option.distinct(1))+
qed

theorem std_round_trip: "b64_DecodeString std_val (b64_encode std_chr s) = Some s"
  by (simp add: b64_DecodeString_def encode_no_newline alphabet_no_newline decode_encode_quanta)

theorem url_round_trip: "b64_DecodeString url_val (b64_encode url_chr s) = Some s"
  by (simp add: b64_DecodeString_def encode_no_newline alphabet_no_newline decode_encode_quanta)

text \<open>
  Two alphabets that agree where both have a value decode a text to the same bytes, when both
  decode it.
\<close>

lemma decode_quanta_agree:
  "decode_quanta v1 s = Some d1 \<Longrightarrow> decode_quanta v2 s = Some d2 \<Longrightarrow>
   (\<And>c x y. v1 c = Some x \<Longrightarrow> v2 c = Some y \<Longrightarrow> x = y) \<Longrightarrow>
   v1 pad_char = None \<Longrightarrow> v2 pad_char = None \<Longrightarrow> d1 = d2"
proof (induction v1 s arbitrary: d1 d2 rule: decode_quanta.induct)
  case (2 v1 a b c d s)
  note agree = "2.prems"(3)
  obtain x y where xy: "v1 a = Some x" "v1 b = Some y"
    using "2.prems"(1) by (auto split: option.splits)
  obtain x' y' where xy': "v2 a = Some x'" "v2 b = Some y'"
    using "2.prems"(2) by (auto split: option.splits)
  have eq: "x' = x" "y' = y" using agree xy xy' by auto
  show ?case
  proof (cases "v1 c")
    case None
    then have "c = pad_char" using "2.prems"(1) xy by (auto split: if_splits)
    with "2.prems" xy xy' eq show ?thesis by (auto split: if_splits)
  next
    case (Some z)
    then have "c \<noteq> pad_char" using "2.prems"(4) by auto
    then obtain z' where "v2 c = Some z'" using "2.prems"(2) xy' by (auto split: option.splits)
    with agree Some have z': "v2 c = Some z" by auto
    show ?thesis
    proof (cases "v1 d")
      case None
      then have "d = pad_char" using "2.prems"(1) xy Some by (auto split: if_splits)
      with "2.prems" xy xy' eq Some z' show ?thesis by (auto split: if_splits)
    next
      case w: (Some w)
      then have "d \<noteq> pad_char" using "2.prems"(4) by auto
      then obtain w' where "v2 d = Some w'" using "2.prems"(2) xy' z' by (auto split: option.splits)
      with agree w have w': "v2 d = Some w" by auto
      from "2.prems"(1,2) xy xy' eq Some z' w w' obtain r1 r2 where
        "decode_quanta v1 s = Some r1" "decode_quanta v2 s = Some r2"
        "d1 = chr (x * 4 + y div 16) # chr (y mod 16 * 16 + z div 4) # chr (z mod 4 * 64 + w) # r1"
        "d2 = chr (x * 4 + y div 16) # chr (y mod 16 * 16 + z div 4) # chr (z mod 4 * 64 + w) # r2"
        by auto
      with "2.IH" [OF refl xy Some w] "2.prems"(3-5) show ?thesis by auto
    qed
  qed
qed auto

lemma std_url_agree: "std_val c = Some x \<Longrightarrow> url_val c = Some y \<Longrightarrow> x = y"
  by (auto simp: std_val_def url_val_def b64_val_def Let_def split: if_splits)

lemma std_then_url:
  "b64_DecodeString std_val s = Some d \<Longrightarrow> b64_DecodeString url_val s = Some e \<Longrightarrow> d = e"
  unfolding b64_DecodeString_def
  by (rule decode_quanta_agree [where ?v1.0 = std_val and ?v2.0 = url_val])
    (simp_all add: std_url_agree)

end
