(* ===== verification/Transforms.thy ===== *)
theory Transforms
  imports Api_Types Go_Json Go_Base64 "HOL-Library.Multiset"
begin

text \<open>
  \<open>internal/controller/transforms.go\<close>: the rewriting of the revealed key/value map before it is
  written to the target Secret.
\<close>

text \<open>
  A \<open>range\<close> loop visits the keys in an order the runtime picks; every order of finitely many
  distinct keys is the order of some ranks.
\<close>

definition range_order :: "platform \<Rightarrow> 'v gomap \<Rightarrow> 'v gomap" where
  "range_order pf m = sort_key (\<lambda>p. pf_map_rank pf (fst p)) m"

section \<open>The transform kinds\<close>

definition TransformPrefix :: string where "TransformPrefix = ''prefix''"
definition TransformSuffix :: string where "TransformSuffix = ''suffix''"
definition TransformRename :: string where "TransformRename = ''rename''"
definition TransformBase64Decode :: string where "TransformBase64Decode = ''base64Decode''"
definition TransformJSONExpand :: string where "TransformJSONExpand = ''jsonExpand''"

lemmas transform_kinds = TransformPrefix_def TransformSuffix_def TransformRename_def
  TransformBase64Decode_def TransformJSONExpand_def

text \<open>\<open>&TransformError{Type: t, Msg: m}\<close>: the index is zero until the loop sets it.\<close>

definition transform_error :: "string \<Rightarrow> gomsg \<Rightarrow> goerror" where
  "transform_error ty m = TransformError 0 ty m"

section \<open>Prefix, suffix, rename\<close>

text \<open>\<open>for k, v := range in { out[k] = v }\<close>.\<close>

definition copy_map :: "'v gomap \<Rightarrow> 'v gomap" where
  "copy_map m = fold (\<lambda>(k, v) out. mset_key k v out) m []"

definition applyAffix :: "string gomap \<Rightarrow> string \<Rightarrow> bool \<Rightarrow> string gomap" where
  "applyAffix m affix prefix =
     (if affix = [] then m
      else fold (\<lambda>(k, v) out. mset_key (if prefix then affix @ k else k @ affix) v out) m [])"

definition applyRename :: "string gomap \<Rightarrow> secret_transform \<Rightarrow> goerror + string gomap" where
  "applyRename m t =
     (if tr_From t = [] \<or> tr_To t = [] then
        Inl (transform_error (tr_Type t) (Sprintf ''rename requires both `from` and `to`'' []))
      else if tr_From t = tr_To t then Inr m
      else
        (case map_of m (tr_From t) of
           None \<Rightarrow> Inr m
         | Some v \<Rightarrow>
             (case map_of m (tr_To t) of
                Some _ \<Rightarrow>
                  Inl (transform_error (tr_Type t)
                    (Sprintf ''destination key %q already exists'' [AStr (tr_To t)]))
              | None \<Rightarrow>
                  (let out = fold (\<lambda>(k, vv) out. if k = tr_From t then out else mset_key k vv out) m []
                   in Inr (mset_key (tr_To t) v out)))))"

section \<open>Base64\<close>

definition decode_value :: "string \<Rightarrow> string option" where
  "decode_value v =
     (case b64_DecodeString std_val v of
        Some d \<Rightarrow> Some d
      | None \<Rightarrow> b64_DecodeString url_val v)"

text \<open>The loop over the target keys, in order; a key listed twice is decoded twice.\<close>

fun decode_targets :: "string \<Rightarrow> string list \<Rightarrow> string gomap \<Rightarrow> goerror + string gomap" where
  "decode_targets ty [] out = Inr out"
| "decode_targets ty (k # ks) out =
     (case map_of out k of
        None \<Rightarrow> decode_targets ty ks out
      | Some v \<Rightarrow>
          (case decode_value v of
             None \<Rightarrow> Inl (transform_error ty (Sprintf ''key %q: not valid base64'' [AStr k]))
           | Some d \<Rightarrow> decode_targets ty ks (mset_key k d out)))"

definition applyBase64Decode :: "string gomap \<Rightarrow> secret_transform \<Rightarrow> goerror + string gomap" where
  "applyBase64Decode m t =
     (let targets = (if tr_Keys t = [] then sort (mkeys m) else tr_Keys t)
      in decode_targets (tr_Type t) targets (copy_map m))"

section \<open>JSON expansion\<close>

definition formatJSONNumber :: "platform \<Rightarrow> f64 \<Rightarrow> string" where
  "formatJSONNumber pf f =
     (let x = f_val f; i = float_to_int64 pf x
      in if x = fl64 (of_int i) then int_text i else fmt_g f)"

text \<open>\<open>json.Marshal\<close> of a value that came out of \<open>json.Unmarshal\<close>: it cannot fail.\<close>

definition json_Marshal :: "f64 json \<Rightarrow> goerror + string" where
  "json_Marshal v = Inr (Marshal_any v)"

lemma size_list_sort_key: "size_list f (sort_key g xs) = size_list f xs"
proof -
  have "sum_mset (image_mset f (mset (sort_key g xs))) = sum_mset (image_mset f (mset xs))"
    by simp
  then have "sum_list (map f (sort_key g xs)) = sum_list (map f xs)"
    by (simp only: mset_map [symmetric] sum_mset_sum_list)
  then show ?thesis by (simp add: size_list_conv_sum_list)
qed

text \<open>
  One entry per leaf, the nested names joined by underscores. The keys of an object are visited
  in sorted order; visiting its members sorted by key is the same, since the keys are distinct.
\<close>

function (sequential) flattenJSON ::
  "platform \<Rightarrow> string \<Rightarrow> f64 json \<Rightarrow> string gomap \<Rightarrow> goerror + string gomap"
  and flatten_members ::
  "platform \<Rightarrow> string \<Rightarrow> (string \<times> f64 json) list \<Rightarrow> string gomap \<Rightarrow> goerror + string gomap"
where
  "flattenJSON pf prefix (JObj ms) out = flatten_members pf prefix (sort_key fst ms) out"
| "flattenJSON pf prefix (JStr s) out = Inr (mset_key prefix s out)"
| "flattenJSON pf prefix (JBool b) out = Inr (mset_key prefix (if b then ''true'' else ''false'') out)"
| "flattenJSON pf prefix (JNum f) out = Inr (mset_key prefix (formatJSONNumber pf f) out)"
| "flattenJSON pf prefix JNull out = Inr (mset_key prefix [] out)"
| "flattenJSON pf prefix v out =
     (case json_Marshal v of
        Inl err \<Rightarrow> Inl (Wrapf (Sprintf ''marshal leaf at %s: %w'' [AStr prefix, AErr err]) err)
      | Inr b \<Rightarrow> Inr (mset_key prefix b out))"
| "flatten_members pf prefix [] out = Inr out"
| "flatten_members pf prefix ((k, v) # ms) out =
     (case flattenJSON pf (prefix @ ''_'' @ ToUpper (pf_unicode_upper pf) k) v out of
        Inl err \<Rightarrow> Inl err
      | Inr out' \<Rightarrow> flatten_members pf prefix ms out')"
  by pat_completeness auto
termination
  by (relation "measure (\<lambda>x. case x of Inl (_, _, v, _) \<Rightarrow> 2 * size v
        | Inr (_, _, ms, _) \<Rightarrow> 2 * size_list (size_prod (\<lambda>_. 0) size) ms + 1)")
    (auto simp: size_list_sort_key)

text \<open>The loop that adds the expanded entries, refusing one whose key is already there.\<close>

fun add_expanded :: "string \<Rightarrow> string gomap \<Rightarrow> string gomap \<Rightarrow> goerror + string gomap" where
  "add_expanded ty [] out = Inr out"
| "add_expanded ty ((k, v) # flat) out =
     (case map_of out k of
        Some _ \<Rightarrow>
          Inl (transform_error ty (Sprintf ''expanded key %q collides with existing key'' [AStr k]))
      | None \<Rightarrow> add_expanded ty flat (mset_key k v out))"

definition applyJSONExpand ::
  "platform \<Rightarrow> string gomap \<Rightarrow> secret_transform \<Rightarrow> goerror + string gomap" where
  "applyJSONExpand pf m t =
     (if tr_Key t = [] then
        Inl (transform_error (tr_Type t) (Sprintf ''jsonExpand requires `key`'' []))
      else
        (case map_of m (tr_Key t) of
           None \<Rightarrow> Inr m
         | Some raw \<Rightarrow>
             (case Unmarshal_any raw of
                None \<Rightarrow>
                  Inl (transform_error (tr_Type t) (Sprintf ''key %q: not valid JSON'' [AStr (tr_Key t)]))
              | Some parsed \<Rightarrow>
                  (case parsed of
                     JObj obj \<Rightarrow>
                       (case flattenJSON pf (ToUpper (pf_unicode_upper pf) (tr_Key t)) (JObj obj) [] of
                          Inl err \<Rightarrow>
                            Inl (transform_error (tr_Type t)
                              (Sprintf ''key %q: %v'' [AStr (tr_Key t), AErr err]))
                        | Inr flat \<Rightarrow>
                            (let out = fold (\<lambda>(k, v) out. if k = tr_Key t then out
                                                          else mset_key k v out) m []
                             in add_expanded (tr_Type t) (range_order pf flat) out))
                   | _ \<Rightarrow>
                       Inl (transform_error (tr_Type t)
                         (Sprintf ''key %q: JSON value is not an object'' [AStr (tr_Key t)]))))))"

section \<open>The pipeline\<close>

definition applyOne :: "platform \<Rightarrow> string gomap \<Rightarrow> secret_transform \<Rightarrow> goerror + string gomap" where
  "applyOne pf m t =
     (if tr_Type t = TransformPrefix then Inr (applyAffix m (tr_Value t) True)
      else if tr_Type t = TransformSuffix then Inr (applyAffix m (tr_Value t) False)
      else if tr_Type t = TransformRename then applyRename m t
      else if tr_Type t = TransformBase64Decode then applyBase64Decode m t
      else if tr_Type t = TransformJSONExpand then applyJSONExpand pf m t
      else Inl (transform_error (tr_Type t) (Sprintf ''unknown transform type'' [])))"

text \<open>
  The loop returns the map built so far together with the error, if any: the failing step's
  type-asserted error with its position, or a new one around any other error.
\<close>

definition at_index :: "nat \<Rightarrow> string \<Rightarrow> goerror \<Rightarrow> goerror" where
  "at_index i ty err =
     (case err of
        TransformError _ ty' m \<Rightarrow> TransformError (int i) ty' m
      | _ \<Rightarrow> TransformError (int i) ty (err_Error err))"

fun apply_loop ::
  "(string gomap \<Rightarrow> secret_transform \<Rightarrow> goerror + string gomap) \<Rightarrow> nat \<Rightarrow> string gomap \<Rightarrow>
   secret_transform list \<Rightarrow> string gomap \<times> goerror option" where
  "apply_loop one i out [] = (out, None)"
| "apply_loop one i out (t # ts) =
     (case one out t of
        Inl err \<Rightarrow> (out, Some (at_index i (tr_Type t) err))
      | Inr out' \<Rightarrow> apply_loop one (Suc i) out' ts)"

definition ApplyTransforms ::
  "platform \<Rightarrow> string gomap \<Rightarrow> secret_transform list \<Rightarrow> string gomap \<times> goerror option" where
  "ApplyTransforms pf input ts = apply_loop (applyOne pf) 0 (copy_map input) ts"

section \<open>What each step does to the map\<close>

lemma wf_fold_mset [intro]: "wf_map out \<Longrightarrow> wf_map (fold (\<lambda>(k, v) out. mset_key (h k) v out) m out)"
  by (induction m arbitrary: out) (simp_all add: split_def)

lemma wf_fold_filter [intro]:
  "wf_map out \<Longrightarrow> wf_map (fold (\<lambda>(k, v) out. if k = x then out else mset_key k v out) m out)"
  by (induction m arbitrary: out) (simp_all add: split_def)

lemma map_of_fold_mset:
  assumes "inj h" "wf_map m"
  shows "map_of (fold (\<lambda>(k, v) out. mset_key (h k) v out) m out) (h k) =
     (case map_of m k of Some v \<Rightarrow> Some v | None \<Rightarrow> map_of out (h k))"
  using assms(2)
proof (induction m arbitrary: out)
  case (Cons p m)
  obtain k' v' where p: "p = (k', v')" by (cases p)
  have "map_of m k' = None"
    using Cons.prems by (simp add: wf_map_def p map_of_eq_None_iff)
  with Cons show ?case
    by (auto simp: p wf_map_def map_simps inj_eq [OF assms(1)] split: option.splits)
qed simp

lemma map_of_fold_mset_other:
  "k \<notin> range h \<Longrightarrow> map_of (fold (\<lambda>(k, v) out. mset_key (h k) v out) m out) k = map_of out k"
  by (induction m arbitrary: out) (simp_all add: split_def map_simps image_iff)

lemma map_of_fold_filter:
  "wf_map m \<Longrightarrow>
   map_of (fold (\<lambda>(k, v) out. if k = x then out else mset_key k v out) m out) k =
     (if k = x then map_of out k
      else case map_of m k of Some v \<Rightarrow> Some v | None \<Rightarrow> map_of out k)"
proof (induction m arbitrary: out)
  case (Cons p m)
  obtain k' v' where p: "p = (k', v')" by (cases p)
  have "map_of m k' = None"
    using Cons.prems by (simp add: wf_map_def p map_of_eq_None_iff)
  with Cons show ?case
    by (auto simp: p wf_map_def map_simps split: option.splits)
qed simp

lemma wf_copy_map [simp, intro]: "wf_map (copy_map m)"
  unfolding copy_map_def by (rule wf_fold_mset [where h = "\<lambda>k. k"]) simp

lemma map_of_copy_map [map_simps]: "wf_map m \<Longrightarrow> map_of (copy_map m) = map_of m"
  using map_of_fold_mset [where h = "\<lambda>k. k" and m = m and out = "[]"]
  by (auto simp: copy_map_def fun_eq_iff split: option.splits)

lemma same_map_copy [simp]: "wf_map m \<Longrightarrow> same_map (copy_map m) m"
  by (simp add: same_map_def map_simps)

subsection \<open>Prefix and suffix\<close>

lemma inj_affix: "inj (\<lambda>k. if b then a @ k else k @ (a::string))"
  by (auto simp: inj_def)

definition affix_key :: "string \<Rightarrow> bool \<Rightarrow> string \<Rightarrow> string" where
  "affix_key a b k = (if b then a @ k else k @ a)"

lemma inj_affix_key: "inj (affix_key a b)"
  by (auto simp: inj_def affix_key_def)

lemma applyAffix_alt:
  "applyAffix m a b = (if a = [] then m else fold (\<lambda>(k, v) out. mset_key (affix_key a b k) v out) m [])"
  by (simp add: applyAffix_def affix_key_def)

lemma wf_applyAffix [intro]: "wf_map m \<Longrightarrow> wf_map (applyAffix m a b)"
  by (auto simp: applyAffix_alt)

lemma map_of_applyAffix:
  assumes "wf_map m"
  shows "map_of (applyAffix m a b) (affix_key a b k) = map_of m k"
proof (cases "a = []")
  case True
  then show ?thesis by (simp add: applyAffix_alt affix_key_def)
next
  case False
  then show ?thesis
    using map_of_fold_mset [OF inj_affix_key assms, where out = "[]"]
    by (simp add: applyAffix_alt split: option.splits)
qed

lemma map_of_applyAffix_other:
  "a \<noteq> [] \<Longrightarrow> k \<notin> range (affix_key a b) \<Longrightarrow> map_of (applyAffix m a b) k = None"
  by (simp add: applyAffix_alt map_of_fold_mset_other)

lemma applyAffix_cong:
  assumes "wf_map m" "wf_map m'" "same_map m m'"
  shows "same_map (applyAffix m a b) (applyAffix m' a b)"
proof (cases "a = []")
  case False
  have "map_of (applyAffix m a b) k = map_of (applyAffix m' a b) k" for k
  proof (cases "k \<in> range (affix_key a b)")
    case True
    then obtain k' where "k = affix_key a b k'" by auto
    with assms show ?thesis by (simp add: map_of_applyAffix same_map_def)
  qed (use False in \<open>simp add: map_of_applyAffix_other\<close>)
  then show ?thesis by (simp add: same_map_def fun_eq_iff)
qed (use assms in \<open>simp add: applyAffix_alt\<close>)

subsection \<open>Rename\<close>

lemma applyRename_moves:
  assumes "wf_map m" "tr_From t \<noteq> []" "tr_To t \<noteq> []" "tr_From t \<noteq> tr_To t"
    "map_of m (tr_From t) = Some v" "map_of m (tr_To t) = None"
  shows "\<exists>n. applyRename m t = Inr n \<and> wf_map n \<and>
           map_of n = (map_of m)(tr_From t := None, tr_To t \<mapsto> v)"
proof -
  let ?out = "fold (\<lambda>(k, vv) out. if k = tr_From t then out else mset_key k vv out) m []"
  have "map_of ?out = (map_of m)(tr_From t := None)"
    using map_of_fold_filter [OF assms(1), where x = "tr_From t" and out = "[]"]
    by (auto simp: fun_eq_iff split: option.splits)
  moreover have "wf_map ?out" by (rule wf_fold_filter) simp
  ultimately show ?thesis
    using assms by (intro exI [of _ "mset_key (tr_To t) v ?out"]) (simp add: applyRename_def map_simps)
qed

lemma applyRename_cases:
  assumes "wf_map m"
  obtains (unnamed) "applyRename m t =
        Inl (transform_error (tr_Type t) (Sprintf ''rename requires both `from` and `to`'' []))"
      "tr_From t = [] \<or> tr_To t = []"
  | (clash) "applyRename m t =
        Inl (transform_error (tr_Type t) (Sprintf ''destination key %q already exists'' [AStr (tr_To t)]))"
      "tr_From t \<noteq> []" "tr_To t \<noteq> []"
      "tr_From t \<noteq> tr_To t" "map_of m (tr_From t) \<noteq> None" "map_of m (tr_To t) \<noteq> None"
  | (same) "applyRename m t = Inr m" "tr_From t \<noteq> []" "tr_To t \<noteq> []"
      "tr_From t = tr_To t \<or> map_of m (tr_From t) = None"
  | (moved) n v where "applyRename m t = Inr n" "wf_map n" "tr_From t \<noteq> []" "tr_To t \<noteq> []"
      "tr_From t \<noteq> tr_To t" "map_of m (tr_From t) = Some v" "map_of m (tr_To t) = None"
      "map_of n = (map_of m)(tr_From t := None, tr_To t \<mapsto> v)"
proof (cases "tr_From t = [] \<or> tr_To t = []")
  case True
  then show thesis by (intro unnamed) (auto simp: applyRename_def)
next
  case named: False
  show thesis
  proof (cases "tr_From t = tr_To t \<or> map_of m (tr_From t) = None")
    case True
    then show thesis using named by (intro same) (auto simp: applyRename_def)
  next
    case False
    then obtain v where v: "map_of m (tr_From t) = Some v" by auto
    show thesis
    proof (cases "map_of m (tr_To t)")
      case None
      then show thesis
        using applyRename_moves [OF assms, of t v] named False v moved by blast
    next
      case (Some w)
      then show thesis using named False v by (intro clash) (auto simp: applyRename_def)
    qed
  qed
qed

subsection \<open>Base64\<close>

lemma decode_targets_wf: "decode_targets ty ks out = Inr n \<Longrightarrow> wf_map out \<Longrightarrow> wf_map n"
  by (induction ty ks out rule: decode_targets.induct) (auto split: option.splits)

lemma decode_targets_Inl: "decode_targets ty ks out = Inl e \<Longrightarrow> \<exists>m. e = transform_error ty m"
  by (induction ty ks out rule: decode_targets.induct) (auto split: option.splits)

lemma decode_targets_keys: "decode_targets ty ks out = Inr n \<Longrightarrow> dom (map_of n) = dom (map_of out)"
  by (induction ty ks out rule: decode_targets.induct)
    (auto split: option.splits simp: map_simps insert_absorb domI)

lemma decode_targets_other:
  "decode_targets ty ks out = Inr n \<Longrightarrow> k \<notin> set ks \<Longrightarrow> map_of n k = map_of out k"
  by (induction ty ks out rule: decode_targets.induct) (auto split: option.splits simp: map_simps)

lemma decode_targets_distinct:
  "decode_targets ty ks out = Inr n \<Longrightarrow> distinct ks \<Longrightarrow> k \<in> set ks \<Longrightarrow>
   map_of n k = Option.bind (map_of out k) decode_value"
proof (induction ty ks out rule: decode_targets.induct)
  case (2 ty k' ks out)
  show ?case
  proof (cases "map_of out k'")
    case None
    with 2 show ?thesis by (cases "k = k'") (auto dest: decode_targets_other)
  next
    case (Some v)
    with 2 show ?thesis
      by (cases "k = k'") (auto split: option.splits dest: decode_targets_other simp: map_simps)
  qed
qed simp

lemma decode_value_std [simp]: "decode_value (b64_encode std_chr s) = Some s"
  by (simp add: decode_value_def std_round_trip)

subsection \<open>JSON expansion\<close>

text \<open>The leaves of a value in the order they are visited: the reference for the flattening.\<close>

function (sequential) leaves :: "platform \<Rightarrow> string \<Rightarrow> f64 json \<Rightarrow> (string \<times> string) list"
  and member_leaves :: "platform \<Rightarrow> string \<Rightarrow> (string \<times> f64 json) list \<Rightarrow> (string \<times> string) list"
where
  "leaves pf prefix (JObj ms) = member_leaves pf prefix (sort_key fst ms)"
| "leaves pf prefix (JStr s) = [(prefix, s)]"
| "leaves pf prefix (JBool b) = [(prefix, if b then ''true'' else ''false'')]"
| "leaves pf prefix (JNum f) = [(prefix, formatJSONNumber pf f)]"
| "leaves pf prefix JNull = [(prefix, [])]"
| "leaves pf prefix (JArr xs) = [(prefix, Marshal_any (JArr xs))]"
| "member_leaves pf prefix [] = []"
| "member_leaves pf prefix ((k, v) # ms) =
     leaves pf (prefix @ ''_'' @ ToUpper (pf_unicode_upper pf) k) v @ member_leaves pf prefix ms"
  by pat_completeness auto
termination
  by (relation "measure (\<lambda>x. case x of Inl (_, _, v) \<Rightarrow> 2 * size v
        | Inr (_, _, ms) \<Rightarrow> 2 * size_list (size_prod (\<lambda>_. 0) size) ms + 1)")
    (auto simp: size_list_sort_key)

definition put_all :: "(string \<times> string) list \<Rightarrow> string gomap \<Rightarrow> string gomap" where
  "put_all ps out = fold (\<lambda>(k, v) out. mset_key k v out) ps out"

lemma put_all_simps [simp]:
  "put_all [] out = out" "put_all ((k, v) # ps) out = put_all ps (mset_key k v out)"
  "put_all (ps @ qs) out = put_all qs (put_all ps out)"
  by (simp_all add: put_all_def)

lemma wf_put_all [intro]: "wf_map out \<Longrightarrow> wf_map (put_all ps out)"
  unfolding put_all_def by (rule wf_fold_mset [where h = "\<lambda>k. k"])

lemma map_of_put_all: "map_of (put_all ps out) = map_of out ++ map_of (rev ps)"
proof (induction ps arbitrary: out)
  case (Cons p ps)
  then show ?case by (cases p) (simp add: map_simps map_add_def fun_eq_iff split: option.splits)
qed simp

lemma flatten_leaves:
  shows "flattenJSON pf prefix v out = Inr (put_all (leaves pf prefix v) out)"
    and "flatten_members pf prefix ms out = Inr (put_all (member_leaves pf prefix ms) out)"
  by (induction pf prefix v out and pf prefix ms out
      rule: flattenJSON_flatten_members.induct)
    (simp_all add: json_Marshal_def)

lemma map_of_range_order: "wf_map m \<Longrightarrow> map_of (range_order pf m) = map_of m"
  unfolding range_order_def wf_map_def
  by (rule map_of_inject_set [THEN iffD2]) (simp_all add: distinct_map)

lemma wf_range_order [simp]: "wf_map (range_order pf m) = wf_map m"
proof -
  have "mset (mkeys (range_order pf m)) = mset (mkeys m)"
    unfolding range_order_def by (simp only: mset_map mset_sort)
  then show ?thesis unfolding wf_map_def by (rule mset_eq_imp_distinct_iff)
qed

lemma add_expanded_Inr:
  "wf_map flat \<Longrightarrow> wf_map out \<Longrightarrow> set (mkeys flat) \<inter> set (mkeys out) = {} \<Longrightarrow>
   \<exists>n. add_expanded ty flat out = Inr n \<and> wf_map n \<and> map_of n = map_of out ++ map_of flat"
proof (induction ty flat out rule: add_expanded.induct)
  case (2 ty k v flat out)
  have k: "map_of out k = None" "map_of flat k = None"
    using "2.prems" by (auto simp: wf_map_def map_of_eq_None_iff)
  have "set (mkeys flat) \<inter> set (mkeys (mset_key k v out)) = {}"
    using "2.prems" by (auto simp: dom_update wf_map_def)
  with 2 k obtain n where "add_expanded ty flat (mset_key k v out) = Inr n" "wf_map n"
      "map_of n = map_of (mset_key k v out) ++ map_of flat"
    by (auto simp: wf_map_def distinct_update)
  with k show ?case by (auto simp: map_simps map_add_def fun_eq_iff split: option.splits)
qed simp

lemma add_expanded_Inl:
  "set (mkeys flat) \<inter> set (mkeys out) \<noteq> {} \<Longrightarrow>
   \<exists>k \<in> set (mkeys flat). add_expanded ty flat out =
     Inl (transform_error ty (Sprintf ''expanded key %q collides with existing key'' [AStr k]))"
proof (induction ty flat out rule: add_expanded.induct)
  case (2 ty k v flat out)
  show ?case
  proof (cases "map_of out k")
    case None
    then have "k \<notin> set (mkeys out)" by (simp add: map_of_eq_None_iff)
    with 2(2) have "set (mkeys flat) \<inter> set (mkeys (mset_key k v out)) \<noteq> {}"
      by (auto simp: dom_update)
    with 2(1) None show ?thesis by auto
  qed auto
qed simp

lemma same_map_disjoint:
  "same_map m m' \<Longrightarrow> same_map n n' \<Longrightarrow>
   set (mkeys m) \<inter> set (mkeys n) = {} \<longleftrightarrow> set (mkeys m') \<inter> set (mkeys n') = {}"
  by (simp only: same_map_keys)

section \<open>The contract of a step, and of a pipeline of steps\<close>

text \<open>
  Two outcomes agree when both are the same map or both are the same failure: the same transform
  type at the same position with the same text.  One text may differ: an expansion that clashes
  with several keys names whichever of them the iteration meets first.
\<close>

definition clash_text :: "string \<Rightarrow> gomsg" where
  "clash_text k = Sprintf ''expanded key %q collides with existing key'' [AStr k]"

definition same_text :: "gomsg \<Rightarrow> gomsg \<Rightarrow> bool" where
  "same_text m m' \<longleftrightarrow> m = m' \<or> (\<exists>k k'. m = clash_text k \<and> m' = clash_text k')"

lemma same_text_simps [simp]: "same_text m m" "same_text (clash_text k) (clash_text k')"
  by (auto simp: same_text_def)

fun same_failure :: "goerror \<Rightarrow> goerror \<Rightarrow> bool" where
  "same_failure (TransformError i t m) (TransformError i' t' m') = (i = i' \<and> t = t' \<and> same_text m m')"
| "same_failure _ _ = False"

fun same_outcome :: "goerror + string gomap \<Rightarrow> goerror + string gomap \<Rightarrow> bool" where
  "same_outcome (Inr n) (Inr n') = (wf_map n \<and> wf_map n' \<and> same_map n n')"
| "same_outcome (Inl e) (Inl e') = same_failure e e'"
| "same_outcome _ _ = False"

lemma same_failure_transform_error [simp]:
  "same_failure (transform_error t m) (transform_error t' m') = (t = t' \<and> same_text m m')"
  by (simp add: transform_error_def)

lemma same_outcome_Inl [simp]:
  "same_outcome (Inl (transform_error t m)) r \<longleftrightarrow> (\<exists>m'. r = Inl (transform_error t m') \<and> same_text m m')"
  by (cases r) (auto simp: transform_error_def elim: same_failure.elims)

locale transform_engine =
  fixes one one' :: "string gomap \<Rightarrow> secret_transform \<Rightarrow> goerror + string gomap"
  assumes outcome:
    "wf_map m \<Longrightarrow> wf_map m' \<Longrightarrow> same_map m m' \<Longrightarrow> same_outcome (one m t) (one' m' t)"
  and failure: "one m t = Inl e \<Longrightarrow> \<exists>msg. e = transform_error (tr_Type t) msg"
begin

text \<open>The loop is insensitive to the representation of the map and reports the failing position.\<close>

lemma loop_outcome:
  "wf_map m \<Longrightarrow> wf_map m' \<Longrightarrow> same_map m m' \<Longrightarrow>
   apply_loop one i m ts = (n, r) \<Longrightarrow> apply_loop one' i m' ts = (n', r') \<Longrightarrow>
   same_map n n' \<and> wf_map n \<and> wf_map n' \<and> (r = None \<longleftrightarrow> r' = None) \<and>
   (\<forall>e e'. r = Some e \<and> r' = Some e' \<longrightarrow> same_failure e e')"
proof (induction ts arbitrary: i m m')
  case (Cons t ts)
  have agree: "same_outcome (one m t) (one' m' t)"
    using Cons.prems(1-3) by (rule outcome)
  show ?case
  proof (cases "one m t")
    case (Inl e)
    with agree obtain e' where e': "one' m' t = Inl e'" "same_failure e e'"
      by (cases "one' m' t") auto
    then show ?thesis
      using Cons.prems Inl by (cases e; cases e') (auto simp: at_index_def)
  next
    case (Inr o1)
    with agree obtain o2 where "one' m' t = Inr o2" "wf_map o1" "wf_map o2" "same_map o1 o2"
      by (cases "one' m' t") auto
    with Cons.IH Cons.prems(4,5) Inr show ?thesis by auto
  qed
qed auto

lemma loop_failure:
  "apply_loop one i m ts = (n, Some e) \<Longrightarrow>
   \<exists>pre t post msg. ts = pre @ t # post \<and> apply_loop one i m pre = (n, None) \<and>
     one n t = Inl (transform_error (tr_Type t) msg) \<and>
     e = TransformError (int (i + length pre)) (tr_Type t) msg"
proof (induction ts arbitrary: i m)
  case (Cons t ts)
  show ?case
  proof (cases "one m t")
    case (Inl e0)
    then obtain msg where "e0 = transform_error (tr_Type t) msg" using failure by blast
    with Cons.prems Inl show ?thesis
      by (intro exI [of _ "[]"] exI [of _ t] exI [of _ ts] exI [of _ msg])
        (auto simp: at_index_def transform_error_def)
  next
    case (Inr m')
    with Cons.prems have "apply_loop one (Suc i) m' ts = (n, Some e)" by simp
    then obtain pre t' post msg where "ts = pre @ t' # post"
        "apply_loop one (Suc i) m' pre = (n, None)" "one n t' = Inl (transform_error (tr_Type t') msg)"
        "e = TransformError (int (Suc i + length pre)) (tr_Type t') msg"
      using Cons.IH by blast
    with Inr show ?thesis
      by (intro exI [of _ "t # pre"] exI [of _ t'] exI [of _ post] exI [of _ msg]) simp
  qed
qed simp

lemma loop_success:
  "apply_loop one i m ts = (n, None) \<longleftrightarrow>
   (\<exists>states. length states = Suc (length ts) \<and> hd states = m \<and> last states = n \<and>
      (\<forall>j < length ts. one (states ! j) (ts ! j) = Inr (states ! Suc j)))"
proof (induction ts arbitrary: i m)
  case Nil
  show ?case
    by (auto simp: length_Suc_conv intro!: exI [of _ "[m]"])
next
  case (Cons t ts)
  show ?case
  proof (cases "one m t")
    case (Inl e)
    then show ?thesis
      by (auto simp: length_Suc_conv dest!: spec [of _ 0])
  next
    case (Inr m')
    show ?thesis
    proof
      assume "apply_loop one i m (t # ts) = (n, None)"
      with Inr Cons.IH [of "Suc i" m'] obtain st where st: "length st = Suc (length ts)" "hd st = m'"
          "last st = n" "\<forall>j < length ts. one (st ! j) (ts ! j) = Inr (st ! Suc j)"
        by auto
      have "st ! 0 = m'" using st(1,2) by (cases st) auto
      then have "one ((m # st) ! j) ((t # ts) ! j) = Inr ((m # st) ! Suc j)"
        if "j < length (t # ts)" for j
        using that st(4) Inr by (cases j) auto
      with st show "\<exists>st. length st = Suc (length (t # ts)) \<and> hd st = m \<and> last st = n \<and>
          (\<forall>j < length (t # ts). one (st ! j) ((t # ts) ! j) = Inr (st ! Suc j))"
        by (intro exI [of _ "m # st"]) auto
    next
      assume "\<exists>st. length st = Suc (length (t # ts)) \<and> hd st = m \<and> last st = n \<and>
          (\<forall>j < length (t # ts). one (st ! j) ((t # ts) ! j) = Inr (st ! Suc j))"
      then obtain st where st: "length st = Suc (length (t # ts))" "hd st = m" "last st = n"
          "\<forall>j < length (t # ts). one (st ! j) ((t # ts) ! j) = Inr (st ! Suc j)" by blast
      then obtain s1 where s1: "st = m # s1" "length s1 = Suc (length ts)" by (cases st) auto
      have "hd s1 = m'"
        using st(4) Inr s1 by (cases s1) (auto dest!: spec [of _ 0])
      moreover have "\<forall>j < length ts. one (s1 ! j) (ts ! j) = Inr (s1 ! Suc j)"
        using st(4) s1 by auto
      ultimately show "apply_loop one i m (t # ts) = (n, None)"
        using Inr Cons.IH [of "Suc i" m'] st(3) s1 by auto
    qed
  qed
qed

end

subsection \<open>Every step of the code keeps the contract\<close>

lemma applyRename_outcome:
  assumes "wf_map m" "wf_map m'" "same_map m m'"
  shows "same_outcome (applyRename m t) (applyRename m' t)"
proof -
  have *: "map_of m' = map_of m" using assms(3) by (simp add: same_map_def)
  show ?thesis
    using assms(1,2)
    by (rule_tac applyRename_cases [of m t]; rule_tac applyRename_cases [of m' t])
      (auto simp: * same_map_def assms(3))
qed

lemma decode_targets_outcome:
  "wf_map m \<Longrightarrow> wf_map m' \<Longrightarrow> same_map m m' \<Longrightarrow>
   same_outcome (decode_targets ty ks m) (decode_targets ty ks m')"
proof (induction ty ks m arbitrary: m' rule: decode_targets.induct)
  case (2 ty k ks out)
  then have "map_of m' k = map_of out k" by (simp add: same_map_def)
  with 2 show ?case
    by (auto split: option.splits simp: same_map_mset_key)
qed simp

lemma applyBase64Decode_outcome:
  assumes "wf_map m" "wf_map m'" "same_map m m'"
  shows "same_outcome (applyBase64Decode m t) (applyBase64Decode m' t)"
proof -
  have "sort (mkeys m) = sort (mkeys m')"
    using sorted_keys_cong [OF assms(3,1,2)] by (simp add: sorted_keys_def)
  moreover have "same_map (copy_map m) (copy_map m')"
    using assms by (simp add: same_map_def map_simps)
  ultimately show ?thesis
    by (simp add: applyBase64Decode_def Let_def decode_targets_outcome)
qed

text \<open>The other entries of the map, the source key dropped.\<close>

definition without_key :: "string \<Rightarrow> string gomap \<Rightarrow> string gomap" where
  "without_key x m = fold (\<lambda>(k, v) out. if k = x then out else mset_key k v out) m []"

lemma wf_without_key [simp]: "wf_map (without_key x m)"
  unfolding without_key_def by (rule wf_fold_filter) simp

lemma map_of_without_key: "wf_map m \<Longrightarrow> map_of (without_key x m) = (map_of m)(x := None)"
  unfolding without_key_def
  using map_of_fold_filter [of m x "[]"] by (auto simp: fun_eq_iff split: option.splits)

text \<open>The flattened object, as the code builds it.\<close>

definition expansion :: "platform \<Rightarrow> string \<Rightarrow> (string \<times> f64 json) list \<Rightarrow> string gomap" where
  "expansion pf key obj = put_all (leaves pf (ToUpper (pf_unicode_upper pf) key) (JObj obj)) []"

lemma wf_expansion [simp]: "wf_map (expansion pf key obj)"
  unfolding expansion_def by (rule wf_put_all) simp

lemma applyJSONExpand_alt:
  "applyJSONExpand pf m t =
     (if tr_Key t = [] then
        Inl (transform_error (tr_Type t) (Sprintf ''jsonExpand requires `key`'' []))
      else
        (case map_of m (tr_Key t) of
           None \<Rightarrow> Inr m
         | Some raw \<Rightarrow>
             (case Unmarshal_any raw of
                None \<Rightarrow>
                  Inl (transform_error (tr_Type t) (Sprintf ''key %q: not valid JSON'' [AStr (tr_Key t)]))
              | Some (JObj obj) \<Rightarrow>
                  add_expanded (tr_Type t) (range_order pf (expansion pf (tr_Key t) obj))
                    (without_key (tr_Key t) m)
              | _ \<Rightarrow>
                  Inl (transform_error (tr_Type t)
                    (Sprintf ''key %q: JSON value is not an object'' [AStr (tr_Key t)])))))"
  by (simp add: applyJSONExpand_def flatten_leaves expansion_def without_key_def Let_def
      split: option.split json.split)

lemma add_expanded_outcome:
  assumes "wf_map flat" "wf_map flat'" "same_map flat flat'"
    "wf_map out" "wf_map out'" "same_map out out'"
  shows "same_outcome (add_expanded ty flat out) (add_expanded ty flat' out')"
proof (cases "set (mkeys flat) \<inter> set (mkeys out) = {}")
  case True
  then have True': "set (mkeys flat') \<inter> set (mkeys out') = {}"
    using same_map_disjoint [OF assms(3,6)] by simp
  obtain n n' where "add_expanded ty flat out = Inr n" "add_expanded ty flat' out' = Inr n'"
      "wf_map n" "wf_map n'" "map_of n = map_of out ++ map_of flat" "map_of n' = map_of out' ++ map_of flat'"
    using add_expanded_Inr [OF assms(1,4) True, of ty] add_expanded_Inr [OF assms(2,5) True', of ty]
    by blast
  with assms show ?thesis by (simp add: same_map_def)
next
  case False
  then have False': "set (mkeys flat') \<inter> set (mkeys out') \<noteq> {}"
    using same_map_disjoint [OF assms(3,6)] by simp
  from add_expanded_Inl [OF False, of ty] add_expanded_Inl [OF False', of ty] show ?thesis
    by (auto simp: clash_text_def [symmetric])
qed

lemma applyJSONExpand_outcome:
  assumes "wf_map m" "wf_map m'" "same_map m m'"
  shows "same_outcome (applyJSONExpand pf m t) (applyJSONExpand (pf\<lparr>pf_map_rank := r\<rparr>) m' t)"
proof -
  have *: "map_of m' = map_of m" using assms(3) by (simp add: same_map_def)
  have fmt: "formatJSONNumber (pf\<lparr>pf_map_rank := r\<rparr>) = formatJSONNumber pf" for pf
    by (simp add: formatJSONNumber_def float_to_int64_def fun_eq_iff Let_def)
  have "leaves (pf\<lparr>pf_map_rank := r\<rparr>) p v = leaves pf p v"
    "member_leaves (pf\<lparr>pf_map_rank := r\<rparr>) p ms = member_leaves pf p ms" for p v ms
    by (induction pf p v and pf p ms rule: leaves_member_leaves.induct)
      (simp_all add: fmt)
  then have exp: "expansion (pf\<lparr>pf_map_rank := r\<rparr>) k obj = expansion pf k obj" for k obj
    by (simp add: expansion_def)
  have "same_outcome (add_expanded ty (range_order pf (expansion pf k obj)) (without_key k m))
      (add_expanded ty (range_order (pf\<lparr>pf_map_rank := r\<rparr>) (expansion pf k obj)) (without_key k m'))"
    for ty k obj
    using assms by (intro add_expanded_outcome) (simp_all add: same_map_def map_of_range_order map_of_without_key)
  then show ?thesis
    using assms by (auto simp: applyJSONExpand_alt * exp same_map_def split: option.splits json.splits)
qed

lemma applyOne_outcome:
  "wf_map m \<Longrightarrow> wf_map m' \<Longrightarrow> same_map m m' \<Longrightarrow>
   same_outcome (applyOne pf m t) (applyOne (pf\<lparr>pf_map_rank := r\<rparr>) m' t)"
  by (simp add: applyOne_def applyRename_outcome applyBase64Decode_outcome applyJSONExpand_outcome
      wf_applyAffix applyAffix_cong)

lemma applyJSONExpand_Inl:
  "applyJSONExpand pf m t = Inl e \<Longrightarrow> \<exists>msg. e = transform_error (tr_Type t) msg"
proof -
  have "add_expanded ty flat out = Inl e \<Longrightarrow> \<exists>msg. e = transform_error ty msg" for ty flat out
    by (induction ty flat out rule: add_expanded.induct) (auto split: option.splits)
  then show "applyJSONExpand pf m t = Inl e \<Longrightarrow> ?thesis"
    by (auto simp: applyJSONExpand_alt split: option.splits json.splits if_splits)
qed

lemma applyOne_Inl: "applyOne pf m t = Inl e \<Longrightarrow> \<exists>msg. e = transform_error (tr_Type t) msg"
  using applyJSONExpand_Inl [of pf m t e]
  by (auto simp: applyOne_def applyRename_def applyBase64Decode_def Let_def
      split: if_splits option.splits dest: decode_targets_Inl)

interpretation pipeline: transform_engine "applyOne pf" "applyOne (pf\<lparr>pf_map_rank := r\<rparr>)" for pf r
  by unfold_locales (auto simp: applyOne_outcome dest: applyOne_Inl)

lemmas transform_lemmas = applyRename_outcome applyBase64Decode_outcome applyJSONExpand_outcome

lemma decode_value_url: "decode_value (b64_encode url_chr s) = Some s"
  using std_then_url [of "b64_encode url_chr s" _ s]
  by (auto simp: decode_value_def url_round_trip split: option.split)

lemma length_applyAffix: "wf_map m \<Longrightarrow> length (applyAffix m a b) = length m"
proof (cases "a = []")
  case False
  assume wf: "wf_map m"
  have "set (mkeys (applyAffix m a b)) = affix_key a b ` set (mkeys m)"
  proof (intro set_eqI iffI)
    fix k assume "k \<in> set (mkeys (applyAffix m a b))"
    then have "map_of (applyAffix m a b) k \<noteq> None" by (simp add: map_of_eq_None_iff)
    then show "k \<in> affix_key a b ` set (mkeys m)"
      using wf False map_of_applyAffix_other [of a k b m] map_of_applyAffix [of m a b]
      by (metis (no_types, lifting) imageE image_eqI map_of_eq_None_iff set_map)
  next
    fix k assume "k \<in> affix_key a b ` set (mkeys m)"
    then obtain k' where "k = affix_key a b k'" "map_of m k' \<noteq> None"
      by (auto simp: map_of_eq_None_iff)
    then have "map_of (applyAffix m a b) k \<noteq> None" using wf by (simp add: map_of_applyAffix)
    then show "k \<in> set (mkeys (applyAffix m a b))" by (simp add: map_of_eq_None_iff)
  qed
  moreover have "card (affix_key a b ` set (mkeys m)) = card (set (mkeys m))"
    by (rule card_image) (rule inj_on_subset [OF inj_affix_key subset_UNIV])
  moreover have "card (set (mkeys m)) = length m"
    "card (set (mkeys (applyAffix m a b))) = length (applyAffix m a b)"
    using wf wf_applyAffix [OF wf] by (simp_all only: wf_map_def distinct_card length_map)
  ultimately show ?thesis by simp
qed (simp add: applyAffix_alt)

section \<open>Properties\<close>


text \<open>
  Property C33: when a transform fails, the error names its position in the list and its type,
  and the map returned beside it is the outcome of exactly the transforms before it.
\<close>

theorem transforms_failure_position:
  assumes "ApplyTransforms pf input ts = (n, Some e)"
  shows "\<exists>pre t post msg. ts = pre @ t # post \<and> ApplyTransforms pf input pre = (n, None) \<and>
    e = TransformError (int (length pre)) (tr_Type t) msg"
  using pipeline.loop_failure [OF assms [unfolded ApplyTransforms_def]]
  by (auto simp: ApplyTransforms_def)

text \<open>
  A prefix or suffix relabels every key and keeps every value: no entry is lost,
  added or merged.
\<close>

theorem affix_relabels:
  assumes "wf_map m"
  shows "map_of (applyAffix m affix prefix) (if prefix then affix @ k else k @ affix) = map_of m k
    \<and> length (applyAffix m affix prefix) = length m"
  using map_of_applyAffix [OF assms, of affix prefix k] length_applyAffix [OF assms, of affix prefix]
  by (simp add: affix_key_def)

text \<open>
  Property C32: rename fails exactly when a name is empty or the two names differ and both keys
  are present, and then says which; otherwise it succeeds. It changes nothing when the names
  are equal or the source is missing, and else moves the value to the new key, no other entry
  added, lost or changed: an existing destination is never overwritten.
\<close>

theorem rename_spec:
  assumes "wf_map m"
  shows "if tr_From t = [] \<or> tr_To t = [] then
      applyRename m t = Inl (TransformError 0 (tr_Type t) (Sprintf ''rename requires both `from` and `to`'' []))
    else if tr_From t \<noteq> tr_To t \<and> map_of m (tr_From t) \<noteq> None \<and> map_of m (tr_To t) \<noteq> None then
      applyRename m t =
        Inl (TransformError 0 (tr_Type t) (Sprintf ''destination key %q already exists'' [AStr (tr_To t)]))
    else
      (\<exists>n. applyRename m t = Inr n \<and> wf_map n \<and>
         map_of n = (case map_of m (tr_From t) of
             None \<Rightarrow> map_of m
           | Some v \<Rightarrow> (map_of m)(tr_From t := None, tr_To t \<mapsto> v)))"
  by (rule applyRename_cases [OF assms, of t]) (use assms in \<open>auto simp: transform_error_def fun_eq_iff split: option.splits\<close>)

text \<open>
  Property C31: decoding every value of a map whose values are base64 text, in the standard or
  in the URL alphabet, gives back the bytes that were encoded.
\<close>

theorem base64_round_trip:
  assumes "wf_map plain" and "tr_Keys t = []"
  shows "\<exists>n. applyBase64Decode
      (map (\<lambda>(k, v). (k, b64_encode (if url k then url_chr else std_chr) v)) plain) t = Inr n \<and>
    same_map n plain"
proof -
  let ?f = "\<lambda>(k, v). (k, b64_encode (if url k then url_chr else std_chr) v)"
  let ?m = "map ?f plain"
  have keys: "mkeys ?m = mkeys plain" by (simp add: split_def comp_def)
  then have wf: "wf_map ?m" using assms(1) by (simp only: wf_map_def)
  have look: "map_of ?m k = map_option (b64_encode (if url k then url_chr else std_chr)) (map_of plain k)" for k
    by (induction plain) auto
  have dec: "Option.bind (map_of ?m k) decode_value = map_of plain k" for k
    by (cases "map_of plain k") (simp_all add: look decode_value_url)
  have total: "\<exists>n. decode_targets ty ks out = Inr n"
    if "distinct ks" "\<forall>k\<in>set ks. map_of out k = map_of ?m k" for ty ks out
    using that
  proof (induction ty ks out rule: decode_targets.induct)
    case (2 ty k ks out)
    then show ?case
      by (cases "map_of plain k") (auto simp: look decode_value_url map_simps split: option.splits)
  qed simp
  have dist: "distinct (sort (mkeys ?m))" using wf by (simp only: wf_map_def distinct_sort)
  obtain n where n: "decode_targets (tr_Type t) (sort (mkeys ?m)) (copy_map ?m) = Inr n"
    using total [OF dist, of "copy_map ?m" "tr_Type t"] map_of_copy_map [OF wf] by auto
  have "map_of n k = map_of plain k" for k
  proof (cases "k \<in> set (mkeys ?m)")
    case True
    then have "k \<in> set (sort (mkeys ?m))" by simp
    then show ?thesis
      using decode_targets_distinct [OF n dist] dec by (simp add: map_of_copy_map [OF wf])
  next
    case False
    then have "map_of ?m k = None" by (simp only: map_of_eq_None_iff set_map not_False_eq_True)
    moreover have "map_of n k = map_of (copy_map ?m) k"
      using decode_targets_other [OF n] False by simp
    ultimately show ?thesis using dec [of k] by (simp add: map_of_copy_map [OF wf])
  qed
  then show ?thesis
    using n assms(2) by (auto simp: applyBase64Decode_def same_map_def fun_eq_iff)
qed

text \<open>
  Property C20: \<open>jsonExpand\<close> on a key that holds a JSON object drops the key and adds one entry per
  leaf, or fails because a leaf's name is already taken by another entry. The entries it adds
  are the leaves in the order they are visited, the last one of a name winning: leaves whose
  names collide with each other, such as \<open>{"a": {"b": _}, "a_b": _}\<close>, silently lose a value.
\<close>

theorem jsonExpand_spec:
  assumes "wf_map m" "tr_Key t \<noteq> []" "map_of m (tr_Key t) = Some raw" "Unmarshal_any raw = Some (JObj obj)"
  shows "let flat = leaves pf (ToUpper (pf_unicode_upper pf) (tr_Key t)) (JObj obj);
             rest = (map_of m)(tr_Key t := None)
    in case applyJSONExpand pf m t of
         Inr n \<Rightarrow> map_of n = rest ++ map_of (rev flat) \<and> (\<forall>k\<in>fst ` set flat. rest k = None)
       | Inl e \<Rightarrow> \<exists>k\<in>fst ` set flat. rest k \<noteq> None"
proof -
  let ?leaves = "leaves pf (ToUpper (pf_unicode_upper pf) (tr_Key t)) (JObj obj)"
  let ?flat = "range_order pf (expansion pf (tr_Key t) obj)" and ?out = "without_key (tr_Key t) m"
  have run: "applyJSONExpand pf m t = add_expanded (tr_Type t) ?flat ?out"
    using assms by (simp add: applyJSONExpand_alt)
  have "map_of (expansion pf (tr_Key t) obj) = map_of (rev ?leaves)"
    by (simp add: expansion_def map_of_put_all)
  then have flat: "map_of ?flat = map_of (rev ?leaves)" "wf_map ?flat"
    by (simp_all only: map_of_range_order [OF wf_expansion] wf_range_order wf_expansion)
  have out: "map_of ?out = (map_of m)(tr_Key t := None)" "wf_map ?out"
    by (simp_all add: map_of_without_key [OF assms(1)])
  have "dom (map_of ?flat) = fst ` set ?leaves" by (simp only: flat(1) dom_map_of_conv_image_fst set_rev)
  then have keys: "set (mkeys ?flat) = fst ` set ?leaves" by (simp only: dom_map_of_conv_image_fst list.set_map)
  have taken: "k \<in> set (mkeys ?out) \<longleftrightarrow> ((map_of m)(tr_Key t := None)) k \<noteq> None" for k
    unfolding out(1) [symmetric] by (simp add: map_of_eq_None_iff)
  show ?thesis
  proof (cases "set (mkeys ?flat) \<inter> set (mkeys ?out) = {}")
    case True
    from add_expanded_Inr [OF flat(2) out(2) this, of "tr_Type t"] obtain n
      where n: "add_expanded (tr_Type t) ?flat ?out = Inr n" "map_of n = map_of ?out ++ map_of ?flat" by blast
    have free: "((map_of m)(tr_Key t := None)) k = None" if k: "k \<in> fst ` set ?leaves" for k
    proof (rule ccontr)
      assume "((map_of m)(tr_Key t := None)) k \<noteq> None"
      then have "k \<in> set (mkeys ?out)" by (simp only: taken not_False_eq_True)
      moreover have "k \<in> set (mkeys ?flat)" using k by (simp only: keys)
      ultimately show False using True by (simp only: disjoint_iff)
    qed
    show ?thesis
      unfolding run n Let_def sum.case flat(1) out(1) by (intro conjI refl ballI free)
  next
    case False
    then obtain k where *: "k \<in> set (mkeys ?flat)" "k \<in> set (mkeys ?out)" by (simp only: disjoint_iff) blast
    have k: "k \<in> fst ` set ?leaves" "((map_of m)(tr_Key t := None)) k \<noteq> None"
      using *(1) by (simp only: keys) (rule iffD1 [OF taken *(2)])
    obtain e where e: "add_expanded (tr_Type t) ?flat ?out = Inl e"
      using add_expanded_Inl [OF False, of "tr_Type t"] by (elim bexE)
    show ?thesis unfolding run e Let_def sum.case by (rule bexI [OF _ k(1)], rule k(2))
  qed
qed

end
