(* ===== verification/Go_Duration.thy ===== *)
theory Go_Duration
  imports Go_Float
begin

text \<open>
  \<open>time.ParseDuration\<close>, with its 64-bit overflow checks written out. A negative sign, digits
  with an optional fraction and a unit, repeated; \<open>None\<close> is its error.
\<close>

definition unit_map :: "(string \<times> nat) list" where
  "unit_map =
     [(''ns'', 1), (''us'', 1000), (chr 0xC2 # chr 0xB5 # ''s'', 1000),
      (chr 0xCE # chr 0xBC # ''s'', 1000), (''ms'', 1000000), (''s'', 1000000000),
      (''m'', 60000000000), (''h'', 3600000000000)]"

text \<open>\<open>leadingInt\<close> and \<open>leadingFraction\<close> on the digits already taken from the front.\<close>

fun leading_int :: "nat \<Rightarrow> string \<Rightarrow> nat option" where
  "leading_int x [] = Some x"
| "leading_int x (c # s) =
     (if x > 2 ^ 63 div 10 then None
      else let y = 10 * x + digit_val c in if y > 2 ^ 63 then None else leading_int y s)"

fun leading_fraction :: "nat \<Rightarrow> rat \<Rightarrow> string \<Rightarrow> nat \<times> rat" where
  "leading_fraction x scale [] = (x, scale)"
| "leading_fraction x scale (c # s) =
     (if x > (2 ^ 63 - 1) div 10 then (x, scale)
      else let y = 10 * x + digit_val c
           in if y > 2 ^ 63 then (x, scale) else leading_fraction y (fl64 (scale * 10)) s)"

definition is_num_char :: "char \<Rightarrow> bool" where
  "is_num_char c = (c = CHR ''.'' \<or> is_digit c)"

text \<open>One number and its unit: the nanoseconds and the rest of the text.\<close>

definition duration_item :: "string \<Rightarrow> (nat \<times> string) option" where
  "duration_item s =
     (let pre = takeWhile is_digit s; s1 = dropWhile is_digit s;
          dot = (s1 \<noteq> [] \<and> hd s1 = CHR ''.'');
          post = (if dot then takeWhile is_digit (tl s1) else []);
          s2 = (if dot then dropWhile is_digit (tl s1) else s1);
          u = takeWhile (\<lambda>c. \<not> is_num_char c) s2;
          s3 = dropWhile (\<lambda>c. \<not> is_num_char c) s2
      in case leading_int 0 pre of
           None \<Rightarrow> None
         | Some v \<Rightarrow>
             if pre = [] \<and> post = [] then None
             else if u = [] then None
             else
               (case map_of unit_map u of
                  None \<Rightarrow> None
                | Some unit \<Rightarrow>
                    if v > 2 ^ 63 div unit then None
                    else
                      (let (f, scale) = leading_fraction 0 1 post;
                           w = v * unit +
                             (if f > 0
                              then nat (trunc (fl64 (fl64 (of_nat f) * fl64 (of_nat unit / scale))))
                              else 0)
                       in if w > 2 ^ 63 then None else Some (w, s3))))"

text \<open>Every item takes at least its unit, so as many rounds as bytes are enough.\<close>

fun duration_items :: "nat \<Rightarrow> nat \<Rightarrow> string \<Rightarrow> nat option" where
  "duration_items 0 d s = (if s = [] then Some d else None)"
| "duration_items (Suc n) d s =
     (case s of
        [] \<Rightarrow> Some d
      | c # _ \<Rightarrow>
          if \<not> is_num_char c then None
          else
            (case duration_item s of
               None \<Rightarrow> None
             | Some (v, t) \<Rightarrow>
                 let e = (d + v) mod 2 ^ 64 in if e > 2 ^ 63 then None else duration_items n e t))"

definition ParseDuration :: "string \<Rightarrow> duration option" where
  "ParseDuration s0 =
     (let (neg, s) = (case s0 of
                        c # t \<Rightarrow> if c = CHR ''-'' then (True, t)
                                 else if c = CHR ''+'' then (False, t) else (False, s0)
                      | [] \<Rightarrow> (False, s0))
      in if s = ''0'' then Some 0
         else if s = [] then None
         else
           (case duration_items (length s) 0 s of
              None \<Rightarrow> None
            | Some d \<Rightarrow>
                if neg then Some (- int d)
                else if d > 2 ^ 63 - 1 then None else Some (int d)))"

lemma duration_items_bound:
  "duration_items n d s = Some e \<Longrightarrow> d \<le> 2 ^ 63 \<Longrightarrow> e \<le> 2 ^ 63"
  by (induction n d s rule: duration_items.induct)
    (auto split: list.splits if_splits option.splits simp: Let_def)

lemma ParseDuration_bound:
  "ParseDuration s = Some d \<Longrightarrow> - (2 ^ 63) \<le> d \<and> d < 2 ^ 63"
  by (auto simp: ParseDuration_def split: list.splits if_splits option.splits
      dest!: duration_items_bound)

end
