(* ===== verification/Secret_Sync.thy ===== *)
theory Secret_Sync
  imports Token_Broker Shared Metrics Transforms Go_Duration
begin

text \<open>
  The helpers of the FerrVaultSecret reconciler: \<open>ferrvaultsecret_guard.go\<close>,
  \<open>ferrvaultsecret_status.go\<close> and \<open>ferrvaultsecret_sync.go\<close>.  A function that assigns to the
  resource it is given returns it; a call that writes a resource returns it as the client
  leaves it.
\<close>

type_synonym outcome = "ctrl_result \<times> goerror option"

definition requeue :: "duration \<Rightarrow> outcome" where
  "requeue after = (\<lparr>RequeueAfter = after\<rparr>, None)"

definition fail_with :: "goerror \<Rightarrow> outcome" where
  "fail_with err = (\<lparr>RequeueAfter = 0\<rparr>, Some err)"

definition set_status :: "(secret_status \<Rightarrow> secret_status) \<Rightarrow> fvsecret \<Rightarrow> fvsecret" where
  "set_status f cr = cr\<lparr>fs_Status := f (fs_Status cr)\<rparr>"

section \<open>ferrvaultsecret_guard.go\<close>

definition missingKeysRetry :: duration where "missingKeysRetry = minute"

definition targetName :: "fvsecret \<Rightarrow> string" where
  "targetName cr = (if st_Name (ss_Target (fs_Spec cr)) \<noteq> [] then st_Name (ss_Target (fs_Spec cr)) else fs_Name cr)"

definition connectionTokenKey :: "connection \<Rightarrow> fvsecret \<Rightarrow> string \<times> bool" where
  "connectionTokenKey conn cr =
     (case cs_TokenSecretRef (cn_Spec conn) of
        None \<Rightarrow> ([], False)
      | Some ref \<Rightarrow> if skr_Name ref \<noteq> targetName cr then ([], False) else (skr_Key ref, True))"

definition target_key :: "fvsecret \<Rightarrow> nname" where
  "target_key cr = (fs_Namespace cr, targetName cr)"

definition targetExists :: "'w env \<Rightarrow> ctx \<Rightarrow> fvsecret \<Rightarrow> ('w proc, goerror + bool) state" where
  "targetExists E ctx cr = do {
     got \<leftarrow> in_world (e_get_secret E ctx (target_key cr));
     ret (case got of
            Inl err \<Rightarrow> if e_IsNotFound E err then Inr False else Inl err
          | Inr _ \<Rightarrow> Inr True) }"

definition missingKeysRequeue :: "duration \<Rightarrow> duration" where
  "missingKeysRequeue refresh = (if refresh < missingKeysRetry then refresh else missingKeysRetry)"

definition withoutOwner :: "owner_ref list \<Rightarrow> string \<Rightarrow> owner_ref list" where
  "withoutOwner refs uid = filter (\<lambda>ref. or_uid ref \<noteq> uid) refs"

section \<open>ferrvaultsecret_status.go\<close>

record 'w fv_api =
  fc_BulkReveal :: "ctx \<Rightarrow> string \<Rightarrow> string \<Rightarrow> string \<Rightarrow> string \<Rightarrow> string list \<Rightarrow> ('w, goerror + reveal_response) state"
  fc_RevealFromVault :: "ctx \<Rightarrow> string \<Rightarrow> string list \<Rightarrow> ('w, goerror + reveal_response) state"

record 'w secret_reconciler =
  sr_DefaultRefreshInterval :: duration
  sr_ClientFactory :: "(string \<Rightarrow> string \<Rightarrow> goerror + 'w fv_api) option"
  sr_Broker :: "'w broker option"
  sr_Heartbeat :: bool

definition refreshInterval :: "'w secret_reconciler \<Rightarrow> fvsecret \<Rightarrow> duration" where
  "refreshInterval r cr =
     (if ss_RefreshInterval (fs_Spec cr) = [] then sr_DefaultRefreshInterval r
      else
        (case ParseDuration (ss_RefreshInterval (fs_Spec cr)) of
           None \<Rightarrow> sr_DefaultRefreshInterval r
         | Some d \<Rightarrow> d))"

definition set_cr_condition :: "'w env \<Rightarrow> fvsecret \<Rightarrow> condition \<Rightarrow> ('w proc, fvsecret) state" where
  "set_cr_condition E cr c = do {
     conds \<leftarrow> setCondition E (sst_Conditions (fs_Status cr)) c;
     ret (set_status (sst_Conditions_update (\<lambda>_. conds)) cr) }"

definition failReadyWithRequeue ::
  "'w env \<Rightarrow> ctx \<Rightarrow> fvsecret \<Rightarrow> string \<Rightarrow> gomsg \<Rightarrow> duration \<Rightarrow> ('w proc, outcome) state" where
  "failReadyWithRequeue E ctx cr reason message after = do {
     IncSyncError reason;
     cr \<leftarrow> set_cr_condition E cr (new_condition ''Ready'' ConditionFalse reason message);
     updated \<leftarrow> in_world (e_status_secret_cr E ctx cr);
     ret (case updated of
            Inl err \<Rightarrow> fail_with (Wrapf (Sprintf ''update status with %s: %w'' [AStr reason, AErr err]) err)
          | Inr _ \<Rightarrow> requeue after) }"

definition failReady ::
  "'w env \<Rightarrow> 'w secret_reconciler \<Rightarrow> ctx \<Rightarrow> fvsecret \<Rightarrow> string \<Rightarrow> gomsg \<Rightarrow> ('w proc, outcome) state" where
  "failReady E r ctx cr reason message =
     failReadyWithRequeue E ctx cr reason message (refreshInterval r cr)"

section \<open>ferrvaultsecret_sync.go\<close>

definition fvAnnotationManagedBy :: string where "fvAnnotationManagedBy = ''ferrvault.com/managed-by''"
definition fvAnnotationContentHash :: string where "fvAnnotationContentHash = ''ferrvault.com/content-hash''"
definition fvAnnotationRestartedAt :: string where "fvAnnotationRestartedAt = ''ferrvault.com/restarted-at''"
definition conditionRolloutRestarted :: string where "conditionRolloutRestarted = ''RolloutRestarted''"
definition SecretTypeOpaque :: string where "SecretTypeOpaque = ''Opaque''"

lemmas annotation_names = fvAnnotationManagedBy_def fvAnnotationContentHash_def fvAnnotationRestartedAt_def

definition adoptable :: "k8s_secret \<Rightarrow> fvsecret \<Rightarrow> bool \<Rightarrow> bool" where
  "adoptable secret cr allowUnmanaged =
     (if om_resourceVersion (sec_meta secret) = [] \<or> allowUnmanaged then True
      else if lookup (om_annotations (sec_meta secret)) fvAnnotationManagedBy \<noteq> None then True
      else list_ex (\<lambda>ref. or_uid ref = om_uid (fs_meta cr)) (om_ownerReferences (sec_meta secret)))"

definition secretBytes :: "string gomap \<Rightarrow> string gomap" where
  "secretBytes data = copy_map data"

definition empty_meta :: "string \<Rightarrow> string \<Rightarrow> objmeta" where
  "empty_meta ns name =
     \<lparr>om_name = name, om_namespace = ns, om_uid = [], om_resourceVersion = [], om_generation = 0,
      om_deletionTimestamp = None, om_finalizers = [], om_annotations = None, om_ownerReferences = []\<rparr>"

definition set_sec_meta :: "(objmeta \<Rightarrow> objmeta) \<Rightarrow> k8s_secret \<Rightarrow> k8s_secret" where
  "set_sec_meta f s = s\<lparr>sec_meta := f (sec_meta s)\<rparr>"

text \<open>The function given to \<open>CreateOrUpdate\<close>; its second result is \<open>oldHash\<close>.\<close>

definition mutate_target ::
  "'w env \<Rightarrow> fvsecret \<Rightarrow> string gomap \<Rightarrow> string \<Rightarrow> bool \<Rightarrow> k8s_secret \<Rightarrow> goerror + (k8s_secret \<times> string)" where
  "mutate_target E cr data newHash owned secret =
     (let secretType = (if st_Type (ss_Target (fs_Spec cr)) = [] then SecretTypeOpaque
                        else st_Type (ss_Target (fs_Spec cr)))
      in if \<not> adoptable secret cr (\<not> owned) then
           Inl (Wrapf (Sprintf ''%w: %s/%s'' [AErr ErrTargetConflict,
             AStr (om_namespace (sec_meta secret)), AStr (om_name (sec_meta secret))]) ErrTargetConflict)
         else
           (let oldHash = lookup_str (om_annotations (sec_meta secret)) fvAnnotationContentHash;
                owner = (if owned then e_SetControllerReference E cr secret
                  else Inr (set_sec_meta (\<lambda>m. m\<lparr>om_ownerReferences :=
                    withoutOwner (om_ownerReferences m) (om_uid (fs_meta cr))\<rparr>) secret))
            in case owner of
                 Inl err \<Rightarrow> Inl err
               | Inr s \<Rightarrow>
                   Inr (set_sec_meta (\<lambda>m. m\<lparr>om_annotations :=
                          Some (mset_key fvAnnotationContentHash newHash
                            (mset_key fvAnnotationManagedBy ''ferrvault-operator'' (made (om_annotations m))))\<rparr>)
                          (s\<lparr>sec_Type := secretType, sec_StringData := [], sec_Data := secretBytes data\<rparr>),
                        oldHash)))"

definition ensureTargetSecret ::
  "'w env \<Rightarrow> ctx \<Rightarrow> fvsecret \<Rightarrow> string gomap \<Rightarrow> string \<Rightarrow> bool \<Rightarrow>
   ('w proc, goerror + (k8s_secret \<times> string)) state" where
  "ensureTargetSecret E ctx cr data newHash owned =
     (let secret = \<lparr>sec_meta = empty_meta (fs_Namespace cr) (targetName cr), sec_Type = [],
                    sec_Data = [], sec_StringData = []\<rparr>
      in in_world (e_create_or_update E ctx secret (mutate_target E cr data newHash owned)))"

subsection \<open>Rollouts\<close>

definition hash_key :: "fvsecret \<Rightarrow> string" where
  "hash_key cr = fvAnnotationContentHash @ ''.'' @ om_uid (fs_meta cr)"

definition patchPodTemplate ::
  "'w env \<Rightarrow> ctx \<Rightarrow> workload_kind \<Rightarrow> string \<Rightarrow> string \<Rightarrow> string \<Rightarrow> workload \<Rightarrow> ('w proc, goerror option) state" where
  "patchPodTemplate E ctx kind now hashKey contentHash obj =
     (if lookup_str (wl_templateAnnotations obj) hashKey = contentHash then ret None
      else
        (let obj' = obj\<lparr>wl_templateAnnotations :=
               Some (mset_key hashKey contentHash
                 (mset_key fvAnnotationRestartedAt now (made (wl_templateAnnotations obj))))\<rparr>
         in in_world (e_patch_workload E ctx kind obj obj')))"

definition workload_kind_of :: "string \<Rightarrow> workload_kind option" where
  "workload_kind_of k =
     (if k = ''Deployment'' then Some KDeployment
      else if k = ''StatefulSet'' then Some KStatefulSet
      else if k = ''DaemonSet'' then Some KDaemonSet
      else None)"

definition rollout_one ::
  "'w env \<Rightarrow> ctx \<Rightarrow> fvsecret \<Rightarrow> string \<Rightarrow> string \<Rightarrow> workload_ref \<Rightarrow> ('w proc, goerror option) state" where
  "rollout_one E ctx cr now contentHash w =
     (case workload_kind_of (wr_Kind w) of
        None \<Rightarrow> ret (Some (Errorf (Sprintf ''unsupported Kind %q'' [AStr (wr_Kind w)])))
      | Some kind \<Rightarrow> do {
          got \<leftarrow> in_world (e_get_workload E ctx kind (fs_Namespace cr, wr_Name w));
          case got of
            Inl err \<Rightarrow> ret (Some err)
          | Inr obj \<Rightarrow> patchPodTemplate E ctx kind now (hash_key cr) contentHash obj })"

fun rollout_loop ::
  "'w env \<Rightarrow> ctx \<Rightarrow> fvsecret \<Rightarrow> string \<Rightarrow> string \<Rightarrow> goerror option \<Rightarrow> workload_ref list \<Rightarrow>
   ('w proc, goerror option) state" where
  "rollout_loop E ctx cr now contentHash firstErr [] = ret firstErr"
| "rollout_loop E ctx cr now contentHash firstErr (w # ws) = do {
     err \<leftarrow> rollout_one E ctx cr now contentHash w;
     rollout_loop E ctx cr now contentHash
       (case err of None \<Rightarrow> firstErr | Some e \<Rightarrow> if firstErr = None then Some e else firstErr) ws }"

definition triggerRollouts ::
  "'w env \<Rightarrow> ctx \<Rightarrow> fvsecret \<Rightarrow> string \<Rightarrow> ('w proc, goerror option) state" where
  "triggerRollouts E ctx cr contentHash = do {
     t \<leftarrow> in_world (e_now E);
     rollout_loop E ctx cr (FormatRFC3339Nano t) contentHash None (ss_RolloutRestart (fs_Spec cr)) }"

definition rolloutDue :: "string \<Rightarrow> string \<Rightarrow> string \<Rightarrow> bool" where
  "rolloutDue lastRolledOut previous current =
     (let baseline = (if lastRolledOut = [] then previous else lastRolledOut)
      in baseline \<noteq> [] \<and> baseline \<noteq> current)"

definition rolloutIfDue ::
  "'w env \<Rightarrow> ctx \<Rightarrow> fvsecret \<Rightarrow> string \<Rightarrow> string \<Rightarrow> ('w proc, goerror option \<times> fvsecret) state" where
  "rolloutIfDue E ctx cr previous current =
     (if ss_RolloutRestart (fs_Spec cr) = [] then
        ret (None, set_status (sst_LastRolloutHash_update (\<lambda>_. [])) cr)
      else do {
        err \<leftarrow> (if rolloutDue (sst_LastRolloutHash (fs_Status cr)) previous current
                then triggerRollouts E ctx cr current else ret None);
        ret (case err of
               Some e \<Rightarrow> (Some e, cr)
             | None \<Rightarrow> (None, set_status (sst_LastRolloutHash_update (\<lambda>_. current)) cr)) })"

definition setRolloutCondition :: "'w env \<Rightarrow> fvsecret \<Rightarrow> goerror option \<Rightarrow> ('w proc, fvsecret) state" where
  "setRolloutCondition E cr rolloutErr =
     (if ss_RolloutRestart (fs_Spec cr) = [] then
        ret (set_status (\<lambda>s. s\<lparr>sst_Conditions :=
          e_RemoveStatusCondition E (sst_Conditions s) conditionRolloutRestarted\<rparr>) cr)
      else
        set_cr_condition E cr
          (case rolloutErr of
             None \<Rightarrow> new_condition conditionRolloutRestarted ConditionTrue ''UpToDate''
               (Sprintf ''workloads run the current content of the target Secret'' [])
           | Some e \<Rightarrow> new_condition conditionRolloutRestarted ConditionFalse ''RolloutFailed'' (err_Error e)))"

definition targetContentHash :: "'w env \<Rightarrow> ctx \<Rightarrow> fvsecret \<Rightarrow> ('w proc, goerror + string) state" where
  "targetContentHash E ctx cr = do {
     got \<leftarrow> in_world (e_get_secret E ctx (target_key cr));
     ret (case got of
            Inl err \<Rightarrow> if e_IsNotFound E err then Inr [] else Inl err
          | Inr secret \<Rightarrow> Inr (lookup_str (om_annotations (sec_meta secret)) fvAnnotationContentHash)) }"

definition recordPendingRollout ::
  "'w env \<Rightarrow> ctx \<Rightarrow> fvsecret \<Rightarrow> string \<Rightarrow> string \<Rightarrow> ('w proc, goerror + fvsecret) state" where
  "recordPendingRollout E ctx cr previous current =
     (if ss_RolloutRestart (fs_Spec cr) = [] \<or> sst_LastRolloutHash (fs_Status cr) \<noteq> [] then ret (Inr cr)
      else if \<not> rolloutDue [] previous current then ret (Inr cr)
      else do {
        updated \<leftarrow> in_world (e_status_secret_cr E ctx
          (set_status (sst_LastRolloutHash_update (\<lambda>_. previous)) cr));
        ret (case updated of
               Inl err \<Rightarrow> Inl (Wrapf (Sprintf ''record pending rollout: %w'' [AErr err]) err)
             | Inr cr' \<Rightarrow> Inr cr') })"

end
