(* ===== verification/Rate_Backoff.thy ===== *)
theory Rate_Backoff
  imports Env
begin

text \<open>
  \<open>internal/controller/rate_limit_backoff.go\<close>: the ledger of consecutive 429s per object and
  the jittered delay it yields. Each reconciler owns one ledger, made at its first use, so an
  unused one is the empty map. A locked operation is one step of the process state.
\<close>

definition rateLimitBackoffBase :: duration where "rateLimitBackoffBase = 5 * second"
definition rateLimitBackoffMax :: duration where "rateLimitBackoffMax = 5 * minute"
definition rateLimitBackoffShift :: int where "rateLimitBackoffShift = 8"

text \<open>The package function \<open>backoffFor\<close>: \<open>base << attempt\<close> within 64 bits, capped.\<close>

definition backoffFor :: "int \<Rightarrow> duration" where
  "backoffFor attempt0 =
     (let attempt1 = (if attempt0 < 0 then 0 else attempt0);
          attempt = (if attempt1 > rateLimitBackoffShift then rateLimitBackoffShift else attempt1);
          d = wrap64 (push_bit (nat attempt) rateLimitBackoffBase)
      in if d > rateLimitBackoffMax then rateLimitBackoffMax else d)"

definition jitter :: "'w env \<Rightarrow> duration \<Rightarrow> ('w proc, duration) state" where
  "jitter E d =
     (let half = d div 2
      in if half \<le> 0 then ret d
         else State_Monad.bind (in_world (e_Int63n E half)) (\<lambda>r. ret (wrap64 (half + r))))"

text \<open>
  A ledger and the \<open>sync.Once\<close> of a reconciler that makes it: before the first use the field
  is nil.
\<close>

record rateLimitBackoff =
  rl_attempts :: "nname \<Rightarrow> int option"

definition newRateLimitBackoff :: rateLimitBackoff where
  "newRateLimitBackoff = \<lparr>rl_attempts = (\<lambda>_. None)\<rparr>"

definition rateLimit :: "rateLimitBackoff option \<Rightarrow> rateLimitBackoff" where
  "rateLimit field = (case field of None \<Rightarrow> newRateLimitBackoff | Some b \<Rightarrow> b)"

text \<open>The methods \<open>next\<close> and \<open>forget\<close>, on the ledger of the reconciler \<open>c\<close> within the process.\<close>

definition next_delay :: "'w env \<Rightarrow> controller \<Rightarrow> nname \<Rightarrow> ('w proc, duration) state" where
  "next_delay E c key =
     State_Monad.bind (gets (\<lambda>p. case p_attempts p c key of None \<Rightarrow> 0 | Some n \<Rightarrow> n)) (\<lambda>attempt.
     State_Monad.bind (modify (\<lambda>p. p\<lparr>p_attempts :=
         (p_attempts p)(c := (p_attempts p c)(key \<mapsto> wrap64 (attempt + 1)))\<rparr>)) (\<lambda>_.
     jitter E (backoffFor attempt)))"

definition forget :: "controller \<Rightarrow> nname \<Rightarrow> ('w proc, unit) state" where
  "forget c key =
     modify (\<lambda>p. p\<lparr>p_attempts := (p_attempts p)(c := (p_attempts p c)(key := None))\<rparr>)"

text \<open>The number of consecutive 429s on record.\<close>

definition attempts_of :: "'w proc \<Rightarrow> controller \<Rightarrow> nname \<Rightarrow> int" where
  "attempts_of p c key = (case p_attempts p c key of None \<Rightarrow> 0 | Some n \<Rightarrow> n)"

text \<open>
  Nil fields refine the map of the process state: what \<open>next\<close> and \<open>forget\<close> do to the ledger
  that \<open>rateLimit\<close> hands them is what they do to \<open>p_attempts\<close>, whether it was made before or not.
\<close>

definition ledgers :: "(controller \<Rightarrow> rateLimitBackoff option) \<Rightarrow> controller \<Rightarrow> nname \<Rightarrow> int option" where
  "ledgers slots c = rl_attempts (rateLimit (slots c))"

definition count_429 :: "rateLimitBackoff \<Rightarrow> nname \<Rightarrow> rateLimitBackoff" where
  "count_429 b key =
     (let attempt = (case rl_attempts b key of None \<Rightarrow> 0 | Some n \<Rightarrow> n)
      in b\<lparr>rl_attempts := (rl_attempts b)(key \<mapsto> wrap64 (attempt + 1))\<rparr>)"

definition forget_429 :: "rateLimitBackoff \<Rightarrow> nname \<Rightarrow> rateLimitBackoff" where
  "forget_429 b key = b\<lparr>rl_attempts := (rl_attempts b)(key := None)\<rparr>"

lemma ledgers_unused [simp]: "ledgers (\<lambda>_. None) = (\<lambda>_ _. None)"
  by (simp add: ledgers_def rateLimit_def newRateLimitBackoff_def fun_eq_iff)

lemma ledgers_next:
  assumes "p_attempts p = ledgers slots"
  shows "p_attempts (snd (run_state (next_delay E c key) p)) = ledgers (slots(c := Some (count_429 (rateLimit (slots c)) key)))"
proof -
  have "keeps p_attempts (jitter E d)" for d
    unfolding jitter_def Let_def in_world_def by (intro keeps_intros keeps_zoom_other) simp
  then have "p_attempts (snd (run_state (jitter E d) q)) = p_attempts q" for d q by (simp add: keeps_def)
  then have "p_attempts (snd (run_state (next_delay E c key) p)) =
      (ledgers slots)(c := (ledgers slots c)(key \<mapsto> wrap64 ((case ledgers slots c key of None \<Rightarrow> 0 | Some n \<Rightarrow> n) + 1)))"
    by (simp add: next_delay_def assms)
  also have "\<dots> = ledgers (slots(c := Some (count_429 (rateLimit (slots c)) key)))"
    by (rule ext) (simp add: ledgers_def rateLimit_def count_429_def Let_def)
  finally show ?thesis .
qed

lemma ledgers_forget:
  "p_attempts p = ledgers slots \<Longrightarrow>
    p_attempts (snd (run_state (forget c key) p)) = ledgers (slots(c := Some (forget_429 (rateLimit (slots c)) key)))"
  by (auto simp: forget_def ledgers_def rateLimit_def forget_429_def fun_eq_iff)

section \<open>The schedule\<close>

lemmas backoff_constants =
  rateLimitBackoffBase_def rateLimitBackoffMax_def rateLimitBackoffShift_def duration_units

text \<open>The attempt number within the schedule, and the schedule in closed form.\<close>

definition level :: "int \<Rightarrow> nat" where
  "level a = nat (max 0 (min a 8))"

lemma level_mono: "a \<le> b \<Longrightarrow> level a \<le> level b"
  by (simp add: level_def nat_mono max.mono min.mono)

lemma level_bound: "level a \<le> 8"
  by (simp add: level_def)

lemma backoffFor_eq: "backoffFor a = min (300 * second) (5 * second * 2 ^ level a)"
proof -
  have fits: "wrap64 (5000000000 * p) = 5000000000 * p" if "0 < p" "p \<le> 256" for p
    using that by (intro wrap64_id) simp_all
  have "(2::int) ^ level a \<le> 2 ^ 8"
    using level_bound by (rule power_increasing) simp
  then have "wrap64 (push_bit (level a) 5000000000) = 5000000000 * 2 ^ level a"
    unfolding push_bit_eq_mult by (intro fits) simp_all
  moreover have "(if (if a < 0 then 0 else a) > rateLimitBackoffShift then rateLimitBackoffShift
      else if a < 0 then 0 else a) = int (level a)"
    by (simp add: level_def rateLimitBackoffShift_def)
  moreover have "rateLimitBackoffBase = 5000000000" "rateLimitBackoffMax = 300000000000"
    "5 * second = 5000000000" "300 * second = 300000000000"
    by (simp_all add: backoff_constants)
  ultimately show ?thesis
    by (simp only: backoffFor_def Let_def nat_int) (simp add: min_def)
qed

lemma backoffFor_bounds: "5 * second \<le> backoffFor a \<and> backoffFor a \<le> 5 * minute"
proof -
  have "0 < p \<Longrightarrow> 5000000000 \<le> min 300000000000 (5000000000 * p) \<and>
      min 300000000000 (5000000000 * p) \<le> 300000000000" for p :: int
    by simp
  from this [of "2 ^ level a"] show ?thesis
    by (simp add: backoffFor_eq duration_units)
qed

lemma backoffFor_mono: "a \<le> b \<Longrightarrow> backoffFor a \<le> backoffFor b"
proof -
  assume "a \<le> b"
  then have "(2::int) ^ level a \<le> 2 ^ level b"
    by (intro power_increasing level_mono) simp_all
  moreover have "p \<le> q \<Longrightarrow> min 300000000000 (5000000000 * p) \<le> min 300000000000 (5000000000 * q)"
    for p q :: int by simp
  ultimately show ?thesis by (simp add: backoffFor_eq duration_units)
qed

section \<open>The contract of a ledger\<close>

text \<open>
  What the reconcilers rely on, whichever ledger is theirs: a forgotten object starts over,
  another object's count is not touched, and a delay counts one more 429.
\<close>

locale backoff_ledger =
  fixes count :: "'s \<Rightarrow> 'k \<Rightarrow> int"
    and again :: "'k \<Rightarrow> ('s, duration) state"
    and reset :: "'k \<Rightarrow> ('s, unit) state"
  assumes reset_zero: "wp (reset k) (\<lambda>_ t. count t k = 0) s"
    and reset_other: "j \<noteq> k \<Longrightarrow> wp (reset k) (\<lambda>_ t. count t j = count s j) s"
    and again_counts: "wp (again k) (\<lambda>_ t. count t k = wrap64 (count s k + 1)) s"
    and again_other: "j \<noteq> k \<Longrightarrow> wp (again k) (\<lambda>_ t. count t j = count s j) s"
begin

definition rounds :: "'k \<Rightarrow> nat \<Rightarrow> ('s, unit) state" where
  "rounds k n = ((\<lambda>m. State_Monad.bind (again k) (\<lambda>_. m)) ^^ n) (ret ())"

lemma rounds_count:
  "0 \<le> count s k \<Longrightarrow> count s k + int n < 2 ^ 63 \<Longrightarrow> wp (rounds k n) (\<lambda>_ t. count t k = count s k + int n) s"
proof (induction n arbitrary: s)
  case 0
  then show ?case by (simp add: rounds_def wp_simps)
next
  case (Suc n)
  have step: "rounds k (Suc n) = State_Monad.bind (again k) (\<lambda>_. rounds k n)" by (simp add: rounds_def)
  have "wp (again k) (\<lambda>_ t. wp (rounds k n) (\<lambda>_ u. count u k = count s k + int (Suc n)) t) s"
  proof (rule wp_mono [OF again_counts])
    fix t assume "count t k = wrap64 (count s k + 1)"
    then have t: "count t k = count s k + 1" using Suc.prems by (simp add: wrap64_id)
    then have "wp (rounds k n) (\<lambda>_ u. count u k = count t k + int n) t"
      using Suc.prems by (intro Suc.IH) simp_all
    then show "wp (rounds k n) (\<lambda>_ u. count u k = count s k + int (Suc n)) t"
      by (rule wp_mono) (simp add: t)
  qed
  then show ?case by (simp add: step wp_simps)
qed

lemma reset_then_rounds:
  assumes "int n < 2 ^ 63"
  shows "wp (State_Monad.bind (reset k) (\<lambda>_. rounds k n)) (\<lambda>_ t. count t k = int n) s"
proof -
  have "wp (reset k) (\<lambda>_ t. wp (rounds k n) (\<lambda>_ u. count u k = int n) t) s"
  proof (rule wp_mono [OF reset_zero])
    fix t assume z: "count t k = 0"
    have "wp (rounds k n) (\<lambda>_ u. count u k = count t k + int n) t"
      using z assms by (intro rounds_count) simp_all
    then show "wp (rounds k n) (\<lambda>_ u. count u k = int n) t" by (simp add: z)
  qed
  then show ?thesis by (simp add: wp_simps)
qed

lemma reset_rounds_other:
  assumes "j \<noteq> k"
  shows "wp (reset k) (\<lambda>_ t. wp (rounds k n) (\<lambda>_ u. wp (again k) (\<lambda>_ v. count v j = count s j) u) t) s"
proof -
  have rounds: "wp (rounds k m) (\<lambda>_ t. count t j = count u j) u" for m u
  proof (induction m arbitrary: u)
    case (Suc m)
    have "wp (again k) (\<lambda>_ t. wp (rounds k m) (\<lambda>_ v. count v j = count u j) t) u"
      by (rule wp_mono [OF again_other [OF assms]]) (metis Suc.IH)
    then show ?case by (simp add: rounds_def wp_simps)
  qed (simp add: rounds_def wp_simps)
  have "wp (again k) (\<lambda>_ v. count v j = count s j) u" if "count u j = count s j" for u
    using wp_mono [OF again_other [OF assms, of u]] that by simp
  then have "wp (rounds k n) (\<lambda>_ u. wp (again k) (\<lambda>_ v. count v j = count s j) u) t"
    if "count t j = count s j" for t
    by (rule wp_mono [OF rounds [of n t]]) (simp add: that)
  then show ?thesis by (rule wp_mono [OF reset_other [OF assms]])
qed

end

lemma attempts_of_in_world [simp]:
  "attempts_of (p\<lparr>p_world := w\<rparr>) c key = attempts_of p c key"
  by (simp add: attempts_of_def)

lemma keeps_attempts_jitter: "keeps (\<lambda>p. attempts_of p c key) (jitter E d)"
  unfolding jitter_def Let_def in_world_def
  by (intro keeps_intros keeps_zoom_other) simp

lemma wp_next_delay:
  "wp (next_delay E c key) Q p =
     wp (jitter E (backoffFor (attempts_of p c key))) Q
       (p\<lparr>p_attempts := (p_attempts p)(c := (p_attempts p c)(key \<mapsto> wrap64 (attempts_of p c key + 1)))\<rparr>)"
  by (simp add: next_delay_def attempts_of_def wp_simps)

interpretation ledger: backoff_ledger "\<lambda>p. attempts_of p c" "next_delay E c" "forget c"
  for E :: "'w env" and c
proof unfold_locales
  fix k j :: nname and s :: "'w proc"
  show "wp (forget c k) (\<lambda>_ t. attempts_of t c k = 0) s"
    by (simp add: forget_def wp_simps attempts_of_def)
  show "j \<noteq> k \<Longrightarrow> wp (forget c k) (\<lambda>_ t. attempts_of t c j = attempts_of s c j) s"
    by (simp add: forget_def wp_simps attempts_of_def)
  show "wp (next_delay E c k) (\<lambda>_ t. attempts_of t c k = wrap64 (attempts_of s c k + 1)) s"
    by (simp add: wp_next_delay) (rule keeps_wp [OF keeps_attempts_jitter], simp add: attempts_of_def)
  show "j \<noteq> k \<Longrightarrow> wp (next_delay E c k) (\<lambda>_ t. attempts_of t c j = attempts_of s c j) s"
    by (simp add: wp_next_delay) (rule keeps_wp [OF keeps_attempts_jitter], simp add: attempts_of_def)
qed

lemma wp_jitter:
  assumes "draws_in_range E" "0 < d" "d \<le> rateLimitBackoffMax"
    and "\<And>x w. d div 2 \<le> x \<Longrightarrow> x \<le> d \<Longrightarrow> Q x (p\<lparr>p_world := w\<rparr>)"
  shows "wp (jitter E d) Q p"
proof (cases "d div 2 \<le> 0")
  case True
  have "Q d (p\<lparr>p_world := p_world p\<rparr>)" using assms(2) by (intro assms(4)) simp_all
  then show ?thesis using True by (simp add: jitter_def wp_simps)
next
  case False
  obtain r w where rw: "run_state (e_Int63n E (d div 2)) (p_world p) = (r, w)" by fastforce
  have "0 \<le> fst (run_state (e_Int63n E (d div 2)) (p_world p)) \<and>
      fst (run_state (e_Int63n E (d div 2)) (p_world p)) < d div 2"
    using assms(1) False unfolding draws_in_range_def by auto
  then have r: "0 \<le> r" "r < d div 2" by (simp_all add: rw)
  then have "wrap64 (d div 2 + r) = d div 2 + r"
    using assms(3) by (intro wrap64_id) (simp_all add: backoff_constants)
  moreover have "Q (d div 2 + r) (p\<lparr>p_world := w\<rparr>)" using r by (intro assms(4)) simp_all
  ultimately show ?thesis using False by (simp add: jitter_def Let_def wp_simps) (simp add: wp_def rw)
qed

text \<open>The delay after a 429, and the count it leaves.\<close>

lemma next_delay_spec:
  assumes "draws_in_range E"
    and "\<And>x w. backoffFor (attempts_of p c key) div 2 \<le> x \<Longrightarrow> x \<le> backoffFor (attempts_of p c key) \<Longrightarrow>
      Q x (p\<lparr>p_attempts :=
        (p_attempts p)(c := (p_attempts p c)(key \<mapsto> wrap64 (attempts_of p c key + 1))), p_world := w\<rparr>)"
  shows "wp (next_delay E c key) Q p"
  unfolding wp_next_delay
  using backoffFor_bounds [of "attempts_of p c key"]
  by (intro wp_jitter assms(1)) (auto simp: backoff_constants intro!: assms(2))

text \<open>A run of 429s for one object.\<close>

definition rate_limited_times :: "'w env \<Rightarrow> controller \<Rightarrow> nname \<Rightarrow> nat \<Rightarrow> ('w proc, unit) state" where
  "rate_limited_times E c key n = ((\<lambda>m. State_Monad.bind (next_delay E c key) (\<lambda>_. m)) ^^ n) (ret ())"

lemma rate_limited_times_rounds: "rate_limited_times E c key n = ledger.rounds E c key n"
  by (simp add: rate_limited_times_def ledger.rounds_def)

section \<open>Properties\<close>

text \<open>
  Property C26: the delay after a 429 doubles with each consecutive one. After a success and \<open>n\<close>
  further 429s of an object the next one is answered with a delay between half of and the
  whole of five seconds times two to the \<open>n\<close>, at most five minutes; the count goes up by one
  and no other object's count is touched.
\<close>

theorem backoff_doubles:
  assumes "draws_in_range E" and "int n < 2 ^ 63 - 1"
  shows "wp (State_Monad.bind (forget c key) (\<lambda>_. State_Monad.bind (rate_limited_times E c key n) (\<lambda>_.
      next_delay E c key))) (\<lambda>d p'.
    let base = min (5 * minute) (5 * second * 2 ^ n)
    in base div 2 \<le> d \<and> d \<le> base \<and> attempts_of p' c key = int n + 1 \<and>
       (\<forall>j. j \<noteq> key \<longrightarrow> attempts_of p' c j = attempts_of p c j)) p"
proof -
  let ?base = "min (5 * minute) (5 * second * 2 ^ n)"
  have base: "backoffFor (int n) = ?base"
  proof (cases "n \<le> 8")
    case True
    then show ?thesis by (simp add: backoffFor_eq level_def duration_units)
  next
    case False
    then have "(2::int) ^ 8 \<le> 2 ^ n" by (intro power_increasing) simp_all
    then have "min (300 * second) (5 * second * 2 ^ n) = min (300 * second) (5 * second * 2 ^ (8::nat))"
      by (simp add: duration_units min_def)
    moreover have "level (int n) = 8" using False by (simp add: level_def)
    ultimately show ?thesis by (simp add: backoffFor_eq duration_units)
  qed
  have last_delay: "wp (next_delay E c key) (\<lambda>d p'. ?base div 2 \<le> d \<and> d \<le> ?base \<and> attempts_of p' c key = int n + 1) q"
    if "attempts_of q c key = int n" for q
    using that assms(2) by (intro next_delay_spec assms(1)) (auto simp: attempts_of_def base [symmetric] wrap64_id)
  have "wp (State_Monad.bind (forget c key) (\<lambda>_. ledger.rounds E c key n)) (\<lambda>_ q. attempts_of q c key = int n) p"
    using assms(2) by (intro ledger.reset_then_rounds) simp
  then have "wp (forget c key) (\<lambda>_ q. wp (ledger.rounds E c key n) (\<lambda>_ q'. wp (next_delay E c key)
      (\<lambda>d p'. ?base div 2 \<le> d \<and> d \<le> ?base \<and> attempts_of p' c key = int n + 1) q') q) p"
    unfolding wp_bind by (elim wp_mono last_delay)
  moreover have "\<forall>j. j \<noteq> key \<longrightarrow> wp (forget c key) (\<lambda>_ q. wp (ledger.rounds E c key n) (\<lambda>_ q'.
      wp (next_delay E c key) (\<lambda>_ p'. attempts_of p' c j = attempts_of p c j) q') q) p"
    by (intro allI impI ledger.reset_rounds_other)
  ultimately show ?thesis
    by (auto simp: wp_def rate_limited_times_rounds Let_def simp del: split_paired_All split: prod.splits)
qed

end
