(* ===== verification/Heartbeat.thy ===== *)
theory Heartbeat
  imports Env
begin

text \<open>
  \<open>internal/controller/heartbeat.go\<close>: the time of the last finished reconcile and the liveness
  check over it.  A nil heartbeat is \<open>hb = False\<close>; \<open>NewHeartbeat\<close> is the initial \<open>p_last\<close>.
\<close>

definition NewHeartbeat :: "instant \<Rightarrow> 'w proc \<Rightarrow> 'w proc" where
  "NewHeartbeat now p = p\<lparr>p_last := now\<rparr>"

definition Beat :: "bool \<Rightarrow> instant \<Rightarrow> ('w proc, unit) state" where
  "Beat hb now =
     (if \<not> hb then ret ()
      else modify (\<lambda>p. if now > p_last p then p\<lparr>p_last := now\<rparr> else p))"

definition Idle :: "bool \<Rightarrow> instant \<Rightarrow> ('w proc, duration) state" where
  "Idle hb now = (if \<not> hb then ret 0 else gets (\<lambda>p. time_Sub now (p_last p)))"

definition list_one :: list_options where
  "list_one = \<lparr>lo_namespace = None, lo_field = None, lo_limit = Some 1\<rparr>"

definition hasWatchedResources :: "'w env \<Rightarrow> ctx \<Rightarrow> ('w, goerror + bool) state" where
  "hasWatchedResources E ctx =
     State_Monad.bind (e_list_connections E ctx list_one) (\<lambda>conns.
     case conns of
       Inl err \<Rightarrow> ret (Inl err)
     | Inr items \<Rightarrow>
         if items \<noteq> [] then ret (Inr True)
         else
           State_Monad.bind (e_list_secret_crs E ctx list_one) (\<lambda>secrets.
           case secrets of
             Inl err \<Rightarrow> ret (Inl err)
           | Inr items \<Rightarrow> ret (Inr (items \<noteq> []))))"

definition StallChecker :: "'w env \<Rightarrow> bool \<Rightarrow> duration \<Rightarrow> ctx \<Rightarrow> ('w proc, goerror option) state" where
  "StallChecker E hb threshold ctx =
     State_Monad.bind (in_world (e_now E)) (\<lambda>now.
     State_Monad.bind (Idle hb now) (\<lambda>idle.
     if idle \<le> threshold then ret None
     else
       State_Monad.bind (in_world (hasWatchedResources E ctx)) (\<lambda>watching.
         ret (case watching of
                Inl _ \<Rightarrow> None
              | Inr False \<Rightarrow> None
              | Inr True \<Rightarrow>
                  Some (Errorf (Sprintf ''no reconcile completed for %s'' [AInt (Truncate idle second)]))))))"

lemma keeps_Beat [keeps_intros]: "keeps (\<lambda>p. obs (p_world p)) (Beat hb now)"
  unfolding Beat_def by (intro keeps_intros) auto

text \<open>What a beat does to the clock of the last reconcile.\<close>

lemma wp_Beat [wp_simps]:
  "wp (Beat hb now) Q p = Q () (p\<lparr>p_last := (if hb then max now (p_last p) else p_last p)\<rparr>)"
  by (auto simp: Beat_def wp_simps max_def)

section \<open>The contract of a progress clock\<close>

text \<open>
  A clock only moves forward, and right after a beat at the current time nothing is idle; so a
  checker that only complains about idleness stays quiet for the threshold after each beat.
\<close>

locale progress_clock =
  fixes beat :: "instant \<Rightarrow> ('s, unit) state" and idle :: "instant \<Rightarrow> ('s, duration) state"
    and last_beat :: "'s \<Rightarrow> instant"
  assumes beat_max: "wp (beat t) (\<lambda>_ s'. last_beat s' = max t (last_beat s)) s"
    and idle_since: "wp (idle t) (\<lambda>d s'. d = time_Sub t (last_beat s) \<and> s' = s) s"
begin

lemma beat_forward: "wp (beat t) (\<lambda>_ s'. last_beat s \<le> last_beat s' \<and> t \<le> last_beat s') s"
  by (rule wp_mono [OF beat_max]) simp

lemma quiet_after_beat:
  assumes "u - t \<le> threshold" "0 \<le> threshold" "threshold < 2 ^ 63 - 1"
  shows "wp (State_Monad.bind (beat t) (\<lambda>_. idle u)) (\<lambda>d _. d \<le> threshold) s"
proof -
  have "wp (beat t) (\<lambda>_ s'. wp (idle u) (\<lambda>d _. d \<le> threshold) s') s"
  proof (rule wp_mono [OF beat_forward])
    fix s' assume "last_beat s \<le> last_beat s' \<and> t \<le> last_beat s'"
    then have "time_Sub u (last_beat s') \<le> threshold"
      using assms by (simp add: time_Sub_le_iff)
    then show "wp (idle u) (\<lambda>d _. d \<le> threshold) s'"
      by (intro wp_mono [OF idle_since]) simp
  qed
  then show ?thesis by (simp only: wp_bind)
qed

end

interpretation heartbeat: progress_clock "Beat True" "Idle True" p_last
  by unfold_locales (simp_all add: wp_simps Idle_def)

section \<open>Properties\<close>

text \<open>
  A beat never moves the heartbeat back, and for the threshold after a beat the
  idle time it reports stays within the threshold, so the liveness probe passes.
\<close>

theorem beat_keeps_alive:
  assumes "now' - now \<le> threshold" "0 \<le> threshold" "threshold < 2 ^ 63 - 1"
  shows "wp (Beat True now) (\<lambda>_ p'. p_last p \<le> p_last p') p \<and>
    wp (State_Monad.bind (Beat True now) (\<lambda>_. Idle True now')) (\<lambda>idle _. idle \<le> threshold) p"
  using heartbeat.beat_forward heartbeat.quiet_after_beat [OF assms]
  by (auto intro: wp_mono)

text \<open>
  Property C34: the liveness check fails exactly when nothing was reconciled for longer than
  the threshold and the API server, asked successfully, knows a connection or a secret; it
  never fails because the API server cannot be asked.
\<close>

theorem stall_reported_iff:
  assumes "run_state (e_now E) (p_world p) = (now, w1)"
    and "run_state (e_list_connections E ctx list_one) w1 = (conns, w2)"
    and "run_state (e_list_secret_crs E ctx list_one) w2 = (secrets, w3)"
  shows "wp (StallChecker E True threshold ctx) (\<lambda>r _.
    r \<noteq> None \<longleftrightarrow> time_Sub now (p_last p) > threshold \<and>
      (case conns of
         Inl _ \<Rightarrow> False
       | Inr cs \<Rightarrow> cs \<noteq> [] \<or> (case secrets of Inl _ \<Rightarrow> False | Inr ss \<Rightarrow> ss \<noteq> []))) p"
  using assms
  by (cases conns; cases secrets)
    (auto simp: StallChecker_def hasWatchedResources_def Idle_def wp_simps wp_def run_in_world
      split: prod.splits if_splits)

end
