(* ===== verification/Connection_Reconciler.thy ===== *)
theory Connection_Reconciler
  imports Secret_Sync Rate_Backoff Heartbeat
begin

text \<open>
  \<open>internal/controller/ferrvaultconnection_controller.go\<close>: one pass of the
  FerrVaultConnection reconciler: finalizers, the deletion that waits for dependants, and the
  health probe.
\<close>

definition fvConnectionFinalizer :: string where "fvConnectionFinalizer = ''ferrvault.com/connection-cleanup''"
definition connectionProbeInterval :: duration where "connectionProbeInterval = 10 * minute"
definition connectionInUseRequeue :: duration where "connectionInUseRequeue = 30 * second"
definition fvSecretConnectionRefIndexKey :: string where
  "fvSecretConnectionRefIndexKey = ''.spec.connectionRef.name''"

record 'w connection_reconciler =
  cr_Broker :: "'w broker option"
  cr_Heartbeat :: bool

definition set_cn_meta :: "connection \<Rightarrow> objmeta \<Rightarrow> connection" where
  "set_cn_meta conn m = conn\<lparr>cn_meta := m\<rparr>"

text \<open>\<open>conn.Status.LastCheckedAt = &now\<close> and the Ready condition.\<close>

definition checked_status ::
  "'w env \<Rightarrow> connection \<Rightarrow> condition_status \<Rightarrow> string \<Rightarrow> gomsg \<Rightarrow> ('w proc, connection) state" where
  "checked_status E conn status reason message = do {
     now \<leftarrow> in_world (e_now E);
     conds \<leftarrow> setCondition E (cst_Conditions (cn_Status conn)) (new_condition ''Ready'' status reason message);
     ret (conn\<lparr>cn_Status := \<lparr>cst_Conditions = conds, cst_LastCheckedAt = Some now\<rparr>\<rparr>) }"

section \<open>Deletion\<close>

definition dependants_of :: "connection \<Rightarrow> list_options" where
  "dependants_of conn =
     \<lparr>lo_namespace = Some (cn_Namespace conn),
      lo_field = Some (fvSecretConnectionRefIndexKey, cn_Name conn), lo_limit = None\<rparr>"

definition blocked_message :: "fvsecret list \<Rightarrow> gomsg" where
  "blocked_message items =
     (let names = map fs_Name (take 5 items);
          suffix = (if length items > length names
                    then Sprintf '' (and %d more)'' [AInt (int (length items) - int (length names))]
                    else Sprintf [] [])
      in Sprintf ''cannot delete: still referenced by %d FerrVaultSecret(s): %v%s''
           [AInt (int (length items)), AStrs names, AMsg suffix])"

definition handleDelete :: "'w env \<Rightarrow> ctx \<Rightarrow> connection \<Rightarrow> ('w proc, outcome) state" where
  "handleDelete E ctx conn = do {
     listed \<leftarrow> in_world (e_list_secret_crs E ctx (dependants_of conn));
     case listed of
       Inl err \<Rightarrow> ret (fail_with (Wrapf (Sprintf ''list dependants: %w'' [AErr err]) err))
     | Inr items \<Rightarrow>
         if items = [] then do {
           DeleteConnectionReady (cn_Namespace conn) (cn_Name conn);
           case e_RemoveFinalizer E (cn_meta conn) fvConnectionFinalizer of
             (m, changed) \<Rightarrow>
               if changed then do {
                 updated \<leftarrow> in_world (e_update_connection E ctx (set_cn_meta conn m));
                 ret (case updated of
                        Inl err \<Rightarrow> fail_with (Wrapf (Sprintf ''remove finalizer: %w'' [AErr err]) err)
                      | Inr _ \<Rightarrow> requeue 0) }
               else ret (requeue 0) }
         else do {
           conn \<leftarrow> checked_status E conn ConditionFalse ''DeletionBlocked'' (blocked_message items);
           updated \<leftarrow> in_world (e_status_connection E ctx conn);
           ret (case updated of
                  Inl err \<Rightarrow> fail_with (Wrapf (Sprintf ''update status: %w'' [AErr err]) err)
                | Inr _ \<Rightarrow> requeue connectionInUseRequeue) } }"

section \<open>Probe and Reconcile\<close>

text \<open>\<open>context.WithTimeout\<close>: the earlier of the parent's deadline and now plus the timeout.\<close>

definition WithTimeout :: "'w env \<Rightarrow> ctx \<Rightarrow> duration \<Rightarrow> ('w, ctx) state" where
  "WithTimeout E ctx d = do {
     now \<leftarrow> e_now E;
     ret (case ctx of None \<Rightarrow> Some (now + d) | Some t \<Rightarrow> Some (min t (now + d))) }"

record probe_result =
  pr_status :: condition_status
  pr_reason :: string
  pr_message :: gomsg
  pr_err :: "goerror option"

definition probe_failed :: "string \<Rightarrow> goerror \<Rightarrow> probe_result" where
  "probe_failed reason err =
     \<lparr>pr_status = ConditionFalse, pr_reason = reason, pr_message = err_Error err, pr_err = Some err\<rparr>"

definition probe ::
  "'w env \<Rightarrow> 'w connection_reconciler \<Rightarrow> ctx \<Rightarrow> connection \<Rightarrow> ('w proc, probe_result) state" where
  "probe E r ctx conn = do {
     tok \<leftarrow> with_broker (cr_Broker r) E (\<lambda>b. TokenFor E b ctx conn);
     case tok of
       Inl err \<Rightarrow> ret (probe_failed ''TokenUnreadable'' err)
     | Inr token \<Rightarrow>
         (case New (e_pf E) (cs_URL (cn_Spec conn)) token [] of
            Inl err \<Rightarrow> ret (probe_failed ''InvalidConnection'' err)
          | Inr ffc \<Rightarrow> do {
              probeCtx \<leftarrow> in_world (WithTimeout E ctx (15 * second));
              err \<leftarrow> in_world (Probe E ffc probeCtx);
              ret (case err of
                     Some e \<Rightarrow> probe_failed ''Unreachable'' e
                   | None \<Rightarrow>
                       \<lparr>pr_status = ConditionTrue, pr_reason = ''Reachable'',
                        pr_message = Sprintf ''%s responded to /healthz'' [AStr (cs_URL (cn_Spec conn))],
                        pr_err = None\<rparr>) }) }"

definition connection_probe ::
  "'w env \<Rightarrow> 'w connection_reconciler \<Rightarrow> ctx \<Rightarrow> nname \<Rightarrow> connection \<Rightarrow> ('w proc, outcome) state" where
  "connection_probe E r ctx req conn = do {
     pr \<leftarrow> probe E r ctx conn;
     if IsRateLimited (pr_err pr) then do {
       after \<leftarrow> next_delay E ConnectionController req;
       ret (requeue after) }
     else do {
       forget ConnectionController req;
       conn \<leftarrow> checked_status E conn (pr_status pr) (pr_reason pr) (pr_message pr);
       updated \<leftarrow> in_world (e_status_connection E ctx conn);
       case updated of
         Inl err \<Rightarrow> ret (fail_with (Wrapf (Sprintf ''update status: %w'' [AErr err]) err))
       | Inr conn \<Rightarrow> do {
           SetConnectionReady (cn_Namespace conn) (cn_Name conn) (pr_status pr = ConditionTrue);
           ret (requeue connectionProbeInterval) } } }"

definition connection_body ::
  "'w env \<Rightarrow> 'w connection_reconciler \<Rightarrow> ctx \<Rightarrow> nname \<Rightarrow> ('w proc, outcome) state" where
  "connection_body E r ctx req = do {
     got \<leftarrow> in_world (e_get_connection E ctx req);
     case got of
       Inl err \<Rightarrow>
         if e_IsNotFound E err then do {
           DeleteConnectionReady (fst req) (snd req);
           forget ConnectionController req;
           ret (requeue 0) }
         else ret (fail_with (Wrapf (Sprintf ''load FerrVaultConnection: %w'' [AErr err]) err))
     | Inr conn \<Rightarrow>
         if om_deletionTimestamp (cn_meta conn) = None then
           (case e_AddFinalizer E (cn_meta conn) fvConnectionFinalizer of
              (m, changed) \<Rightarrow>
                if changed then do {
                  updated \<leftarrow> in_world (e_update_connection E ctx (set_cn_meta conn m));
                  case updated of
                    Inl err \<Rightarrow> ret (fail_with (Wrapf (Sprintf ''add finalizer: %w'' [AErr err]) err))
                  | Inr conn \<Rightarrow> connection_probe E r ctx req conn }
                else connection_probe E r ctx req (set_cn_meta conn m))
         else handleDelete E ctx conn }"

definition Connection_Reconcile ::
  "'w env \<Rightarrow> 'w connection_reconciler \<Rightarrow> ctx \<Rightarrow> nname \<Rightarrow> ('w proc, outcome) state" where
  "Connection_Reconcile E r ctx req = do {
     res \<leftarrow> connection_body E r ctx req;
     now \<leftarrow> in_world (e_now E);
     Beat (cr_Heartbeat r) now;
     ret res }"

end
