(* ===== verification/Secret_Reconciler.thy ===== *)
theory Secret_Reconciler
  imports Secret_Sync Rate_Backoff Heartbeat
begin

text \<open>
  \<open>internal/controller/ferrvaultsecret_controller.go\<close>: one pass of the FerrVaultSecret
  reconciler.  \<open>Reconcile\<close> is cut into the consecutive parts of the function's body, each
  calling the next: loading and finalizers, the connection and its client, the reveal and its
  errors, the transforms and guards, the write, the rollout and the status.  The label of the
  duration metric is the second result of a part.
\<close>

section \<open>The API client\<close>

text \<open>\<open>ferrvault_client.go\<close>: a \<open>*ferrvault.Client\<close> as the interface the reconciler uses.\<close>

definition api_of_client :: "'w env \<Rightarrow> fv_client \<Rightarrow> 'w fv_api" where
  "api_of_client E c = \<lparr>fc_BulkReveal = BulkReveal E c, fc_RevealFromVault = RevealFromVault E c\<rparr>"

definition defaultClientFactory :: "'w env \<Rightarrow> string \<Rightarrow> string \<Rightarrow> goerror + 'w fv_api" where
  "defaultClientFactory E baseURL token =
     (case New (e_pf E) baseURL token [] of
        Inl err \<Rightarrow> Inl err
      | Inr c \<Rightarrow> Inr (api_of_client E c))"

section \<open>Reconcile\<close>

definition fvSecretFinalizer :: string where "fvSecretFinalizer = ''ferrvault.com/secret-cleanup''"

abbreviation failed :: "('w proc, outcome) state \<Rightarrow> ('w proc, outcome \<times> string) state" where
  "failed m \<equiv> State_Monad.bind m (\<lambda>o'. ret (o', ''failure''))"

definition loadToken ::
  "'w env \<Rightarrow> 'w secret_reconciler \<Rightarrow> ctx \<Rightarrow> connection \<Rightarrow> ('w proc, goerror + string) state" where
  "loadToken E r ctx conn = with_broker (sr_Broker r) E (\<lambda>b. TokenFor E b ctx conn)"

text \<open>The status of a pass that wrote the target Secret.\<close>

definition synced_status ::
  "'w env \<Rightarrow> fvsecret \<Rightarrow> k8s_secret \<Rightarrow> string list \<Rightarrow> string list \<Rightarrow> goerror option \<Rightarrow>
   ('w proc, fvsecret) state" where
  "synced_status E cr secret syncedKeys missing rolloutErr = do {
     now \<leftarrow> in_world (e_now E);
     cr \<leftarrow> ret (set_status (\<lambda>s. s\<lparr>sst_LastSyncedAt := Some now, sst_SyncedKeys := syncedKeys,
       sst_MissingKeys := missing, sst_ObservedGeneration := om_generation (fs_meta cr)\<rparr>) cr);
     cr \<leftarrow> set_cr_condition E cr
       (if missing \<noteq> [] then
          new_condition ''Ready'' ConditionFalse ''MissingKeys''
            (Sprintf ''missing in FerrVault: %v'' [AStrs missing])
        else
          new_condition ''Ready'' ConditionTrue ''Synced''
            (Sprintf ''%d key(s) synced into %s''
              [AInt (int (length syncedKeys)), AStr (om_name (sec_meta secret))]));
     setRolloutCondition E cr rolloutErr }"

definition secret_finish ::
  "'w env \<Rightarrow> 'w secret_reconciler \<Rightarrow> ctx \<Rightarrow> fvsecret \<Rightarrow> reveal_response \<Rightarrow> string gomap \<Rightarrow> string \<Rightarrow>
   string \<Rightarrow> k8s_secret \<Rightarrow> ('w proc, outcome \<times> string) state" where
  "secret_finish E r ctx cr reveal transformed previousHash newHash secret = do {
     (rolloutErr, cr) \<leftarrow> rolloutIfDue E ctx cr previousHash newHash;
     let missing = sort (rv_Missing reveal);
     cr \<leftarrow> synced_status E cr secret (sort (mkeys transformed)) missing rolloutErr;
     updated \<leftarrow> in_world (e_status_secret_cr E ctx cr);
     case updated of
       Inl err \<Rightarrow> ret (fail_with (Wrapf (Sprintf ''update status: %w'' [AErr err]) err), ''failure'')
     | Inr cr \<Rightarrow>
         (case rolloutErr of
            Some e \<Rightarrow> do {
              (if missing = [] then SetLastSyncTimestamp (fs_Namespace cr) (fs_Name cr) (refreshInterval r cr)
               else ret ());
              IncSyncError ''RolloutFailed'';
              ret (fail_with (Wrapf (Sprintf ''rollout restart: %w'' [AErr e]) e), ''failure'') }
          | None \<Rightarrow>
              if missing \<noteq> [] then do {
                IncSyncError ''MissingKeys'';
                ret (requeue (missingKeysRequeue (refreshInterval r cr)), ''failure'') }
              else do {
                SetLastSyncTimestamp (fs_Namespace cr) (fs_Name cr) (refreshInterval r cr);
                ret (requeue (refreshInterval r cr), ''success'') }) }"

definition secret_write ::
  "'w env \<Rightarrow> 'w secret_reconciler \<Rightarrow> ctx \<Rightarrow> fvsecret \<Rightarrow> bool \<Rightarrow> reveal_response \<Rightarrow> string gomap \<Rightarrow>
   ('w proc, outcome \<times> string) state" where
  "secret_write E r ctx cr tokenTarget reveal transformed = do {
     let newHash = hashSecretData transformed;
     previous \<leftarrow> targetContentHash E ctx cr;
     case previous of
       Inl err \<Rightarrow> failed (failReady E r ctx cr ''SecretReadFailed'' (err_Error err))
     | Inr previousHash \<Rightarrow> do {
         recorded \<leftarrow> recordPendingRollout E ctx cr previousHash newHash;
         case recorded of
           Inl err \<Rightarrow> ret (fail_with err, ''failure'')
         | Inr cr \<Rightarrow> do {
             ensured \<leftarrow> ensureTargetSecret E ctx cr transformed newHash (\<not> tokenTarget);
             case ensured of
               Inl err \<Rightarrow>
                 if errors_Is ErrTargetConflict err then
                   failed (failReady E r ctx cr ''TargetConflict'' (err_Error err))
                 else failed (failReady E r ctx cr ''SecretWriteFailed'' (err_Error err))
             | Inr (secret, _) \<Rightarrow>
                 secret_finish E r ctx cr reveal transformed previousHash newHash secret } } }"

definition secret_guard ::
  "'w env \<Rightarrow> 'w secret_reconciler \<Rightarrow> ctx \<Rightarrow> fvsecret \<Rightarrow> bool \<Rightarrow> reveal_response \<Rightarrow> string gomap \<Rightarrow>
   ('w proc, outcome \<times> string) state" where
  "secret_guard E r ctx cr tokenTarget reveal transformed =
     (if rv_Missing reveal \<noteq> [] then do {
        exists \<leftarrow> targetExists E ctx cr;
        case exists of
          Inl err \<Rightarrow> failed (failReady E r ctx cr ''SecretReadFailed'' (err_Error err))
        | Inr e \<Rightarrow>
            if e \<or> transformed = [] then
              (let missing = sort (rv_Missing reveal);
                   cr = set_status (\<lambda>s. s\<lparr>sst_MissingKeys := missing,
                          sst_ObservedGeneration := om_generation (fs_meta cr)\<rparr>) cr
               in failed (failReadyWithRequeue E ctx cr ''MissingKeys''
                    (Sprintf ''missing in FerrVault: %v: %s left unchanged'' [AStrs missing, AStr (targetName cr)])
                    (missingKeysRequeue (refreshInterval r cr))))
            else secret_write E r ctx cr tokenTarget reveal transformed }
      else secret_write E r ctx cr tokenTarget reveal transformed)"

definition secret_apply ::
  "'w env \<Rightarrow> 'w secret_reconciler \<Rightarrow> ctx \<Rightarrow> fvsecret \<Rightarrow> connection \<Rightarrow> reveal_response \<Rightarrow>
   ('w proc, outcome \<times> string) state" where
  "secret_apply E r ctx cr conn reveal =
     (case ApplyTransforms (e_pf E) (rv_Secrets reveal) (ss_Transforms (fs_Spec cr)) of
        (_, Some err) \<Rightarrow> failed (failReady E r ctx cr ''TransformError'' (err_Error err))
      | (transformed, None) \<Rightarrow>
          (let (tokenKey, tokenTarget) = connectionTokenKey conn cr
           in if tokenTarget \<and> map_of transformed tokenKey = None then
                failed (failReadyWithRequeue E ctx cr ''TokenKeyMissing''
                  (Sprintf ''target %s holds the token of connection %s and the synced data has no %q key: left unchanged''
                    [AStr (targetName cr), AStr (cn_Name conn), AStr tokenKey])
                  (missingKeysRequeue (refreshInterval r cr)))
              else secret_guard E r ctx cr tokenTarget reveal transformed))"

definition secret_react ::
  "'w env \<Rightarrow> 'w secret_reconciler \<Rightarrow> ctx \<Rightarrow> nname \<Rightarrow> fvsecret \<Rightarrow> connection \<Rightarrow> goerror + reveal_response \<Rightarrow>
   ('w proc, outcome \<times> string) state" where
  "secret_react E r ctx req cr conn revealed =
     (case revealed of
        Inl err \<Rightarrow>
          if IsRateLimited (Some err) then do {
            after \<leftarrow> next_delay E SecretController req;
            IncSyncError ''RateLimited'';
            ret (requeue after, ''failure'') }
          else do {
            forget SecretController req;
            if IsAuthError (Some err) then
              failed (failReadyWithRequeue E ctx cr ''AuthFailed'' (err_Error err) (5 * minute))
            else if IsNotFound (Some err) then
              failed (failReadyWithRequeue E ctx cr ''VaultNotFound'' (err_Error err) (refreshInterval r cr))
            else
              failed (failReadyWithRequeue E ctx cr ''Unreachable'' (err_Error err) (refreshInterval r cr)) }
      | Inr reveal \<Rightarrow> do {
          forget SecretController req;
          secret_apply E r ctx cr conn reveal })"

definition reveal_call ::
  "'w fv_api \<Rightarrow> ctx \<Rightarrow> fvsecret \<Rightarrow> connection \<Rightarrow> ('w, goerror + reveal_response) state" where
  "reveal_call ffc ctx cr conn =
     (if ResolvedMode conn = ModeFerrVault then
        fc_RevealFromVault ffc ctx (ss_Vault (fs_Spec cr)) (ss_SelectorNames (fs_Spec cr))
      else
        fc_BulkReveal ffc ctx (cs_Organization (cn_Spec conn)) (ss_Project (fs_Spec cr))
          (ss_Vault (fs_Spec cr)) (fs_Namespace cr) (ss_SelectorNames (fs_Spec cr)))"

definition secret_connect ::
  "'w env \<Rightarrow> 'w secret_reconciler \<Rightarrow> ctx \<Rightarrow> nname \<Rightarrow> fvsecret \<Rightarrow> ('w proc, outcome \<times> string) state" where
  "secret_connect E r ctx req cr = do {
     let ref = ss_ConnectionRef (fs_Spec cr);
     got \<leftarrow> in_world (e_get_connection E ctx (fst req, ref));
     case got of
       Inl err \<Rightarrow>
         failed (failReady E r ctx cr ''ConnectionNotFound''
           (Sprintf ''FerrVaultConnection %q: %v'' [AStr ref, AErr err]))
     | Inr conn \<Rightarrow> do {
         tok \<leftarrow> loadToken E r ctx conn;
         case tok of
           Inl err \<Rightarrow> failed (failReady E r ctx cr ''TokenUnreadable'' (err_Error err))
         | Inr token \<Rightarrow>
             (let factory = (case sr_ClientFactory r of None \<Rightarrow> defaultClientFactory E | Some f \<Rightarrow> f)
              in case factory (cs_URL (cn_Spec conn)) token of
                   Inl err \<Rightarrow> failed (failReady E r ctx cr ''InvalidConnection'' (err_Error err))
                 | Inr ffc \<Rightarrow>
                     if ResolvedMode conn = ModeCloud \<and>
                        (cs_Organization (cn_Spec conn) = [] \<or> ss_Project (fs_Spec cr) = []) then
                       failed (failReady E r ctx cr ''MissingCloudScope''
                         (Sprintf ''mode cloud needs organization on the FerrVaultConnection and project on the FerrVaultSecret'' []))
                     else do {
                       revealed \<leftarrow> in_world (reveal_call ffc ctx cr conn);
                       secret_react E r ctx req cr conn revealed }) } }"

definition set_cr_meta :: "fvsecret \<Rightarrow> objmeta \<Rightarrow> fvsecret" where
  "set_cr_meta cr m = cr\<lparr>fs_meta := m\<rparr>"

definition secret_delete ::
  "'w env \<Rightarrow> ctx \<Rightarrow> fvsecret \<Rightarrow> ('w proc, outcome \<times> string) state" where
  "secret_delete E ctx cr = do {
     DeleteLastSyncTimestamp (fs_Namespace cr) (fs_Name cr);
     case e_RemoveFinalizer E (fs_meta cr) fvSecretFinalizer of
       (m, changed) \<Rightarrow>
         if changed then do {
           updated \<leftarrow> in_world (e_update_secret_cr E ctx (set_cr_meta cr m));
           ret (case updated of
                  Inl err \<Rightarrow> (fail_with (Wrapf (Sprintf ''remove finalizer: %w'' [AErr err]) err), ''failure'')
                | Inr _ \<Rightarrow> (requeue 0, ''success'')) }
         else ret (requeue 0, ''success'') }"

definition secret_body ::
  "'w env \<Rightarrow> 'w secret_reconciler \<Rightarrow> ctx \<Rightarrow> nname \<Rightarrow> ('w proc, outcome \<times> string) state" where
  "secret_body E r ctx req = do {
     got \<leftarrow> in_world (e_get_secret_cr E ctx req);
     case got of
       Inl err \<Rightarrow>
         if e_IsNotFound E err then do {
           DeleteLastSyncTimestamp (fst req) (snd req);
           forget SecretController req;
           ret (requeue 0, ''success'') }
         else ret (fail_with (Wrapf (Sprintf ''load FerrVaultSecret: %w'' [AErr err]) err), ''failure'')
     | Inr cr \<Rightarrow>
         if om_deletionTimestamp (fs_meta cr) = None then
           (case e_AddFinalizer E (fs_meta cr) fvSecretFinalizer of
              (m, changed) \<Rightarrow>
                if changed then do {
                  updated \<leftarrow> in_world (e_update_secret_cr E ctx (set_cr_meta cr m));
                  case updated of
                    Inl err \<Rightarrow>
                      ret (fail_with (Wrapf (Sprintf ''add finalizer: %w'' [AErr err]) err), ''failure'')
                  | Inr cr \<Rightarrow> secret_connect E r ctx req cr }
                else secret_connect E r ctx req (set_cr_meta cr m))
         else secret_delete E ctx cr }"

definition Secret_Reconcile ::
  "'w env \<Rightarrow> 'w secret_reconciler \<Rightarrow> ctx \<Rightarrow> nname \<Rightarrow> ('w proc, outcome) state" where
  "Secret_Reconcile E r ctx req = do {
     begin_at \<leftarrow> in_world (e_now E);
     (res, result) \<leftarrow> secret_body E r ctx req;
     end_at \<leftarrow> in_world (e_now E);
     Beat (sr_Heartbeat r) end_at;
     ObserveReconcile E begin_at result;
     ret res }"

end
