(* ===== verification/Watches.thy ===== *)
theory Watches
  imports Connection_Reconciler Secret_Reconciler
begin

text \<open>
  \<open>ferrvaultsecret_watch.go\<close> and the two \<open>SetupWithManager\<close> functions: which objects are
  enqueued when a connection or a Secret changes, and the field indexes the lists use. A list
  that fails enqueues nothing.
\<close>

definition tokenSecretIndexKey :: string where "tokenSecretIndexKey = ''.spec.tokenSecretRef.name''"

section \<open>The index functions\<close>

definition connectionRef_index :: "fvsecret \<Rightarrow> string list" where
  "connectionRef_index s = [ss_ConnectionRef (fs_Spec s)]"

definition tokenSecret_index :: "connection \<Rightarrow> string list" where
  "tokenSecret_index c =
     (case cs_TokenSecretRef (cn_Spec c) of None \<Rightarrow> [] | Some ref \<Rightarrow> [skr_Name ref])"

section \<open>The map functions\<close>

definition fvRequestsForList :: "fvsecret list \<Rightarrow> nname list" where
  "fvRequestsForList items = map (\<lambda>s. (fs_Namespace s, fs_Name s)) items"

definition in_namespace_with :: "string \<Rightarrow> string \<Rightarrow> string \<Rightarrow> list_options" where
  "in_namespace_with ns field val =
     \<lparr>lo_namespace = Some ns, lo_field = Some (field, val), lo_limit = None\<rparr>"

definition secretsReferencingConnection ::
  "'w env \<Rightarrow> ctx \<Rightarrow> objmeta \<Rightarrow> ('w, nname list) state" where
  "secretsReferencingConnection E ctx obj = do {
     listed \<leftarrow> e_list_secret_crs E ctx
       (in_namespace_with (om_namespace obj) fvSecretConnectionRefIndexKey (om_name obj));
     ret (case listed of Inl _ \<Rightarrow> [] | Inr items \<Rightarrow> fvRequestsForList items) }"

fun collect_dependants :: "'w env \<Rightarrow> ctx \<Rightarrow> nname list \<Rightarrow> connection list \<Rightarrow> ('w, nname list) state" where
  "collect_dependants E ctx acc [] = ret acc"
| "collect_dependants E ctx acc (c # cs) = do {
     listed \<leftarrow> e_list_secret_crs E ctx
       (in_namespace_with (cn_Namespace c) fvSecretConnectionRefIndexKey (cn_Name c));
     collect_dependants E ctx
       (case listed of Inl _ \<Rightarrow> acc | Inr items \<Rightarrow> acc @ fvRequestsForList items) cs }"

definition secretsReferencingTokenSecret ::
  "'w env \<Rightarrow> ctx \<Rightarrow> objmeta \<Rightarrow> ('w, nname list) state" where
  "secretsReferencingTokenSecret E ctx obj = do {
     conns \<leftarrow> e_list_connections E ctx
       (in_namespace_with (om_namespace obj) tokenSecretIndexKey (om_name obj));
     case conns of
       Inl _ \<Rightarrow> ret []
     | Inr items \<Rightarrow> if items = [] then ret [] else collect_dependants E ctx [] items }"

definition connectionsReferencingSecret ::
  "'w env \<Rightarrow> ctx \<Rightarrow> objmeta \<Rightarrow> ('w, nname list) state" where
  "connectionsReferencingSecret E ctx obj = do {
     listed \<leftarrow> e_list_connections E ctx
       (in_namespace_with (om_namespace obj) tokenSecretIndexKey (om_name obj));
     ret (case listed of
            Inl _ \<Rightarrow> []
          | Inr items \<Rightarrow> map (\<lambda>c. (cn_Namespace c, cn_Name c)) items) }"

section \<open>SetupWithManager\<close>

datatype object_kind = ODeployment | OStatefulSet | ODaemonSet | OSecret | OFerrVaultSecret | OFerrVaultConnection

text \<open>
  What a builder of controller-runtime collects: the kind reconciled and whether only changes of
  its generation count, the kinds owned, the kinds watched with the function that maps an event's
  object to requests, and the name.  The second component of a source says that only the
  metadata is watched.
\<close>

record 'w controller_setup =
  su_For :: object_kind
  su_GenerationChanged :: bool
  su_Owns :: "(object_kind \<times> bool) list"
  su_Watches :: "(object_kind \<times> bool \<times> (ctx \<Rightarrow> objmeta \<Rightarrow> ('w, nname list) state)) list"
  su_Named :: string

definition secret_setup :: "'w env \<Rightarrow> 'w controller_setup" where
  "secret_setup E =
     \<lparr>su_For = OFerrVaultSecret, su_GenerationChanged = True, su_Owns = [(OSecret, True)],
      su_Watches = [(OFerrVaultConnection, False, secretsReferencingConnection E),
                    (OSecret, True, secretsReferencingTokenSecret E)],
      su_Named = ''ferrvaultsecret''\<rparr>"

definition connection_setup :: "'w env \<Rightarrow> 'w controller_setup" where
  "connection_setup E =
     \<lparr>su_For = OFerrVaultConnection, su_GenerationChanged = True, su_Owns = [],
      su_Watches = [(OSecret, True, connectionsReferencingSecret E)],
      su_Named = ''ferrvaultconnection''\<rparr>"

text \<open>The manager's side: registering a field index, and completing a builder with a reconciler.\<close>

record 'w manager_api =
  ma_IndexSecrets :: "string \<Rightarrow> (fvsecret \<Rightarrow> string list) \<Rightarrow> ('w, goerror option) state"
  ma_IndexConnections :: "string \<Rightarrow> (connection \<Rightarrow> string list) \<Rightarrow> ('w, goerror option) state"
  ma_CompleteSecret :: "'w controller_setup \<Rightarrow> 'w secret_reconciler \<Rightarrow> ('w, goerror option) state"
  ma_CompleteConnection :: "'w controller_setup \<Rightarrow> 'w connection_reconciler \<Rightarrow> ('w, goerror option) state"

definition Secret_SetupWithManager ::
  "'w env \<Rightarrow> 'w manager_api \<Rightarrow> 'w secret_reconciler \<Rightarrow> ('w, goerror option) state" where
  "Secret_SetupWithManager E m r = do {
     err \<leftarrow> ma_IndexSecrets m fvSecretConnectionRefIndexKey connectionRef_index;
     case err of
       Some e \<Rightarrow> ret (Some e)
     | None \<Rightarrow> ma_CompleteSecret m (secret_setup E) r }"

definition Connection_SetupWithManager ::
  "'w env \<Rightarrow> 'w manager_api \<Rightarrow> 'w connection_reconciler \<Rightarrow> ('w, goerror option) state" where
  "Connection_SetupWithManager E m r = do {
     err \<leftarrow> ma_IndexConnections m tokenSecretIndexKey tokenSecret_index;
     case err of
       Some e \<Rightarrow> ret (Some e)
     | None \<Rightarrow> ma_CompleteConnection m (connection_setup E) r }"

end
