(* ===== verification/Client_Facts.thy ===== *)
theory Client_Facts
  imports Http_Client
begin

text \<open>
  What the HTTP client guarantees: the contract of a response classifier and its instances,
  the retry loop against a reference that looks only at the outcomes of the attempts, the size
  of the delays, and the time a call can take.
\<close>

section \<open>Classifiers\<close>

lemma api_status_simps:
  "isRetriable (APIError s m n) \<longleftrightarrow> 500 \<le> s \<and> s \<le> 599"
  "isRetriable (TransportError e n)"
  "\<not> isRetriable (AuthError k m)" "\<not> isRetriable (NotFoundError m)"
  "\<not> isRetriable (Foreign f)" "\<not> isRetriable (Wrapf g (Foreign f))"
  "IsRateLimited (Some (APIError s m n)) \<longleftrightarrow> s = 429"
  "\<not> IsRateLimited (Some (AuthError k m))" "\<not> IsRateLimited (Some (NotFoundError m))"
  "\<not> IsRateLimited (Some (Foreign f))" "\<not> IsRateLimited (Some (Wrapf g (Foreign f)))"
  "\<not> IsRateLimited None"
  by (simp_all add: isRetriable_def IsRateLimited_def http_statuses)

text \<open>
  The contract every classifier keeps: it accepts status 200 only, leaves \<open>out\<close> alone when it
  reports an error, reports as retriable exactly the 5xx statuses and as rate limited exactly 429.
\<close>

locale classifier =
  fixes classify :: "http_response \<Rightarrow> string \<Rightarrow> 'o \<Rightarrow> goerror option \<times> 'o"
  assumes accepts: "classify resp body out = (None, out') \<Longrightarrow> rs_StatusCode resp = 200"
    and leaves_out: "classify resp body out = (Some e, out') \<Longrightarrow> out' = out"
    and retriable_5xx: "classify resp body out = (Some e, out') \<Longrightarrow>
      isRetriable e \<longleftrightarrow> 500 \<le> rs_StatusCode resp \<and> rs_StatusCode resp \<le> 599"
    and limited_429: "classify resp body out = (Some e, out') \<Longrightarrow>
      IsRateLimited (Some e) \<longleftrightarrow> rs_StatusCode resp = 429"
    and api_shape: "classify resp body out = (Some e, out') \<Longrightarrow> isRetriable e \<Longrightarrow> is_APIError e"
begin

lemma error_leaves_out:
  "attempt_result classify sent out = (Some e, out') \<Longrightarrow> out' = out"
  by (auto simp: attempt_result_def split: sum.splits dest: leaves_out)

lemma transport_retriable:
  "attempt_result classify (Inl err) out = (Some (TransportError err 0), out)"
  by (simp add: attempt_result_def)

lemma response_result:
  "rs_Body resp = Inr body \<Longrightarrow> attempt_result classify (Inr resp) out = classify resp body out"
  by (simp add: attempt_result_def)

lemma not_retriable_below_500:
  "classify resp body out = (Some e, out') \<Longrightarrow> rs_StatusCode resp < 500 \<Longrightarrow> \<not> isRetriable e"
  by (simp add: retriable_5xx)

lemma final_outcome:
  assumes "rs_Body resp = Inr body" "\<not> (500 \<le> rs_StatusCode resp \<and> rs_StatusCode resp \<le> 599)"
  shows "\<not> (case fst (attempt_result classify (Inr resp) out) of None \<Rightarrow> False | Some e \<Rightarrow> isRetriable e)"
  using assms by (cases "classify resp body out") (auto simp: response_result split: option.splits dest: retriable_5xx)

lemma limited_not_retriable:
  "classify resp body out = (Some e, out') \<Longrightarrow> IsRateLimited (Some e) \<Longrightarrow> \<not> isRetriable e"
  by (simp add: limited_429 retriable_5xx)

end

interpretation probe: classifier classify_probe
  by unfold_locales (auto simp: classify_probe_def http_statuses api_status_simps split: if_splits)

interpretation oidc: classifier classify_oidc
  by unfold_locales
    (auto simp: classify_oidc_def http_statuses api_status_simps decode_error_def Let_def
      split: if_splits option.splits)

interpretation reveal: classifier "classify_reveal decode" for decode
  by unfold_locales
    (auto simp: classify_reveal_def http_statuses api_status_simps decode_error_def Let_def
      split: if_splits option.splits)

section \<open>The loop against its reference\<close>

text \<open>
  A world that answers the \<open>k\<close>-th request with \<open>sent k\<close>, counts the requests in \<open>cnt\<close>, and
  whose context is never done.
\<close>

definition serves ::
  "'w env \<Rightarrow> ctx \<Rightarrow> ('w, goerror + http_response) state \<Rightarrow> ('w \<Rightarrow> nat) \<Rightarrow>
   (nat \<Rightarrow> goerror + http_response) \<Rightarrow> bool" where
  "serves E ctx send cnt sent \<longleftrightarrow>
     (\<forall>w. fst (run_state (e_ctx_Err E ctx) w) = None) \<and> keeps cnt (e_ctx_Err E ctx) \<and>
     (\<forall>d w. fst (run_state (e_ctx_wait E ctx d) w) = None) \<and> (\<forall>d. keeps cnt (e_ctx_wait E ctx d)) \<and>
     keeps cnt (e_Float64 E) \<and>
     (\<forall>w. fst (run_state send w) = sent (cnt w) \<and> cnt (snd (run_state send w)) = Suc (cnt w))"

lemma keeps_backoff_delay [keeps_intros]:
  "keeps obs (e_Float64 E) \<Longrightarrow> keeps obs (backoff_delay E p attempt)"
  unfolding backoff_delay_def Let_def by (intro keeps_intros)

text \<open>How many of the next \<open>n\<close> requests are retried before the one that ends the loop.\<close>

fun retried :: "(nat \<Rightarrow> bool) \<Rightarrow> nat \<Rightarrow> nat \<Rightarrow> nat" where
  "retried again c 0 = 0"
| "retried again c (Suc n) = (if n = 0 \<or> \<not> again c then 0 else Suc (retried again (Suc c) n))"

lemma retried_less: "0 < n \<Longrightarrow> retried again c n < n"
  by (induction again c n rule: retried.induct) auto

lemma retried_all: "j < retried again c n \<Longrightarrow> again (c + j)"
proof (induction again c n arbitrary: j rule: retried.induct)
  case (2 again c n)
  then show ?case by (cases j) (auto split: if_splits)
qed simp

lemma retried_stop: "0 < n \<Longrightarrow> Suc (retried again c n) < n \<Longrightarrow> \<not> again (c + retried again c n)"
  by (induction again c n rule: retried.induct) (auto split: if_splits)

definition wants_retry :: "goerror option \<Rightarrow> bool" where
  "wants_retry err = (case err of None \<Rightarrow> False | Some e \<Rightarrow> isRetriable e)"

lemma wp_keeps_fst:
  assumes "\<And>w. fst (run_state m w) = x" "keeps obs m" "\<And>t. obs t = obs s \<Longrightarrow> Q x t"
  shows "wp m Q s"
proof (rule wpI)
  fix y t assume r: "run_state m s = (y, t)"
  then show "Q y t" using assms(1) [of s] keepsD [OF assms(2) r] assms(3) by simp
qed

text \<open>One round of the loop, as a condition on what it leads to.\<close>

lemma wp_round:
  "wp (retry_loop E p ctx send classify maxA (Suc n) attempt prev out) Q w =
     wp (e_ctx_Err E ctx) (\<lambda>stopped t.
       case stopped of
         Some err \<Rightarrow> Q (attempt, Some err, out) t
       | None \<Rightarrow> wp send (\<lambda>s u.
           case attempt_result classify s out of
             (None, o1) \<Rightarrow> Q (attempt, None, o1) u
           | (Some e, o1) \<Rightarrow>
               if \<not> isRetriable e \<or> attempt = maxA then Q (attempt, annotateAttempts attempt (Some e), o1) u
               else wp (pause_then E p ctx attempt o1
                 (retry_loop E p ctx send classify maxA n (attempt + 1) (Some e) o1)) Q u) t) w"
proof -
  have after: "wp (let (attemptErr, o1) = attempt_result classify s out
      in case attemptErr of None \<Rightarrow> ret (attempt, None, o1)
         | Some e \<Rightarrow>
             if \<not> isRetriable e \<or> attempt = maxA then ret (attempt, annotateAttempts attempt (Some e), o1)
             else pause_then E p ctx attempt o1
               (retry_loop E p ctx send classify maxA n (attempt + 1) (Some e) o1)) Q =
    (\<lambda>u. case attempt_result classify s out of
       (None, o1) \<Rightarrow> Q (attempt, None, o1) u
     | (Some e, o1) \<Rightarrow>
         if \<not> isRetriable e \<or> attempt = maxA then Q (attempt, annotateAttempts attempt (Some e), o1) u
         else wp (pause_then E p ctx attempt o1
           (retry_loop E p ctx send classify maxA n (attempt + 1) (Some e) o1)) Q u)" for s
    by (rule ext, cases "attempt_result classify s out"; cases "fst (attempt_result classify s out)")
      (simp_all only: fst_conv Let_def prod.case option.case wp_if wp_return)
  show ?thesis
    unfolding retry_loop.simps wp_bind [of "e_ctx_Err E ctx"]
  proof (rule arg_cong [where f = "\<lambda>P. wp (e_ctx_Err E ctx) P w"], intro ext, goal_cases)
    case (1 stopped t)
    show ?case
      by (cases stopped) (simp_all only: option.case wp_return wp_bind after)
  qed
qed

lemma retry_loop_serves:
  assumes "serves E ctx send cnt sent"
    and leaves: "\<And>k e out'. attempt_result classify (sent k) out = (Some e, out') \<Longrightarrow> out' = out"
  shows "0 < n \<Longrightarrow> attempt + int n = maxA + 1 \<Longrightarrow>
    wp (retry_loop E p ctx send classify maxA n attempt prev out) (\<lambda>(a, err, o') w'.
      let i = retried (\<lambda>k. wants_retry (fst (attempt_result classify (sent k) out))) (cnt w) n;
          r = attempt_result classify (sent (cnt w + i)) out
      in a = attempt + int i \<and> cnt w' = cnt w + i + 1 \<and>
         err = annotateAttempts a (fst r) \<and> o' = snd r) w"
proof (induction n arbitrary: attempt prev w)
  case (Suc n)
  have law: "\<And>w. fst (run_state (e_ctx_Err E ctx) w) = None" "keeps cnt (e_ctx_Err E ctx)"
    "\<And>d w. fst (run_state (e_ctx_wait E ctx d) w) = None" "\<And>d. keeps cnt (e_ctx_wait E ctx d)"
    "keeps cnt (e_Float64 E)"
    "\<And>w. fst (run_state send w) = sent (cnt w)" "\<And>w. cnt (snd (run_state send w)) = Suc (cnt w)"
    using assms(1) by (simp_all add: serves_def)
  let ?again = "\<lambda>k. wants_retry (fst (attempt_result classify (sent k) out))"
  define post where "post attempt c n = (\<lambda>(a, err, o') w'.
      let i = retried ?again c n; r = attempt_result classify (sent (c + i)) out
      in a = attempt + int i \<and> cnt w' = c + i + 1 \<and> err = annotateAttempts a (fst r) \<and> o' = snd r)"
    for attempt c n
  obtain err0 o0 where r: "attempt_result classify (sent (cnt w)) out = (err0, o0)" by fastforce
  have next_round: "wp (retry_loop E p ctx send classify maxA n (attempt + 1) (Some e) out)
      (post attempt (cnt w) (Suc n)) t"
    if again: "?again (cnt w)" "n \<noteq> 0" and t: "cnt t = Suc (cnt w)" for e t
  proof -
    have "wp (retry_loop E p ctx send classify maxA n (attempt + 1) (Some e) out)
        (post (attempt + 1) (cnt t) n) t"
      unfolding post_def using Suc.prems again(2) by (intro Suc.IH) simp_all
    then show ?thesis
      by (rule wp_mono) (use again t in \<open>simp add: post_def Let_def split: prod.splits\<close>)
  qed
  have paused: "wp (pause_then E p ctx attempt out (retry_loop E p ctx send classify maxA n (attempt + 1) (Some e) out))
      (post attempt (cnt w) (Suc n)) t"
    if "?again (cnt w)" "n \<noteq> 0" "cnt t = Suc (cnt w)" for e t
    unfolding pause_then_def wp_bind [of "backoff_delay E p attempt"]
    by (rule keeps_wp [OF keeps_backoff_delay [OF law(5)] that(3), THEN wp_mono])
      (auto simp: wp_bind intro!: next_round that(1,2) wp_keeps_fst [OF law(3,4)] simp del: retried.simps)
  have sends: "wp send (\<lambda>s u. s = sent (cnt t) \<and> cnt u = Suc (cnt t)) t" for t
    using law(6,7) [of t] by (auto simp: wp_def split: prod.splits)
  have ends: "post attempt (cnt w) (Suc n) (attempt, annotateAttempts attempt err0, o0) t"
    if "\<not> (?again (cnt w) \<and> n \<noteq> 0)" "cnt t = Suc (cnt w)" for t
    using that r by (auto simp: post_def Let_def)
  have outcome: "case (err0, o0) of (None, o1) \<Rightarrow> post attempt (cnt w) (Suc n) (attempt, None, o1) u
      | (Some e, o1) \<Rightarrow>
          if \<not> isRetriable e \<or> attempt = maxA
          then post attempt (cnt w) (Suc n) (attempt, annotateAttempts attempt (Some e), o1) u
          else wp (pause_then E p ctx attempt o1
            (retry_loop E p ctx send classify maxA n (attempt + 1) (Some e) o1))
            (post attempt (cnt w) (Suc n)) u"
    if u: "cnt u = Suc (cnt w)" for u
  proof (cases "?again (cnt w) \<and> n \<noteq> 0")
    case True
    then obtain e where e: "err0 = Some e" "isRetriable e"
      using r by (auto simp: wants_retry_def split: option.splits)
    then have "o0 = out" using r leaves by simp
    moreover have "attempt \<noteq> maxA" using Suc.prems True by simp
    ultimately show ?thesis using paused [OF _ _ u] True e by simp
  next
    case False
    have "attempt = maxA \<or> \<not> wants_retry err0" using False Suc.prems r by auto
    then show ?thesis
      using ends [OF False u] by (cases err0) (auto simp: wants_retry_def annotateAttempts_def)
  qed
  have "wp (retry_loop E p ctx send classify maxA (Suc n) attempt prev out)
      (post attempt (cnt w) (Suc n)) w"
    unfolding wp_round
  proof (rule wp_keeps_fst [OF law(1,2)])
    fix t assume t: "cnt t = cnt w"
    have "wp send (\<lambda>s u. s = sent (cnt w) \<and> cnt u = Suc (cnt w)) t"
      using sends [of t] by (simp only: t)
    then have "wp send (\<lambda>s u. case attempt_result classify s out of
          (None, o1) \<Rightarrow> post attempt (cnt w) (Suc n) (attempt, None, o1) u
        | (Some e, o1) \<Rightarrow>
            if \<not> isRetriable e \<or> attempt = maxA
            then post attempt (cnt w) (Suc n) (attempt, annotateAttempts attempt (Some e), o1) u
            else wp (pause_then E p ctx attempt o1
              (retry_loop E p ctx send classify maxA n (attempt + 1) (Some e) o1))
              (post attempt (cnt w) (Suc n)) u) t"
      by (rule wp_mono) (use outcome r in \<open>simp only:\<close>)
    then show "case None of None \<Rightarrow> wp send (\<lambda>s u. case attempt_result classify s out of
          (None, o1) \<Rightarrow> post attempt (cnt w) (Suc n) (attempt, None, o1) u
        | (Some e, o1) \<Rightarrow>
            if \<not> isRetriable e \<or> attempt = maxA
            then post attempt (cnt w) (Suc n) (attempt, annotateAttempts attempt (Some e), o1) u
            else wp (pause_then E p ctx attempt o1
              (retry_loop E p ctx send classify maxA n (attempt + 1) (Some e) o1))
              (post attempt (cnt w) (Suc n)) u) t
      | Some err \<Rightarrow> post attempt (cnt w) (Suc n) (attempt, Some err, out) t"
      by (simp only: option.case)
  qed
  then show ?case by (simp only: post_def)
qed simp

section \<open>The delays\<close>

lemma float_to_int64_small: "0 \<le> x \<Longrightarrow> x < 2 ^ 63 \<Longrightarrow> float_to_int64 pf x = \<lfloor>x\<rfloor>"
  by (simp add: float_to_int64_def trunc_def floor_less_iff)

lemma scaled_float:
  assumes "0 \<le> n" "n < 2 ^ 53"
  shows "is_float (of_int n / 4)"
  using is_float_scaled [OF assms, of 2] by simp

text \<open>A delay with a quarter of jitter lies between three and five quarters of its base.\<close>

lemma jittered_bounds:
  assumes b: "0 < b" "5 * b < 2 ^ 53" and f: "0 \<le> f" "f < 1"
  defines "mult \<equiv> fl64 (fl64 (1 - 1 / 4) + fl64 (fl64 (2 * (1 / 4)) * f))"
  shows "3 * b div 4 \<le> float_to_int64 pf (fl64 (fl64 (of_int b) * mult)) \<and>
    float_to_int64 pf (fl64 (fl64 (of_int b) * mult)) \<le> 5 * b div 4"
proof -
  have quarters: "fl64 (1 - 1 / 4) = 3 / 4" "fl64 (2 * (1 / 4)) = 1 / 2" "is_float (3 / 4)" "is_float (5 / 4)"
    "is_float (1 / 2)" "is_float 0"
    using fl64_float scaled_float [of 3] scaled_float [of 2] scaled_float [of 5] scaled_float [of 0] by simp_all
  have half: "0 \<le> fl64 (1 / 2 * f) \<and> fl64 (1 / 2 * f) \<le> 1 / 2"
  proof (cases "f = 0")
    case False
    with f show ?thesis using quarters by (intro fl64_between) simp_all
  qed simp
  have mult: "3 / 4 \<le> mult" "mult \<le> 5 / 4"
    unfolding mult_def quarters(1,2)
    using fl64_between [of "3 / 4 + fl64 (1 / 2 * f)" "3 / 4" "5 / 4"] half quarters by simp_all
  have base: "fl64 (of_int b) = (of_int b :: rat)"
    using b by (intro fl64_float is_float_int) simp_all
  define d where "d = fl64 (of_int b * mult)"
  have d: "of_int (3 * b) / 4 \<le> d" "d \<le> of_int (5 * b) / 4"
  proof -
    have "of_int b * (3 / 4) \<le> of_int b * mult" "of_int b * mult \<le> of_int b * (5 / 4)"
      using mult b(1) by (simp_all add: mult_left_mono)
    moreover have "0 < of_int b * mult" using mult b(1) by simp
    ultimately show "of_int (3 * b) / 4 \<le> d" "d \<le> of_int (5 * b) / 4"
      using b fl64_between [of "of_int b * mult" "of_int (3 * b) / 4" "of_int (5 * b) / 4"]
        scaled_float [of "3 * b"] scaled_float [of "5 * b"] unfolding d_def by simp_all
  qed
  have five: "(of_int (5 * b) :: rat) < of_int (2 ^ 53)" using b by (simp only: of_int_less_iff)
  have "0 \<le> d" using d(1) b(1) by (simp add: order_trans [rotated])
  moreover have "d < 2 ^ 63" using d(2) five by simp
  ultimately have "float_to_int64 pf d = \<lfloor>d\<rfloor>" by (rule float_to_int64_small)
  moreover have "\<lfloor>of_int (3 * b) / 4 :: rat\<rfloor> \<le> \<lfloor>d\<rfloor>" "\<lfloor>d\<rfloor> \<le> \<lfloor>of_int (5 * b) / 4 :: rat\<rfloor>"
    using d by (intro floor_mono, simp)+
  moreover have "\<lfloor>of_int (3 * b) / 4 :: rat\<rfloor> = 3 * b div 4" "\<lfloor>of_int (5 * b) / 4 :: rat\<rfloor> = 5 * b div 4"
    using floor_divide_of_int_eq [of "3 * b" 4, where ?'a = rat]
      floor_divide_of_int_eq [of "5 * b" 4, where ?'a = rat] by simp_all
  ultimately show ?thesis by (simp add: base d_def)
qed

lemma longest_delay_quarter:
  assumes "0 < b" "5 * b < 2 ^ 53"
  shows "float_to_int64 pf (fl64 (fl64 (of_int b) * fl64 (1 + 1 / 4))) = 5 * b div 4"
proof -
  have q: "fl64 (1 + 1 / 4) = 5 / 4"
    using fl64_float [OF scaled_float [of 5]] by simp
  have b: "fl64 (of_int b) = (of_int b :: rat)"
    using is_float_int [of b] assms by (simp add: fl64_float)
  have scale: "of_int b * (5 / 4 :: rat) = of_int (5 * b) / of_int 4" by simp
  have "is_float (of_int (5 * b) / of_int 4)"
    using scaled_float [of "5 * b"] assms by simp
  then have d: "fl64 (of_int (5 * b) / of_int 4) = of_int (5 * b) / of_int 4" by (rule fl64_float)
  have "(of_int (5 * b) :: rat) < of_int (2 ^ 53)" using assms by (simp only: of_int_less_iff)
  then have "float_to_int64 pf (of_int (5 * b) / of_int 4) = \<lfloor>of_int (5 * b) / of_int 4 :: rat\<rfloor>"
    using assms by (intro float_to_int64_small) simp_all
  then show ?thesis
    by (simp only: q b scale d floor_divide_of_int_eq)
qed

lemmas default_policy = DefaultRetryPolicy_def RequestTimeout_def duration_units

lemma LongestCall_default: "LongestCall pf DefaultRetryPolicy RequestTimeout = 30625 * millisecond"
proof -
  have "float_to_int64 pf (fl64 (fl64 100000000 * fl64 (5 / 4))) = 125000000"
    "float_to_int64 pf (fl64 (fl64 400000000 * fl64 (5 / 4))) = 500000000"
    using longest_delay_quarter [of 100000000 pf] longest_delay_quarter [of 400000000 pf] by simp_all
  then show ?thesis
    by (simp add: LongestCall_def longest_delay_def default_policy wrap64_def upt_rec)
qed

definition delay_cap :: "int \<Rightarrow> duration" where
  "delay_cap attempt = 5 * (rp_Backoff DefaultRetryPolicy ! nat (min (attempt - 1) 2)) div 4"

lemma default_delay:
  assumes "draws_in_range E" "1 \<le> attempt"
  shows "wp (backoff_delay E DefaultRetryPolicy attempt) (\<lambda>d _.
    3 * (rp_Backoff DefaultRetryPolicy ! nat (min (attempt - 1) 2)) div 4 \<le> d \<and> d \<le> delay_cap attempt) w"
proof -
  define b where "b = rp_Backoff DefaultRetryPolicy ! nat (min (attempt - 1) 2)"
  have ix: "nat (min (attempt - 1) 2) \<in> {0, 1, 2}" by auto
  have b: "0 < b" "5 * b < 2 ^ 53"
    using ix by (auto simp: b_def default_policy)
  have "(if attempt - 1 \<ge> 3 then 3 - 1 else attempt - 1) = min (attempt - 1) 2" by simp
  then have run: "backoff_delay E DefaultRetryPolicy attempt = State_Monad.bind (e_Float64 E) (\<lambda>f.
      ret (float_to_int64 (e_pf E) (fl64 (fl64 (of_int b) *
        fl64 (fl64 (1 - 1 / 4) + fl64 (fl64 (2 * (1 / 4)) * f))))))"
    by (simp add: backoff_delay_def b_def DefaultRetryPolicy_def Let_def)
  obtain f w' where f: "run_state (e_Float64 E) w = (f, w')" by fastforce
  have "0 \<le> f" "f < 1"
    using assms(1) f unfolding draws_in_range_def by (metis fst_conv)+
  from jittered_bounds [OF b this, of "e_pf E"] show ?thesis
    unfolding run wp_bind wp_return wp_def [of "e_Float64 E"] f delay_cap_def b_def [symmetric] by simp
qed

section \<open>The time a call takes\<close>

text \<open>On a clock of the world: the run takes at most \<open>b\<close>.\<close>

definition elapses :: "('w \<Rightarrow> int) \<Rightarrow> ('w, 'a) state \<Rightarrow> int \<Rightarrow> bool" where
  "elapses clk m b = (\<forall>w. wp m (\<lambda>_ t. clk t \<le> clk w + b) w)"

text \<open>
  Only requests and waits take time: a request at most its timeout, a wait at most its delay.
\<close>

definition timed :: "('w \<Rightarrow> int) \<Rightarrow> 'w env \<Rightarrow> bool" where
  "timed clk E \<longleftrightarrow>
     (\<forall>c. keeps clk (e_ctx_Err E c)) \<and> keeps clk (e_Float64 E) \<and>
     (\<forall>c d. 0 < d \<longrightarrow> elapses clk (e_ctx_wait E c d) d) \<and>
     (\<forall>d c r. 0 \<le> d \<longrightarrow> elapses clk (e_http_Do E d c r) d)"

lemma elapsesD: "elapses clk m b \<Longrightarrow> wp m (\<lambda>_ t. clk t \<le> clk w + b) w"
  by (simp add: elapses_def)

lemma pause_elapses:
  assumes "timed clk E" "clk t + D \<le> b" "0 \<le> D"
    and "wp (backoff_delay E p attempt) (\<lambda>d _. d \<le> D) t"
    and retry: "\<And>u. clk u \<le> clk t + D \<Longrightarrow> wp retry (\<lambda>_ v. clk v \<le> b) u"
  shows "wp (pause_then E p ctx attempt o' retry) (\<lambda>_ v. clk v \<le> b) t"
  unfolding pause_then_def wp_bind [of "backoff_delay E p attempt"]
proof (rule wp_mono)
  show "wp (backoff_delay E p attempt) (\<lambda>d u. d \<le> D \<and> clk u = clk t) t"
    using assms(1) by (intro wp_conj assms(4) keeps_wp keeps_backoff_delay) (simp_all add: timed_def)
  fix d u assume du: "d \<le> D \<and> clk u = clk t"
  have "wp (e_ctx_wait E ctx d) (\<lambda>_ v. clk v \<le> clk u + d) u" if "0 < d"
    using assms(1) that by (intro elapsesD) (simp add: timed_def)
  then have wait: "wp (e_ctx_wait E ctx d) (\<lambda>_ v. clk v \<le> clk t + D) u" if "0 < d"
    using that du by (auto elim: wp_mono)
  show "wp (if d \<le> 0 then retry else State_Monad.bind (e_ctx_wait E ctx d) (\<lambda>woken.
      case woken of None \<Rightarrow> retry | Some err \<Rightarrow> ret (attempt, Some err, o'))) (\<lambda>_ v. clk v \<le> b) u"
    using du assms(2,3)
    by (auto simp: wp_simps intro!: retry wp_mono [OF wait] split: option.splits)
qed

lemma retry_loop_elapses:
  assumes "timed clk E" "elapses clk send T" "0 \<le> T" "\<And>a. 0 \<le> D a"
    and delays: "\<And>a w. 1 \<le> a \<Longrightarrow> wp (backoff_delay E p a) (\<lambda>d _. d \<le> D a) w"
  shows "1 \<le> attempt \<Longrightarrow> 0 < n \<Longrightarrow> attempt + int n = maxA + 1 \<Longrightarrow>
    wp (retry_loop E p ctx send classify maxA n attempt prev out)
      (\<lambda>_ t. clk t \<le> clk w + int n * T + (\<Sum>i<n - 1. D (attempt + int i))) w"
proof (induction n arbitrary: attempt prev out w)
  case (Suc n)
  let ?S = "\<Sum>i<n. D (attempt + int i)"
  have S: "0 \<le> ?S" "0 \<le> int n * T" using assms(3,4) by (simp_all add: sum_nonneg)
  have sums: "?S = D attempt + (\<Sum>i<n - 1. D (attempt + 1 + int i))" if pos: "0 < n"
  proof -
    obtain k where "n = Suc k" using pos by (cases n) auto
    then show ?thesis by (simp add: sum.lessThan_Suc_shift add_ac del: sum.lessThan_Suc)
  qed
  define B where "B = clk w + int (Suc n) * T + ?S"
  have one: "D attempt \<le> ?S" if "0 < n"
    using sums [OF that] sum_nonneg [of "{..<n - 1}" "\<lambda>i. D (attempt + 1 + int i)"] assms(4) by simp
  have next_round: "wp (retry_loop E p ctx send classify maxA n (attempt + 1) e o1)
      (\<lambda>_ v. clk v \<le> B) t"
    if "0 < n" and t: "clk t \<le> clk w + T + D attempt" for e o1 t
  proof -
    have "wp (retry_loop E p ctx send classify maxA n (attempt + 1) e o1)
      (\<lambda>_ u. clk u \<le> clk t + int n * T + (\<Sum>i<n - 1. D (attempt + 1 + int i))) t"
      using Suc.prems that by (intro Suc.IH) simp_all
    then show ?thesis
      by (rule wp_mono) (use t sums [OF \<open>0 < n\<close>] in \<open>simp add: B_def algebra_simps\<close>)
  qed
  have stop: "clk t \<le> B" if "clk t \<le> clk w + T" for t
    using that S by (simp add: B_def algebra_simps)
  have paused: "wp (pause_then E p ctx attempt o1 (retry_loop E p ctx send classify maxA n (attempt + 1) e o1))
      (\<lambda>_ v. clk v \<le> B) t"
    if "attempt \<noteq> maxA" "clk t \<le> clk w + T" for e o1 t
  proof -
    have n: "0 < n" using Suc.prems that by (cases n) simp_all
    have "clk t + D attempt \<le> B"
      using that(2) one [OF n] S by (simp add: B_def algebra_simps)
    then show ?thesis
      using Suc.prems that(2)
      by (intro pause_elapses [OF assms(1) _ assms(4) delays] next_round n) simp_all
  qed
  have sent: "wp send (\<lambda>_ u. clk u \<le> clk w + T) t" if "clk t = clk w" for t
    using elapsesD [OF assms(2), of t] that by simp
  have "wp (e_ctx_Err E ctx) (\<lambda>_ t. clk t = clk w) w"
    using assms(1) by (intro keeps_wp) (simp_all add: timed_def)
  then have "wp (retry_loop E p ctx send classify maxA (Suc n) attempt prev out)
      (\<lambda>_ t. clk t \<le> B) w"
    unfolding wp_round
  proof (rule wp_mono)
    fix stopped t assume t: "clk t = clk w"
    have "wp send (\<lambda>s u. case attempt_result classify s out of
             (None, o1) \<Rightarrow> clk u \<le> B
           | (Some e, o1) \<Rightarrow>
               if \<not> isRetriable e \<or> attempt = maxA then clk u \<le> B
               else wp (pause_then E p ctx attempt o1
                 (retry_loop E p ctx send classify maxA n (attempt + 1) (Some e) o1))
                 (\<lambda>_ t. clk t \<le> B) u) t"
      by (rule wp_mono [OF sent [OF t]]) (auto split: prod.splits option.splits intro!: stop paused)
    moreover have "clk t \<le> B" using stop [of t] t assms(3) by simp
    ultimately show "case stopped of None \<Rightarrow> wp send (\<lambda>s u. case attempt_result classify s out of
             (None, o1) \<Rightarrow> clk u \<le> B
           | (Some e, o1) \<Rightarrow>
               if \<not> isRetriable e \<or> attempt = maxA then clk u \<le> B
               else wp (pause_then E p ctx attempt o1
                 (retry_loop E p ctx send classify maxA n (attempt + 1) (Some e) o1))
                 (\<lambda>_ t. clk t \<le> B) u) t
      | Some err \<Rightarrow> clk t \<le> B"
      by (cases stopped) (simp_all only: option.case)
  qed
  then show ?case by (simp only: B_def diff_Suc_1)
qed simp

section \<open>Whole calls\<close>

lemma retried_takeWhile: "retried again c n = length (takeWhile again [c ..< c + n - 1])"
proof (induction again c n rule: retried.induct)
  case (2 again c n)
  then show ?case by (cases n) (auto simp: upt_rec)
qed simp

lemma doWithRetry_serves:
  assumes "serves E ctx send cnt sent"
    and "\<And>k e out'. attempt_result classify (sent k) out = (Some e, out') \<Longrightarrow> out' = out"
  shows "wp (doWithRetry E c ctx send classify out) (\<lambda>(a, err, o') w'.
      let m = nat (max 1 (rp_MaxAttempts (c_retry c)));
          i = retried (\<lambda>k. wants_retry (fst (attempt_result classify (sent k) out))) (cnt w) m;
          r = attempt_result classify (sent (cnt w + i)) out
      in a = int i + 1 \<and> cnt w' = cnt w + i + 1 \<and> err = annotateAttempts a (fst r) \<and> o' = snd r) w"
proof -
  have m: "(if rp_MaxAttempts (c_retry c) < 1 then 1 else rp_MaxAttempts (c_retry c)) =
      max 1 (rp_MaxAttempts (c_retry c))" by simp
  show ?thesis
    unfolding doWithRetry_def Let_def m
    by (rule wp_mono [OF retry_loop_serves [OF assms]]) (auto simp: Let_def)
qed

text \<open>
  The same law on the requests of a client: the \<open>k\<close>-th one is answered with \<open>sent k\<close>.
\<close>

definition api_answers ::
  "'w env \<Rightarrow> ctx \<Rightarrow> ('w \<Rightarrow> nat) \<Rightarrow> (nat \<Rightarrow> goerror + http_response) \<Rightarrow> bool" where
  "api_answers E ctx cnt sent \<longleftrightarrow> (\<forall>d req. serves E ctx (e_http_Do E d ctx req) cnt sent)"

lemma api_request_serves:
  assumes "api_answers E ctx cnt sent" and "url_Parse (e_pf E) target \<noteq> None"
  shows "serves E ctx (send_request E c ctx (build_request (e_pf E) what verb target body hs)) cnt sent"
  using assms by (auto simp: api_answers_def send_request_def build_request_def)

lemma stamps_keep_kind:
  "errors_As is_AuthError (stamp_api n e) = None \<longleftrightarrow> errors_As is_AuthError e = None"
  "errors_As is_NotFoundError (stamp_api n e) = None \<longleftrightarrow> errors_As is_NotFoundError e = None"
  "errors_As is_TransportError (stamp_api n e) = None \<longleftrightarrow> errors_As is_TransportError e = None"
  "errors_As is_AuthError (stamp_transport n e) = None \<longleftrightarrow> errors_As is_AuthError e = None"
  "errors_As is_NotFoundError (stamp_transport n e) = None \<longleftrightarrow> errors_As is_NotFoundError e = None"
  "errors_As is_TransportError (stamp_transport n e) = None \<longleftrightarrow> errors_As is_TransportError e = None"
  "errors_As is_APIError (stamp_transport n e) = errors_As is_APIError e"
  "map_option api_status (errors_As is_APIError (stamp_api n e)) = map_option api_status (errors_As is_APIError e)"
  by (induction n e rule: stamp_api.induct; simp)+

lemma annotate_keeps_kind [simp]:
  "IsAuthError (annotateAttempts n err) = IsAuthError err"
  "IsNotFound (annotateAttempts n err) = IsNotFound err"
  "IsRateLimited (annotateAttempts n err) = IsRateLimited err"
  "wants_retry (annotateAttempts n err) = wants_retry err"
  "annotateAttempts n err = None \<longleftrightarrow> err = None"
proof -
  have api: "(case errors_As is_APIError (stamp_api n (stamp_transport n e)) of None \<Rightarrow> False | Some a \<Rightarrow> P (api_status a))
      = (case errors_As is_APIError e of None \<Rightarrow> False | Some a \<Rightarrow> P (api_status a))" for e and P :: "int \<Rightarrow> bool"
    using stamps_keep_kind(8) [of n "stamp_transport n e"] stamps_keep_kind(7) [of n e]
    by (auto split: option.splits)
  show "IsAuthError (annotateAttempts n err) = IsAuthError err"
    "IsNotFound (annotateAttempts n err) = IsNotFound err"
    by (cases err; simp add: IsAuthError_def IsNotFound_def annotateAttempts_def stamps_keep_kind)+
  show "IsRateLimited (annotateAttempts n err) = IsRateLimited err"
    using api [where P = "\<lambda>s. s = StatusTooManyRequests"]
    by (cases err) (simp_all add: IsRateLimited_def annotateAttempts_def)
  show "wants_retry (annotateAttempts n err) = wants_retry err"
    using api [where P = "\<lambda>s. 500 \<le> s \<and> s \<le> 599"]
    by (cases err) (simp_all add: wants_retry_def isRetriable_def annotateAttempts_def stamps_keep_kind)
  show "annotateAttempts n err = None \<longleftrightarrow> err = None" by (simp add: annotateAttempts_def)
qed

text \<open>The count a typed error carries.\<close>

fun Attempts :: "goerror \<Rightarrow> int option" where
  "Attempts (TransportError _ n) = Some n"
| "Attempts (APIError _ _ n) = Some n"
| "Attempts _ = None"

lemma Attempts_annotate:
  "is_TransportError e \<or> is_APIError e \<Longrightarrow> \<exists>f. annotateAttempts n (Some e) = Some f \<and> Attempts f = Some n"
  by (cases e) (simp_all add: annotateAttempts_def)

text \<open>An attempt that is not to be retried ends the call.\<close>

lemma single_attempt:
  assumes "serves E ctx send cnt sent"
    and "\<And>k e out'. attempt_result classify (sent k) out = (Some e, out') \<Longrightarrow> out' = out"
    and "\<not> wants_retry (fst (attempt_result classify (sent (cnt w)) out))"
  shows "wp (doWithRetry E c ctx send classify out) (\<lambda>(a, err, o') w'.
      a = 1 \<and> cnt w' = Suc (cnt w) \<and> o' = snd (attempt_result classify (sent (cnt w)) out) \<and>
      err = annotateAttempts 1 (fst (attempt_result classify (sent (cnt w)) out))) w"
proof -
  have "retried (\<lambda>k. wants_retry (fst (attempt_result classify (sent k) out))) (cnt w) m = 0" for m
    using assms(3) by (cases m) simp_all
  then show ?thesis
    by (intro wp_mono [OF doWithRetry_serves [OF assms(1,2)]]) (auto simp: Let_def)
qed

lemma all_attempts:
  assumes "serves E ctx send cnt sent"
    and "\<And>k e out'. attempt_result classify (sent k) out = (Some e, out') \<Longrightarrow> out' = out"
    and fail: "\<And>k. wants_retry (fst (attempt_result classify (sent k) out))"
  shows "wp (doWithRetry E c ctx send classify out) (\<lambda>(a, err, o') w'.
      a = max 1 (rp_MaxAttempts (c_retry c)) \<and> int (cnt w') = int (cnt w) + a \<and> wants_retry err \<and>
      err = annotateAttempts a (fst (attempt_result classify (sent (cnt w + nat a - 1)) out))) w"
proof -
  have "0 < m \<Longrightarrow> retried (\<lambda>k. wants_retry (fst (attempt_result classify (sent k) out))) c m = m - 1" for c m
    by (simp add: retried_takeWhile takeWhile_eq_all_conv [THEN iffD2] fail)
  then show ?thesis
    using fail
    by (intro wp_mono [OF doWithRetry_serves [OF assms(1,2)]]) (auto simp: Let_def)
qed

section \<open>URLs\<close>

lemma unhex_upper [simp]: "n < 16 \<Longrightarrow> unhex (hex_digit_upper n) = Some n"
proof -
  assume "n < 16"
  then consider "n < 10" | "10 \<le> n" "n < 16" by linarith
  then show ?thesis
    by cases (simp_all add: unhex_def hex_digit_upper_def Let_def)
qed

text \<open>A path decodes once to what was encoded.\<close>

lemma path_unescape_escape: "url_unescape EncPath (url_escape EncPath s) = Some s"
proof (induction s)
  case (Cons c s)
  have "byte c div 16 < 16" "byte c mod 16 < 16" using byte_less [of c] by (auto simp: less_mult_imp_div_less)
  moreover have "chr (16 * (byte c div 16) + byte c mod 16) = c" by simp
  moreover have "c = CHR ''%'' \<Longrightarrow> shouldEscape c EncPath"
    by (simp add: shouldEscape_def is_alnum_def byte_def)
  ultimately show ?case using Cons by (auto simp: url_escape_def escape_char_def percent_def)
qed (simp add: url_escape_def)

lemma unescape_EscapedPath: "url_unescape EncPath (EscapedPath u) = Some (u_Path u)"
  by (auto simp: EscapedPath_def path_unescape_escape)

text \<open>What the answer to a reveal call decides.\<close>

lemma reveal_answered:
  assumes "api_answers E ctx cnt sent" and "sent (cnt w) = Inr resp" and "rs_Body resp = Inr body"
    and "\<not> (500 \<le> rs_StatusCode resp \<and> rs_StatusCode resp \<le> 599)"
    and "url_Parse (e_pf E) (url_String (endpoint c ''/operator/secrets/reveal'')) \<noteq> None"
  shows "wp (RevealFromVault E c ctx vault names) (\<lambda>r w'. cnt w' = Suc (cnt w) \<and>
      (case r of
         Inr _ \<Rightarrow> rs_StatusCode resp = 200
       | Inl e \<Rightarrow>
           (IsAuthError (Some e) \<longleftrightarrow> rs_StatusCode resp \<in> {401, 403}) \<and>
           (IsNotFound (Some e) \<longleftrightarrow> rs_StatusCode resp = 404) \<and>
           (IsRateLimited (Some e) \<longleftrightarrow> rs_StatusCode resp = 429))) w"
proof -
  define send where "send = send_request E c ctx (build_request (e_pf E) ''ferrvault: build request: %w''
    ''POST'' (url_String (endpoint c ''/operator/secrets/reveal'')) (Some (vault_payload vault names))
    [(''Authorization'', ''Bearer '' @ c_token c), (''Accept'', ''application/json''),
     (''Content-Type'', ''application/json'')])"
  have s: "serves E ctx send cnt sent"
    unfolding send_def by (rule api_request_serves [OF assms(1,5)])
  have kinds: "(IsAuthError (Some e) \<longleftrightarrow> rs_StatusCode resp \<in> {401, 403}) \<and>
      (IsNotFound (Some e) \<longleftrightarrow> rs_StatusCode resp = 404) \<and>
      (IsRateLimited (Some e) \<longleftrightarrow> rs_StatusCode resp = 429)"
    if "fst (classify_reveal d resp body o0) = Some e" for e d and o0 :: vault_reveal_response
    using that
    by (auto simp: classify_reveal_def http_statuses decode_error_def Let_def IsAuthError_def IsNotFound_def
        IsRateLimited_def split: if_splits option.splits)
  have ok: "rs_StatusCode resp = 200" if "fst (classify_reveal d resp body o0) = None"
    for d and o0 :: vault_reveal_response
    using reveal.accepts that by (cases "classify_reveal d resp body o0") auto
  let ?r = "attempt_result (classify_reveal decode_vault_reveal) (sent (cnt w)) no_vault_reveal"
  have one: "wp (doWithRetry E c ctx send (classify_reveal decode_vault_reveal) no_vault_reveal)
      (\<lambda>(a, err, o') w'. a = 1 \<and> cnt w' = Suc (cnt w) \<and> o' = snd ?r \<and> err = annotateAttempts 1 (fst ?r)) w"
  proof (rule single_attempt [OF s reveal.error_leaves_out])
    show "\<not> wants_retry (fst ?r)"
      using reveal.final_outcome [OF assms(3,4), of decode_vault_reveal no_vault_reveal]
      by (simp only: assms(2) wants_retry_def not_False_eq_True)
  qed
  have r: "?r = classify_reveal decode_vault_reveal resp body no_vault_reveal"
    by (simp add: assms(2) reveal.response_result [OF assms(3)])
  show ?thesis
    unfolding RevealFromVault_def Let_def wp_bind send_def [symmetric]
  proof (rule wp_mono [OF one], clarify, goal_cases)
    case (1 a err o' w')
    show ?case
    proof (cases "fst ?r")
      case None
      then show ?thesis using 1 ok r by (simp add: annotateAttempts_def wp_return)
    next
      case (Some e)
      then obtain e' where e': "annotateAttempts 1 (fst ?r) = Some e'" by (simp add: annotateAttempts_def)
      have k: "(IsAuthError (Some e) \<longleftrightarrow> rs_StatusCode resp \<in> {401, 403}) \<and>
          (IsNotFound (Some e) \<longleftrightarrow> rs_StatusCode resp = 404) \<and>
          (IsRateLimited (Some e) \<longleftrightarrow> rs_StatusCode resp = 429)"
        using Some by (intro kinds [of decode_vault_reveal no_vault_reveal]) (simp only: r)
      have x: "Some e' = annotateAttempts 1 (Some e)" using e' Some by simp
      have "IsAuthError (Some e') = IsAuthError (Some e)" "IsNotFound (Some e') = IsNotFound (Some e)"
        "IsRateLimited (Some e') = IsRateLimited (Some e)"
        by (simp_all only: x annotate_keeps_kind)
      with k 1 e' show ?thesis by (simp only: option.case wp_return sum.case)
    qed
  qed
qed

section \<open>Properties\<close>

text \<open>
  Property C5: the retry loop does what its description says and nothing else. Against a server
  that answers the k-th request with \<open>sent k\<close>, it stops at the first answer that is not to be
  retried, or after the last permitted attempt; it makes exactly that many requests, returns
  that answer's outcome and counts the attempts it reports.
\<close>

theorem retry_loop_reference:
  assumes "serves E ctx send cnt sent"
    and "\<And>k e out'. attempt_result classify (sent k) out = (Some e, out') \<Longrightarrow> out' = out"
  shows "wp (doWithRetry E c ctx send classify out) (\<lambda>(a, err, o') w'.
      let m = nat (max 1 (rp_MaxAttempts (c_retry c)));
          again = (\<lambda>k. wants_retry (fst (attempt_result classify (sent k) out)));
          i = length (takeWhile again [cnt w ..< cnt w + m - 1]);
          final = attempt_result classify (sent (cnt w + i)) out
      in a = int i + 1 \<and> cnt w' = cnt w + i + 1 \<and>
         err = annotateAttempts a (fst final) \<and> o' = snd final) w"
  using doWithRetry_serves [OF assms, where c = c and w = w] by (simp only: retried_takeWhile Let_def)

text \<open>
  Property C15: one answer outside 5xx settles a reveal call: a single request is made, and the
  kind of the error, on which the reconciler branches, is decided by the status alone: 401 and
  403 are authentication errors, 404 is not-found, 429 is rate limiting, and success is 200.
\<close>

theorem reveal_status_decides:
  assumes "api_answers E ctx cnt sent" and "sent (cnt w) = Inr resp" and "rs_Body resp = Inr body"
    and "\<not> (500 \<le> rs_StatusCode resp \<and> rs_StatusCode resp \<le> 599)"
    and "url_Parse (e_pf E) (url_String (endpoint c ''/operator/secrets/reveal'')) \<noteq> None"
  shows "wp (RevealFromVault E c ctx vault names) (\<lambda>r w'. cnt w' = Suc (cnt w) \<and>
      (case r of
         Inr _ \<Rightarrow> rs_StatusCode resp = 200
       | Inl e \<Rightarrow>
           (IsAuthError (Some e) \<longleftrightarrow> rs_StatusCode resp \<in> {401, 403}) \<and>
           (IsNotFound (Some e) \<longleftrightarrow> rs_StatusCode resp = 404) \<and>
           (IsRateLimited (Some e) \<longleftrightarrow> rs_StatusCode resp = 429))) w"
  by (rule reveal_answered [OF assms])

text \<open>
  Property C27: an outage is reported only after every permitted attempt. If no request gets a
  readable answer outside 5xx, the reveal call makes exactly the policy's number of requests
  (at least one), and the error it returns carries that number.
\<close>

theorem outage_exhausts_attempts:
  assumes "api_answers E ctx cnt sent"
    and "\<forall>k. case sent k of Inl _ \<Rightarrow> True | Inr resp \<Rightarrow>
      (case rs_Body resp of Inl _ \<Rightarrow> True | Inr _ \<Rightarrow> 500 \<le> rs_StatusCode resp \<and> rs_StatusCode resp \<le> 599)"
    and "url_Parse (e_pf E) (url_String (reveal_url c org project vault names)) \<noteq> None"
  shows "wp (BulkReveal E c ctx org project vault namespace names) (\<lambda>r w'.
      int (cnt w') = int (cnt w) + max 1 (rp_MaxAttempts (c_retry c)) \<and>
      (\<exists>e. r = Inl e \<and> Attempts e = Some (max 1 (rp_MaxAttempts (c_retry c))))) w"
proof -
  let ?hs = "[(''Authorization'', ''Bearer '' @ c_token c), (''Accept'', ''application/json'')] @
    (if namespace \<noteq> [] then [(''X-FerrVault-Namespace'', namespace)] else [])"
  define send where "send = send_request E c ctx (build_request (e_pf E) ''ferrvault: build request: %w''
    ''GET'' (url_String (reveal_url c org project vault names)) None ?hs)"
  have s: "serves E ctx send cnt sent"
    unfolding send_def by (rule api_request_serves [OF assms(1,3)])
  let ?f = "\<lambda>k. fst (attempt_result (classify_reveal decode_reveal) (sent k) no_reveal)"
  have fails: "\<exists>e. ?f k = Some e \<and> isRetriable e \<and> (is_TransportError e \<or> is_APIError e)" for k
    using assms(2) [rule_format, of k]
    by (auto simp: attempt_result_def classify_reveal_def http_statuses Let_def api_status_simps
        split: sum.splits)
  then have "\<And>k. wants_retry (?f k)" by (auto simp: wants_retry_def dest: spec split: option.splits) (metis option.inject option.distinct(1))
  note all = all_attempts [OF s reveal.error_leaves_out this]
  show ?thesis
    unfolding BulkReveal_def Let_def wp_bind send_def [symmetric]
  proof (rule wp_mono [OF all], assumption, clarify, goal_cases)
    case (1 a err o' w')
    obtain e where e: "?f (cnt w + nat (max 1 (rp_MaxAttempts (c_retry c))) - 1) = Some e"
        "is_TransportError e \<or> is_APIError e"
      using fails by blast
    from Attempts_annotate [OF e(2), of "max 1 (rp_MaxAttempts (c_retry c))"] e(1) 1 show ?case
      by (auto simp: wp_return)
  qed
qed

text \<open>
  Property C28: under the default policy, the wait before each further attempt is within a
  quarter of the scheduled delay, rounding included, and the last entry of the schedule is
  used beyond its end.
\<close>

theorem backoff_within_jitter:
  assumes "draws_in_range E" and "1 \<le> attempt"
  shows "wp (backoff_delay E DefaultRetryPolicy attempt) (\<lambda>d _.
    let base = [100 * millisecond, 400 * millisecond, 1600 * millisecond] ! nat (min (attempt - 1) 2)
    in 3 * base div 4 \<le> d \<and> d \<le> 5 * base div 4) w"
  using default_delay [OF assms] by (simp add: delay_cap_def DefaultRetryPolicy_def Let_def)

text \<open>
  Property C37 (a flaw): the reveal path is escaped twice. Decoding the path that goes out on
  the wire once, as a server does, gives back the segments still percent-encoded, so a name
  reaches the server unchanged only if escaping leaves it alone; a vault called ``my vault'' is
  asked for as ``my%20vault''.
\<close>

theorem reveal_path_escaped_twice:
  "url_unescape EncPath (EscapedPath (reveal_url c org project vault names)) =
     Some (TrimRight_slash (u_Path (c_baseURL c)) @ ''/api/v1/orgs/'' @ PathEscape org @
       ''/projects/'' @ PathEscape project @ ''/vaults/by-name/'' @ PathEscape vault @ ''/secrets/reveal'')
   \<and> PathEscape ''my vault'' = ''my%20vault''"
proof -
  have "u_Path (reveal_url c org project vault names) = TrimRight_slash (u_Path (c_baseURL c)) @
      ''/api/v1/orgs/'' @ PathEscape org @ ''/projects/'' @ PathEscape project @
      ''/vaults/by-name/'' @ PathEscape vault @ ''/secrets/reveal''"
    by (simp add: reveal_url_def endpoint_def reveal_path_def Let_def)
  moreover have "PathEscape ''my vault'' = ''my%20vault''" by code_simp
  ultimately show ?thesis by (simp only: unescape_EscapedPath simp_thms)
qed

end
