(* ===== verification/Secret_Facts.thy ===== *)
theory Secret_Facts
  imports Secret_Reconciler Client_Facts
begin

text \<open>
  What a pass of the FerrVaultSecret reconciler guarantees.  The contracts of the two
  collaborators (the API client and the token broker) are locales, interpreted on the code's
  own client and broker; the rest are lemmas on the parts of \<open>Reconcile\<close> and the properties.
\<close>

section \<open>The collaborators only read\<close>

lemma keeps_retry_loop:
  assumes "reads_keep obs E" "keeps obs send"
  shows "keeps obs (retry_loop E p ctx send classify maxA n attempt prev out)"
proof (induction n arbitrary: attempt prev out)
  case (Suc n)
  note reads = reads_keepD [OF assms(1)]
  have d: "keeps obs (backoff_delay E p attempt)" by (rule keeps_backoff_delay) (rule reads)
  show ?case
    unfolding retry_loop.simps pause_then_def
    by (intro keeps_bind reads assms(2) keeps_case_option keeps_return keeps_Let keeps_case_prod keeps_if d Suc.IH)
qed (simp add: keeps_return)

lemma keeps_doWithRetry:
  assumes "reads_keep obs E"
  shows "keeps obs (doWithRetry E c ctx (send_request E c ctx built) classify out)"
proof -
  have "keeps obs (send_request E c ctx built)"
    unfolding send_request_def by (intro keeps_intros reads_keepD [OF assms])
  then show ?thesis
    unfolding doWithRetry_def Let_def by (rule keeps_retry_loop [OF assms])
qed

lemma keeps_client_calls [env_keeps]:
  assumes "reads_keep obs E"
  shows "keeps obs (Probe E c ctx)" "keeps obs (OIDCExchange E c ctx i t)"
    "keeps obs (BulkReveal E c ctx org project vault ns names)" "keeps obs (RevealFromVault E c ctx vault names)"
  unfolding Probe_def OIDCExchange_def BulkReveal_def RevealFromVault_def Let_def
  by (intro keeps_intros keeps_doWithRetry [OF assms])+

text \<open>The client a reconciler is given: a reveal changes nothing that a read does not change.\<close>

locale reveal_backend =
  fixes E :: "'w env" and api :: "'w fv_api" and obs :: "'w \<Rightarrow> 'o"
  assumes bulk_reads: "reads_keep obs E \<Longrightarrow> keeps obs (fc_BulkReveal api ctx org project vault ns names)"
    and vault_reads: "reads_keep obs E \<Longrightarrow> keeps obs (fc_RevealFromVault api ctx vault names)"
begin

lemma call_reads: "reads_keep obs E \<Longrightarrow> keeps obs (reveal_call api ctx cr conn)"
  unfolding reveal_call_def by (intro keeps_if bulk_reads vault_reads)

end

interpretation client_api: reveal_backend E "api_of_client E c" obs for E :: "'w env" and c obs
  by unfold_locales (simp_all add: api_of_client_def keeps_client_calls)

text \<open>The broker: resolving a token changes nothing that a read does not change.\<close>

locale token_source =
  fixes E :: "'w env" and b :: "'w broker" and obs :: "'w \<Rightarrow> 'o"
  assumes source_reads: "reads_keep obs E \<Longrightarrow> broker_keeps obs b"
begin

lemma token_reads: "reads_keep obs E \<Longrightarrow> keeps (\<lambda>p. obs (p_world p)) (TokenFor E b ctx conn)"
  by (rule keeps_TokenFor [OF _ source_reads])

end

interpretation real_broker: token_source E "NewTokenBroker E" obs for E :: "'w env" and obs
  by unfold_locales
    (auto simp: broker_keeps_def NewTokenBroker_def readFileString_def realExchange_def
      intro!: keeps_intros reads_keepD keeps_client_calls)

section \<open>What the parts of a pass leave alone\<close>

lemma keeps_set_cr_condition:
  "keeps obs (e_now E) \<Longrightarrow> keeps (\<lambda>p. obs (p_world p)) (set_cr_condition E cr c)"
  unfolding set_cr_condition_def by (intro keeps_bind keeps_setCondition keeps_return)

lemma keeps_failReady:
  assumes "reads_keep obs E" "status_writes_keep obs E"
  shows "keeps (\<lambda>p. obs (p_world p)) (failReadyWithRequeue E ctx cr reason message after)"
    "keeps (\<lambda>p. obs (p_world p)) (failReady E r ctx cr reason message)"
  unfolding failReady_def failReadyWithRequeue_def
  by (intro keeps_intros keeps_set_cr_condition reads_keepD(1) [OF assms(1)] writes_keepD(1) [OF assms(2)])+

lemma keeps_failed:
  "keeps obs m \<Longrightarrow> keeps obs (failed m)"
  by (intro keeps_bind keeps_return)

lemma keeps_forget [keeps_intros]: "keeps (\<lambda>p. obs (p_world p)) (forget c key)"
  unfolding forget_def by (rule keeps_modify) simp

lemma keeps_next_delay:
  assumes "reads_keep obs E"
  shows "keeps (\<lambda>p. obs (p_world p)) (next_delay E c key)"
  unfolding next_delay_def jitter_def Let_def
  by (intro keeps_intros reads_keepD [OF assms]) simp

lemma keeps_target_reads:
  assumes "reads_keep obs E"
  shows "keeps (\<lambda>p. obs (p_world p)) (targetExists E ctx cr)"
    "keeps (\<lambda>p. obs (p_world p)) (targetContentHash E ctx cr)"
  unfolding targetExists_def targetContentHash_def
  by (intro keeps_intros reads_keepD [OF assms])+

section \<open>The write to the target\<close>

text \<open>
  \<open>controllerutil.SetControllerReference\<close> only adds an owner reference.
\<close>

definition owner_only :: "'w env \<Rightarrow> bool" where
  "owner_only E \<longleftrightarrow> (\<forall>cr s s'. e_SetControllerReference E cr s = Inr s' \<longrightarrow>
     (\<exists>refs. s' = set_sec_meta (\<lambda>m. m\<lparr>om_ownerReferences := refs\<rparr>) s))"

lemma mutate_target_Inr:
  assumes "owner_only E" "mutate_target E cr data newHash owned s = Inr (t, oldHash)"
  shows "adoptable s cr (\<not> owned) \<and> oldHash = lookup_str (om_annotations (sec_meta s)) fvAnnotationContentHash \<and>
    sec_Data t = secretBytes data \<and> sec_StringData t = [] \<and>
    sec_Type t = (if st_Type (ss_Target (fs_Spec cr)) = [] then SecretTypeOpaque else st_Type (ss_Target (fs_Spec cr))) \<and>
    om_annotations (sec_meta t) = Some (mset_key fvAnnotationContentHash newHash
      (mset_key fvAnnotationManagedBy ''ferrvault-operator'' (made (om_annotations (sec_meta s))))) \<and>
    (\<not> owned \<longrightarrow> om_ownerReferences (sec_meta t) = withoutOwner (om_ownerReferences (sec_meta s)) (om_uid (fs_meta cr)))"
proof -
  have a: "adoptable s cr (\<not> owned)"
    using assms(2) by (auto simp: mutate_target_def Let_def split: if_splits)
  obtain refs where refs: "(if owned then e_SetControllerReference E cr s
      else Inr (set_sec_meta (\<lambda>m. m\<lparr>om_ownerReferences :=
        withoutOwner (om_ownerReferences m) (om_uid (fs_meta cr))\<rparr>) s)) =
    Inr (set_sec_meta (\<lambda>m. m\<lparr>om_ownerReferences := refs\<rparr>) s)"
    and dropped: "\<not> owned \<longrightarrow> refs = withoutOwner (om_ownerReferences (sec_meta s)) (om_uid (fs_meta cr))"
  proof (cases owned)
    case True
    then obtain s' where s': "e_SetControllerReference E cr s = Inr s'"
      using assms(2) a by (auto simp: mutate_target_def Let_def split: sum.splits)
    then obtain refs where "s' = set_sec_meta (\<lambda>m. m\<lparr>om_ownerReferences := refs\<rparr>) s"
      using assms(1) [unfolded owner_only_def, rule_format, OF s'] by (elim exE)
    with True s' show ?thesis by (intro that [of refs]) simp_all
  next
    case False
    then show ?thesis
      by (intro that [of "withoutOwner (om_ownerReferences (sec_meta s)) (om_uid (fs_meta cr))"])
        (simp_all add: set_sec_meta_def)
  qed
  show ?thesis
    using assms(2) a unfolding mutate_target_def Let_def refs by (auto simp: set_sec_meta_def dropped)
qed

lemma mutate_target_conflict:
  "mutate_target E cr data newHash owned s = Inl ErrTargetConflict \<or> \<not> adoptable s cr (\<not> owned) \<Longrightarrow>
    \<exists>e. mutate_target E cr data newHash owned s = Inl e \<and> errors_Is ErrTargetConflict e"
  by (auto simp: mutate_target_def errors_Is_def)

section \<open>Labels\<close>

text \<open>The label of a pass: never ``success'' beside an error.\<close>

definition labelled :: "outcome \<times> string \<Rightarrow> bool" where
  "labelled r \<longleftrightarrow> snd r \<in> {''success'', ''failure''} \<and> (snd (fst r) \<noteq> None \<longrightarrow> snd r = ''failure'')"

lemma labelled_simps [simp]:
  "labelled (o', ''failure'')" "labelled (requeue d, ''success'')"
  by (simp_all add: labelled_def requeue_def)

lemma labelled_failed [yields_intros]: "yields labelled (failed m)"
  by (intro yields_intros) simp

lemma secret_body_labelled: "yields labelled (secret_body E r ctx req)"
proof -
  have written: "yields labelled (secret_write E r ctx cr tt rv tr)" for cr tt rv tr
    unfolding secret_write_def secret_finish_def Let_def
    by (intro yields_intros) simp_all
  have guard: "yields labelled (secret_guard E r ctx cr tt rv tr)" for cr tt rv tr
    unfolding secret_guard_def Let_def by (intro yields_intros written)
  have applied: "yields labelled (secret_apply E r ctx cr conn rv)" for cr conn rv
    unfolding secret_apply_def Let_def by (intro yields_intros guard)
  have react: "yields labelled (secret_react E r ctx req cr conn rv)" for cr conn rv
    unfolding secret_react_def by (intro yields_intros applied) simp_all
  have connect: "yields labelled (secret_connect E r ctx req cr)" for cr
    unfolding secret_connect_def Let_def by (intro yields_intros react)
  show ?thesis
    unfolding secret_body_def secret_delete_def
    by (intro yields_intros connect) (auto split: sum.splits)
qed

text \<open>What \<open>failReady\<close> leaves behind.\<close>

definition failed_ready :: "fvsecret \<Rightarrow> string \<Rightarrow> gomsg \<Rightarrow> instant \<Rightarrow> fvsecret" where
  "failed_ready cr reason message now =
     set_status (sst_Conditions_update (\<lambda>_. upsert_condition
       ((new_condition ''Ready'' ConditionFalse reason message)\<lparr>c_lastTransitionTime := now\<rparr>)
       (sst_Conditions (fs_Status cr)))) cr"

lemma failReady_run:
  assumes "run_state (e_now E) (p_world p) = (n, w)"
    and "run_state (e_status_secret_cr E ctx (failed_ready cr reason message n)) w = (res, w')"
  shows "run_state (failReadyWithRequeue E ctx cr reason message after) p =
      ((case res of Inl err \<Rightarrow> fail_with (Wrapf (Sprintf ''update status with %s: %w'' [AStr reason, AErr err]) err)
        | Inr _ \<Rightarrow> requeue after),
       p\<lparr>p_metrics := Inc SyncErrors reason # p_metrics p, p_world := w'\<rparr>)"
  using assms
  by (simp add: failReadyWithRequeue_def IncSyncError_def metric_def set_cr_condition_def setCondition_def
      run_in_world failed_ready_def new_condition_def)

lemma filter_upsert_other:
  "filter (\<lambda>d. c_type d \<noteq> c_type c) (upsert_condition c cs) = filter (\<lambda>d. c_type d \<noteq> c_type c) cs"
  by (induction c cs rule: upsert_condition.induct) auto

lemma failed_ready_status:
  "find_condition ''Ready'' (sst_Conditions (fs_Status (failed_ready cr reason message n))) =
     Some ((new_condition ''Ready'' ConditionFalse reason message)\<lparr>c_lastTransitionTime :=
       (case find_condition ''Ready'' (sst_Conditions (fs_Status cr)) of
          None \<Rightarrow> n | Some d \<Rightarrow> if c_status d = ConditionFalse then c_lastTransitionTime d else n)\<rparr>)"
  "filter (\<lambda>d. c_type d \<noteq> ''Ready'') (sst_Conditions (fs_Status (failed_ready cr reason message n))) =
     filter (\<lambda>d. c_type d \<noteq> ''Ready'') (sst_Conditions (fs_Status cr))"
  "\<exists>conds. failed_ready cr reason message n = cr\<lparr>fs_Status := (fs_Status cr)\<lparr>sst_Conditions := conds\<rparr>\<rparr>"
proof -
  let ?c = "(new_condition ''Ready'' ConditionFalse reason message)\<lparr>c_lastTransitionTime := n\<rparr>"
  have ty: "c_type ?c = ''Ready''" by (simp add: new_condition_def)
  show "find_condition ''Ready'' (sst_Conditions (fs_Status (failed_ready cr reason message n))) =
     Some ((new_condition ''Ready'' ConditionFalse reason message)\<lparr>c_lastTransitionTime :=
       (case find_condition ''Ready'' (sst_Conditions (fs_Status cr)) of
          None \<Rightarrow> n | Some d \<Rightarrow> if c_status d = ConditionFalse then c_lastTransitionTime d else n)\<rparr>)"
    using find_upsert [of ?c "sst_Conditions (fs_Status cr)", unfolded ty]
    by (simp add: failed_ready_def set_status_def) (simp add: new_condition_def split: option.split)
  show "filter (\<lambda>d. c_type d \<noteq> ''Ready'') (sst_Conditions (fs_Status (failed_ready cr reason message n))) =
     filter (\<lambda>d. c_type d \<noteq> ''Ready'') (sst_Conditions (fs_Status cr))"
    using filter_upsert_other [of ?c "sst_Conditions (fs_Status cr)", unfolded ty]
    by (simp add: failed_ready_def set_status_def)
  show "\<exists>conds. failed_ready cr reason message n = cr\<lparr>fs_Status := (fs_Status cr)\<lparr>sst_Conditions := conds\<rparr>\<rparr>"
    by (simp add: failed_ready_def set_status_def) blast
qed

lemma failReady_stamps:
  "wp (failReadyWithRequeue E ctx cr reason message after) (\<lambda>outcome p'.
     p_metrics p' = Inc SyncErrors reason # p_metrics p \<and>
     (\<exists>cr' w. (case run_state (e_status_secret_cr E ctx cr') w of
          (Inl e, w') \<Rightarrow> p_world p' = w' \<and> snd outcome \<noteq> None
        | (Inr _, w') \<Rightarrow> p_world p' = w' \<and> outcome = requeue after) \<and>
        fs_Spec cr' = fs_Spec cr \<and> fs_meta cr' = fs_meta cr \<and>
        sst_ObservedGeneration (fs_Status cr') = sst_ObservedGeneration (fs_Status cr) \<and>
        sst_LastSyncedAt (fs_Status cr') = sst_LastSyncedAt (fs_Status cr) \<and>
        (\<exists>c. find_condition ''Ready'' (sst_Conditions (fs_Status cr')) = Some c \<and>
           c_status c = ConditionFalse \<and> c_reason c = reason \<and> c_message c = message))) p"
proof -
  obtain n w where now: "run_state (e_now E) (p_world p) = (n, w)" by fastforce
  let ?cr' = "failed_ready cr reason message n"
  obtain res w' where st: "run_state (e_status_secret_cr E ctx ?cr') w = (res, w')" by fastforce
  obtain conds where "?cr' = cr\<lparr>fs_Status := (fs_Status cr)\<lparr>sst_Conditions := conds\<rparr>\<rparr>"
    using failed_ready_status(3) by blast
  then have "fs_Spec ?cr' = fs_Spec cr \<and> fs_meta ?cr' = fs_meta cr \<and>
      sst_ObservedGeneration (fs_Status ?cr') = sst_ObservedGeneration (fs_Status cr) \<and>
      sst_LastSyncedAt (fs_Status ?cr') = sst_LastSyncedAt (fs_Status cr)" by simp
  then show ?thesis
    unfolding wp_def failReady_run [OF now st]
    by (cases res) (auto simp: fail_with_def failed_ready_status(1) new_condition_def intro!: exI [of _ ?cr'] exI [of _ w] simp: st)
qed

section \<open>What a pass tells Prometheus and the heartbeat\<close>

text \<open>
  Inside a pass the metrics only grow, by calls other than an observation of a duration, and
  nothing beats.
\<close>

fun observes :: "metric_call \<Rightarrow> bool" where
  "observes (Observe _ _ _) = True"
| "observes _ = False"

definition only_counted :: "metric_call list \<Rightarrow> instant \<Rightarrow> 'w proc \<Rightarrow> bool" where
  "only_counted ms beat p \<longleftrightarrow> p_last p = beat \<and>
     (\<exists>calls. p_metrics p = calls @ ms \<and> list_all (\<lambda>m. \<not> observes m) calls)"

lemma counted_in_world: "maintains (only_counted ms beat) (in_world m)"
  by (rule guaranteesI) (auto simp: run_in_world only_counted_def split: prod.splits)

lemma counted_metric: "\<not> observes m \<Longrightarrow> maintains (only_counted ms beat) (metric m)"
  by (rule guaranteesI) (auto simp: metric_def only_counted_def intro!: exI [of _ "m # calls" for calls])

lemma counted_modify: "(\<And>p. p_metrics (f p) = p_metrics p \<and> p_last (f p) = p_last p) \<Longrightarrow> maintains (only_counted ms beat) (modify f)"
  by (rule guaranteesI) (auto simp: only_counted_def)

lemma counted_gets: "maintains (only_counted ms beat) (gets f)"
  by (rule guaranteesI) (auto simp: only_counted_def)

lemmas counted_steps = counted_in_world counted_gets

lemma counted_metric_calls:
  "maintains (only_counted ms beat) (IncSyncError reason)"
  "maintains (only_counted ms beat) (SetLastSyncTimestamp ns n d)"
  "maintains (only_counted ms beat) (DeleteLastSyncTimestamp ns n)"
  unfolding metric_calls by (intro guarantees_intros counted_metric; simp)+

lemma counted_ledger:
  "maintains (only_counted ms beat) (next_delay E c key)" "maintains (only_counted ms beat) (forget c key)"
  unfolding next_delay_def jitter_def forget_def Let_def
  by (intro guarantees_intros counted_steps counted_modify TrueI; simp)+

lemma counted_token: "maintains (only_counted ms beat) (loadToken E r ctx conn)"
  unfolding loadToken_def with_broker_def TokenFor_def loadFromSecret_def loadFromOIDC_def cacheGet_def cachePut_def Let_def
  by (intro guarantees_intros counted_steps counted_modify TrueI; simp)

lemma counted_status:
  "maintains (only_counted ms beat) (set_cr_condition E cr c)"
  "maintains (only_counted ms beat) (failReadyWithRequeue E ctx cr reason message after)"
  "maintains (only_counted ms beat) (synced_status E cr s ks missing e)"
  unfolding synced_status_def setRolloutCondition_def failReadyWithRequeue_def set_cr_condition_def setCondition_def
  by (intro guarantees_intros counted_steps counted_metric_calls TrueI)+

lemma counted_failed: "maintains I m \<Longrightarrow> maintains I (failed m)"
  by (intro guarantees_intros TrueI)

lemma counted_rollouts: "maintains (only_counted ms beat) (rolloutIfDue E ctx cr previous h)"
proof -
  have loop: "maintains (only_counted ms beat) (rollout_loop E ctx cr now h e ws)" for now e ws
    by (induction ws arbitrary: e)
      (auto simp: rollout_one_def patchPodTemplate_def Let_def intro!: guarantees_intros counted_steps)
  show ?thesis
    unfolding rolloutIfDue_def triggerRollouts_def by (intro guarantees_intros counted_steps loop TrueI)
qed

lemma counted_body: "maintains (only_counted ms beat) (secret_body E r ctx req)"
proof -
  note fails = counted_failed counted_status counted_metric_calls counted_ledger
  have finish: "maintains (only_counted ms beat) (secret_finish E r ctx cr rv data previous h s)" for cr rv data previous h s
    unfolding secret_finish_def Let_def by (intro guarantees_intros counted_steps counted_rollouts fails TrueI)
  have write_it: "maintains (only_counted ms beat) (secret_write E r ctx cr tt rv data)" for cr tt rv data
    unfolding secret_write_def targetContentHash_def recordPendingRollout_def ensureTargetSecret_def failReady_def Let_def
    by (intro guarantees_intros counted_steps finish fails TrueI)
  have guard: "maintains (only_counted ms beat) (secret_guard E r ctx cr tt rv data)" for cr tt rv data
    unfolding secret_guard_def targetExists_def failReady_def Let_def
    by (intro guarantees_intros counted_steps write_it fails TrueI)
  have react: "maintains (only_counted ms beat) (secret_react E r ctx req cr conn revealed)" for cr conn revealed
    unfolding secret_react_def secret_apply_def failReady_def Let_def
    by (intro guarantees_intros counted_steps guard fails TrueI)
  show ?thesis
    unfolding secret_body_def secret_delete_def secret_connect_def failReady_def Let_def
    by (intro guarantees_intros counted_steps counted_token react fails TrueI)
qed

section \<open>Properties\<close>

text \<open>
  Property C4: a pass that must not write does not write. Whatever part \<open>obs\<close> of the cluster
  only an update of the target, of a workload or of a finalizer can change, such as the
  content of the target Secret, it is left exactly as it was when the reveal failed, when a
  transform failed, when the target holds the connection's own token and the new data lacks
  it, or when requested keys are missing and nothing would be written or the read of the
  target, made now, answers anything but not found: the target exists or cannot be read.
\<close>

theorem blocked_pass_writes_nothing:
  assumes "reads_keep obs E" "status_writes_keep obs E"
    and "case revealed of
        Inl _ \<Rightarrow> True
      | Inr rv \<Rightarrow>
          (case ApplyTransforms (e_pf E) (rv_Secrets rv) (ss_Transforms (fs_Spec cr)) of
             (_, Some _) \<Rightarrow> True
           | (data, None) \<Rightarrow>
               (\<exists>k. connectionTokenKey conn cr = (k, True) \<and> map_of data k = None) \<or>
               rv_Missing rv \<noteq> [] \<and> (data = [] \<or>
                 (case fst (run_state (e_get_secret E ctx (target_key cr)) (p_world p)) of
                    Inr _ \<Rightarrow> True | Inl err \<Rightarrow> \<not> e_IsNotFound E err)))"
  shows "wp (secret_react E r ctx req cr conn revealed) (\<lambda>_ p'. obs (p_world p') = obs (p_world p)) p"
proof (cases revealed)
  case (Inl err)
  have "keeps (\<lambda>p. obs (p_world p)) (secret_react E r ctx req cr conn (Inl err))"
    unfolding secret_react_def sum.case
    by (intro keeps_intros keeps_failed keeps_failReady [OF assms(1,2)] keeps_next_delay [OF assms(1)])
  then show ?thesis by (simp add: Inl keeps_wp)
next
  case (Inr rv)
  obtain data err where t: "ApplyTransforms (e_pf E) (rv_Secrets rv) (ss_Transforms (fs_Spec cr)) = (data, err)"
    by fastforce
  obtain k tt where k: "connectionTokenKey conn cr = (k, tt)" by fastforce
  let ?obs = "\<lambda>p. obs (p_world p)"
  have fail: "keeps ?obs (failed (failReady E r ctx c rsn msg))"
    "keeps ?obs (failed (failReadyWithRequeue E ctx c rsn msg d))" for c rsn msg d
    by (intro keeps_failed keeps_failReady [OF assms(1,2)])+
  have "wp (secret_apply E r ctx cr conn rv) (\<lambda>_ p'. ?obs p' = ?obs q) q" if q: "p_world q = p_world p" for q
  proof (cases "err \<noteq> None \<or> tt \<and> map_of data k = None")
    case True
    then have "keeps ?obs (secret_apply E r ctx cr conn rv)"
      unfolding secret_apply_def t prod.case k Let_def by (cases err) (auto intro!: fail)
    then show ?thesis by (simp add: keeps_wp)
  next
    case False
    obtain g w where g: "run_state (e_get_secret E ctx (target_key cr)) (p_world q) = (g, w)" by fastforce
    with False assms(3) q have m: "rv_Missing rv \<noteq> []" "data = [] \<or> (case g of Inr _ \<Rightarrow> True | Inl e \<Rightarrow> \<not> e_IsNotFound E e)"
      by (auto simp: Inr t k)
    have "wp (targetExists E ctx cr) (\<lambda>e _. data \<noteq> [] \<longrightarrow> e \<noteq> Inr False) q"
      using m(2) by (auto simp: targetExists_def wp_bind wp_in_world wp_def [of "e_get_secret E ctx (target_key cr)"] g
          wp_return split: sum.splits)
    then have "wp (targetExists E ctx cr) (\<lambda>e p'. (data \<noteq> [] \<longrightarrow> e \<noteq> Inr False) \<and> ?obs p' = ?obs q) q"
      by (intro wp_conj keeps_wp keeps_target_reads(1) assms(1)) simp_all
    then have "wp (secret_guard E r ctx cr tt rv data) (\<lambda>_ p'. ?obs p' = ?obs q) q"
      using m(1) unfolding secret_guard_def
      by (simp only: if_True not_False_eq_True simp_thms wp_bind [of "targetExists E ctx cr"])
        (rule wp_mono, assumption, auto simp: Let_def split: sum.splits intro!: keeps_wp fail)
    then show ?thesis using False by (cases tt; cases "map_of data k") (simp_all add: secret_apply_def t k)
  qed
  note applied = this
  show ?thesis
    unfolding Inr secret_react_def sum.case forget_def wp_bind wp_modify
    by (rule wp_mono [OF applied]) simp_all
qed

text \<open>
  Property C14: a 429 is a postponement. After a rate-limited reveal the pass writes nothing
  at all, neither status nor target, requeues within five minutes and after at least two and
  a half seconds, reports no error, and counts one more consecutive 429 for this resource.
\<close>

theorem rate_limited_reveal_postpones:
  assumes "reads_keep obs E" "draws_in_range E" "IsRateLimited (Some err)"
    and "attempts_of p SecretController req < 2 ^ 63 - 1" "0 \<le> attempts_of p SecretController req"
  shows "wp (secret_react E r ctx req cr conn (Inl err)) (\<lambda>(outcome, _) p'.
    obs (p_world p') = obs (p_world p) \<and> snd outcome = None \<and>
    2500 * millisecond \<le> RequeueAfter (fst outcome) \<and> RequeueAfter (fst outcome) \<le> 5 * minute \<and>
    attempts_of p' SecretController req = attempts_of p SecretController req + 1) p"
proof -
  have "wp (next_delay E SecretController req) (\<lambda>d p'. 2500 * millisecond \<le> d \<and> d \<le> 5 * minute \<and>
      attempts_of p' SecretController req = attempts_of p SecretController req + 1) p"
    using backoffFor_bounds [of "attempts_of p SecretController req"] assms(4,5)
    by (intro next_delay_spec assms(2)) (auto simp: attempts_of_def duration_units wrap64_id)
  then have "wp (next_delay E SecretController req) (\<lambda>d p'. (2500 * millisecond \<le> d \<and> d \<le> 5 * minute \<and>
      attempts_of p' SecretController req = attempts_of p SecretController req + 1) \<and>
      obs (p_world p') = obs (p_world p)) p"
    by (rule wp_conj) (intro keeps_wp keeps_next_delay assms(1), simp)
  then show ?thesis
    by (simp add: secret_react_def assms(3) wp_bind IncSyncError_def wp_metric wp_return requeue_def)
      (erule wp_mono, simp add: wp_bind wp_metric wp_return attempts_of_def)
qed

text \<open>
  Property C18: every other failure is visible, and touches nothing else. \<open>failReady\<close> counts the
  reason and writes the resource as it was but for one condition: Ready is False with that
  reason and message, since now, or since it became False if it was False before; the other
  conditions stay in place, as do spec, metadata and the rest of the status, the rollout hash,
  the key lists and the observed generation among it. The pass comes back after the given
  delay unless the write itself failed, which is then the error of the pass.
\<close>

theorem failure_stamps_ready_false:
  "wp (failReadyWithRequeue E ctx cr reason message after) (\<lambda>outcome p'.
     p_metrics p' = Inc SyncErrors reason # p_metrics p \<and>
     (\<exists>now w conds. let cr' = cr\<lparr>fs_Status := (fs_Status cr)\<lparr>sst_Conditions := conds\<rparr>\<rparr> in
        run_state (e_now E) (p_world p) = (now, w) \<and>
        (case run_state (e_status_secret_cr E ctx cr') w of
           (Inl e, w') \<Rightarrow> p_world p' = w' \<and>
             outcome = fail_with (Wrapf (Sprintf ''update status with %s: %w'' [AStr reason, AErr e]) e)
         | (Inr _, w') \<Rightarrow> p_world p' = w' \<and> outcome = requeue after) \<and>
        find_condition ''Ready'' conds = Some ((new_condition ''Ready'' ConditionFalse reason message)\<lparr>c_lastTransitionTime :=
          (case find_condition ''Ready'' (sst_Conditions (fs_Status cr)) of
             None \<Rightarrow> now | Some d \<Rightarrow> if c_status d = ConditionFalse then c_lastTransitionTime d else now)\<rparr>) \<and>
        filter (\<lambda>d. c_type d \<noteq> ''Ready'') conds = filter (\<lambda>d. c_type d \<noteq> ''Ready'') (sst_Conditions (fs_Status cr)))) p"
proof -
  obtain n w where now: "run_state (e_now E) (p_world p) = (n, w)" by fastforce
  let ?cr' = "failed_ready cr reason message n"
  obtain res w' where st: "run_state (e_status_secret_cr E ctx ?cr') w = (res, w')" by fastforce
  obtain conds where conds: "?cr' = cr\<lparr>fs_Status := (fs_Status cr)\<lparr>sst_Conditions := conds\<rparr>\<rparr>"
    using failed_ready_status(3) by blast
  note stamped = failed_ready_status(1,2) [of cr reason message n, unfolded conds]
  show ?thesis
    unfolding wp_def failReady_run [OF now st] prod.case Let_def
    using now st stamped unfolding conds
    by (cases res) (simp, intro exI [of _ n] exI [of _ w] exI [of _ conds], simp)+
qed

text \<open>
  Property C21: each pass is reported exactly once. Of the metrics a pass adds, the last one is
  the observation of its duration, from the clock at its start to the clock at its end, and no
  other observes anything; the heartbeat moves once, to the time at the end, never back, and
  not at all without a heartbeat. A pass that returns an error is never recorded as a success.
\<close>

theorem every_pass_is_reported:
  "wp (Secret_Reconcile E r ctx req) (\<lambda>outcome p'. \<exists>label calls started w beat v finished u.
     p_metrics p' = Observe SyncDuration label (duration_Seconds (time_Sub finished started)) # calls @ p_metrics p \<and>
     list_all (\<lambda>m. \<not> observes m) calls \<and>
     (label = ''success'' \<or> label = ''failure'') \<and> (snd outcome \<noteq> None \<longrightarrow> label = ''failure'') \<and>
     p_last p' = (if sr_Heartbeat r then max beat (p_last p) else p_last p) \<and>
     run_state (e_now E) (p_world p) = (started, w) \<and> (\<exists>v'. run_state (e_now E) v' = (beat, v)) \<and>
     run_state (e_now E) v = (finished, u) \<and> p_world p' = u) p"
    (is "wp _ ?Q p")
proof -
  obtain s w where start: "run_state (e_now E) (p_world p) = (s, w)" by fastforce
  have body: "wp (secret_body E r ctx req) (\<lambda>x q. labelled x \<and> only_counted (p_metrics p) (p_last p) q) (p\<lparr>p_world := w\<rparr>)"
  proof (intro wp_conj yields_wp [OF secret_body_labelled] wpI)
    fix x q assume run: "run_state (secret_body E r ctx req) (p\<lparr>p_world := w\<rparr>) = (x, q)"
    have "only_counted (p_metrics p) (p_last p) (p\<lparr>p_world := w\<rparr>)" by (simp add: only_counted_def)
    then show "only_counted (p_metrics p) (p_last p) q" using guaranteesD [OF counted_body _ run] by blast
  qed
  have tail: "wp (do { end_at \<leftarrow> in_world (e_now E); Beat (sr_Heartbeat r) end_at; ObserveReconcile E s label; ret res }) ?Q q"
    if "labelled (res, label)" "only_counted (p_metrics p) (p_last p) q" for res label q
  proof -
    obtain b v where b: "run_state (e_now E) (p_world q) = (b, v)" by fastforce
    obtain f u where f: "run_state (e_now E) v = (f, u)" by fastforce
    from that obtain calls where calls: "p_metrics q = calls @ p_metrics p" "list_all (\<lambda>m. \<not> observes m) calls" "p_last q = p_last p"
      by (auto simp: only_counted_def)
    show ?thesis
      unfolding ObserveReconcile_def
      by (simp add: wp_bind wp_in_world wp_Beat wp_metric wp_return wp_def [of "e_now E"] b f calls(1,3))
        (use that(1) calls(2) b f start in \<open>unfold labelled_def, auto intro!: exI\<close>)
  qed
  have first: "wp (State_Monad.bind (in_world (e_now E)) f) ?Q p = wp (f s) ?Q (p\<lparr>p_world := w\<rparr>)" for f
    by (simp only: wp_bind wp_in_world) (simp add: wp_def start)
  show ?thesis
    unfolding Secret_Reconcile_def first unfolding wp_bind [of "secret_body E r ctx req"]
  proof (rule wp_mono [OF body], elim conjE)
    fix x and q :: "'a proc" assume "labelled x" "only_counted (p_metrics p) (p_last p) q"
    then show "wp (case x of (res, result) \<Rightarrow>
        do { end_at \<leftarrow> in_world (e_now E); Beat (sr_Heartbeat r) end_at; ObserveReconcile E s result; ret res }) ?Q q"
      by (cases x) (simp only: prod.case, rule tail)
  qed
qed

end
