(* ===== verification/Reference_Cluster.thy ===== *)
theory Reference_Cluster
  imports Env Go_Strings
begin

text \<open>
  A small world to run the operator in: an in-memory API server, a scripted FerrVault server,
  a clock that only waiting moves, and a token file.  It is not part of the program; it shows
  that the hypotheses of the theorems can hold together, and the witnesses run on it.
\<close>

record cluster =
  cl_now :: instant
  cl_requests :: nat
  cl_secrets :: "nname \<Rightarrow> k8s_secret option"
  cl_crs :: "(nname \<times> fvsecret) list"
  cl_conns :: "(nname \<times> connection) list"
  cl_workloads :: "workload_kind \<times> nname \<Rightarrow> workload option"

definition missing_error :: goerror where "missing_error = Foreign ''not found''"

definition found :: "'a option \<Rightarrow> goerror + 'a" where
  "found x = (case x of None \<Rightarrow> Inl missing_error | Some v \<Rightarrow> Inr v)"

definition read :: "(cluster \<Rightarrow> 'a) \<Rightarrow> (cluster, 'a) state" where
  "read f = gets f"

definition selected :: "list_options \<Rightarrow> ('a \<Rightarrow> objmeta) \<Rightarrow> (string \<Rightarrow> 'a \<Rightarrow> string list) \<Rightarrow> 'a list \<Rightarrow> 'a list" where
  "selected lo meta index xs =
     (let ys = filter (\<lambda>x.
            (case lo_namespace lo of None \<Rightarrow> True | Some ns \<Rightarrow> om_namespace (meta x) = ns) \<and>
            (case lo_field lo of None \<Rightarrow> True | Some (f, v) \<Rightarrow> v \<in> set (index f x))) xs
      in case lo_limit lo of None \<Rightarrow> ys | Some n \<Rightarrow> take (nat n) ys)"

definition cr_index :: "string \<Rightarrow> fvsecret \<Rightarrow> string list" where
  "cr_index f s = (if f = ''.spec.connectionRef.name'' then [ss_ConnectionRef (fs_Spec s)] else [])"

definition conn_index :: "string \<Rightarrow> connection \<Rightarrow> string list" where
  "conn_index f c =
     (if f = ''.spec.tokenSecretRef.name''
      then (case cs_TokenSecretRef (cn_Spec c) of None \<Rightarrow> [] | Some r \<Rightarrow> [skr_Name r]) else [])"

definition put_alist :: "'k \<Rightarrow> 'v \<Rightarrow> ('k \<times> 'v) list \<Rightarrow> ('k \<times> 'v) list" where
  "put_alist k v m = AList.update k v m"

definition write_cr :: "fvsecret \<Rightarrow> (cluster, goerror + fvsecret) state" where
  "write_cr cr = State (\<lambda>w. (Inr cr, w\<lparr>cl_crs := put_alist (fs_Namespace cr, fs_Name cr) cr (cl_crs w)\<rparr>))"

definition write_conn :: "connection \<Rightarrow> (cluster, goerror + connection) state" where
  "write_conn c = State (\<lambda>w. (Inr c, w\<lparr>cl_conns := put_alist (cn_Namespace c, cn_Name c) c (cl_conns w)\<rparr>))"

text \<open>The API server gives a stored object a resource version.\<close>

definition stored :: "k8s_secret \<Rightarrow> k8s_secret" where
  "stored s = s\<lparr>sec_meta := (sec_meta s)\<lparr>om_resourceVersion := om_resourceVersion (sec_meta s) @ ''1''\<rparr>\<rparr>"

definition create_or_update ::
  "k8s_secret \<Rightarrow> (k8s_secret \<Rightarrow> goerror + (k8s_secret \<times> string)) \<Rightarrow> (cluster, goerror + (k8s_secret \<times> string)) state" where
  "create_or_update s f =
     State (\<lambda>w.
       let key = (om_namespace (sec_meta s), om_name (sec_meta s));
           base = (case cl_secrets w key of None \<Rightarrow> s | Some cur \<Rightarrow> cur)
       in case f base of
            Inl e \<Rightarrow> (Inl e, w)
          | Inr (t, x) \<Rightarrow> (Inr (stored t, x), w\<lparr>cl_secrets := (cl_secrets w)(key \<mapsto> stored t)\<rparr>))"

definition has_finalizer :: "objmeta \<Rightarrow> string \<Rightarrow> bool" where
  "has_finalizer m f = (f \<in> set (om_finalizers m))"

text \<open>
  \<open>sent k\<close> is FerrVault's answer to the \<open>k\<close>-th request; \<open>file\<close> the projected token.
\<close>

definition cluster_env :: "platform \<Rightarrow> (nat \<Rightarrow> goerror + http_response) \<Rightarrow> string \<Rightarrow> cluster env" where
  "cluster_env pf sent file =
     \<lparr>e_pf = pf,
      e_now = read cl_now,
      e_Int63n = (\<lambda>n. ret (n div 2)),
      e_Float64 = ret (1 / 2),
      e_ctx_Err = (\<lambda>_. ret None),
      e_ctx_wait = (\<lambda>_ d. State (\<lambda>w. (None, w\<lparr>cl_now := cl_now w + d\<rparr>))),
      e_http_Do = (\<lambda>_ _ _. State (\<lambda>w. (sent (cl_requests w), w\<lparr>cl_requests := Suc (cl_requests w)\<rparr>))),
      e_ReadFile = (\<lambda>_. ret (Inr file)),
      e_get_secret_cr = (\<lambda>_ k. read (\<lambda>w. found (map_of (cl_crs w) k))),
      e_get_connection = (\<lambda>_ k. read (\<lambda>w. found (map_of (cl_conns w) k))),
      e_get_secret = (\<lambda>_ k. read (\<lambda>w. found (cl_secrets w k))),
      e_get_workload = (\<lambda>_ t k. read (\<lambda>w. found (cl_workloads w (t, k)))),
      e_list_secret_crs = (\<lambda>_ lo. read (\<lambda>w. Inr (selected lo fs_meta cr_index (map snd (cl_crs w))))),
      e_list_connections = (\<lambda>_ lo. read (\<lambda>w. Inr (selected lo cn_meta conn_index (map snd (cl_conns w))))),
      e_update_secret_cr = (\<lambda>_ cr. write_cr cr),
      e_update_connection = (\<lambda>_ c. write_conn c),
      e_status_secret_cr = (\<lambda>_ cr. write_cr cr),
      e_status_connection = (\<lambda>_ c. write_conn c),
      e_create_or_update = (\<lambda>_. create_or_update),
      e_patch_workload = (\<lambda>_ t _ x. State (\<lambda>w. (None, w\<lparr>cl_workloads :=
        (cl_workloads w)((t, (om_namespace (wl_meta x), om_name (wl_meta x))) \<mapsto> x)\<rparr>))),
      e_IsNotFound = (\<lambda>e. e = missing_error),
      e_AddFinalizer = (\<lambda>m f. if has_finalizer m f then (m, False)
        else (m\<lparr>om_finalizers := om_finalizers m @ [f]\<rparr>, True)),
      e_RemoveFinalizer = (\<lambda>m f. if has_finalizer m f
        then (m\<lparr>om_finalizers := filter (\<lambda>g. g \<noteq> f) (om_finalizers m)\<rparr>, True) else (m, False)),
      e_SetControllerReference = (\<lambda>cr s. Inr (s\<lparr>sec_meta := (sec_meta s)\<lparr>om_ownerReferences :=
        om_ownerReferences (sec_meta s) @
          [\<lparr>or_uid = om_uid (fs_meta cr), or_name = fs_Name cr, or_controller = True\<rparr>]\<rparr>\<rparr>)),
      e_RemoveStatusCondition = (\<lambda>cs ty. filter (\<lambda>c. c_type c \<noteq> ty) cs)\<rparr>"

text \<open>A platform and objects to run on.\<close>

definition pf0 :: platform where
  "pf0 = \<lparr>pf_unicode_upper = (\<lambda>s. s), pf_map_rank = (\<lambda>_. 0), pf_int64 = (\<lambda>x. if x < 0 then - (2 ^ 63) else 2 ^ 63 - 1),
     pf_ip_literal = (\<lambda>_. None)\<rparr>"

definition meta0 :: "string \<Rightarrow> objmeta" where
  "meta0 name =
     \<lparr>om_name = name, om_namespace = ''ns'', om_uid = ''uid-'' @ name, om_resourceVersion = ''1'', om_generation = 1,
      om_deletionTimestamp = None, om_finalizers = [], om_annotations = None, om_ownerReferences = []\<rparr>"

definition cr0 :: fvsecret where
  "cr0 = \<lparr>fs_meta = meta0 ''app'',
     fs_Spec = \<lparr>ss_ConnectionRef = ''conn'', ss_Project = [], ss_Vault = ''vault'', ss_SelectorNames = [],
       ss_Target = \<lparr>st_Name = [], st_Type = []\<rparr>, ss_RefreshInterval = [], ss_RolloutRestart = [], ss_Transforms = []\<rparr>,
     fs_Status = \<lparr>sst_Conditions = [], sst_LastSyncedAt = None, sst_LastRolloutHash = [], sst_SyncedKeys = [],
       sst_MissingKeys = [], sst_ObservedGeneration = 0\<rparr>\<rparr>"

definition conn0 :: connection where
  "conn0 = \<lparr>cn_meta = meta0 ''conn'',
     cn_Spec = \<lparr>cs_Mode = [], cs_URL = ''https://vault'', cs_Organization = [],
       cs_TokenSecretRef = Some \<lparr>skr_Name = ''token'', skr_Key = ''t''\<rparr>, cs_OIDC = None\<rparr>,
     cn_Status = \<lparr>cst_Conditions = [], cst_LastCheckedAt = None\<rparr>\<rparr>"

definition cluster0 :: cluster where
  "cluster0 = \<lparr>cl_now = 0, cl_requests = 0, cl_secrets = (\<lambda>_. None), cl_crs = [((''ns'', ''app''), cr0)],
     cl_conns = [((''ns'', ''conn''), conn0)], cl_workloads = (\<lambda>_. None)\<rparr>"

definition proc0 :: "cluster proc" where
  "proc0 = \<lparr>p_world = cluster0, p_attempts = (\<lambda>_ _. None), p_cache = Some (\<lambda>_. None), p_last = 0, p_metrics = []\<rparr>"

section \<open>The laws hold in it\<close>

lemmas world0 = cluster_env_def read_def found_def write_cr_def write_conn_def create_or_update_def

lemma cluster_draws: "draws_in_range (cluster_env pf sent file)"
  by (auto simp: draws_in_range_def cluster_env_def)

text \<open>What only writes of objects change.\<close>

definition objects :: "cluster \<Rightarrow> cluster" where
  "objects w = w\<lparr>cl_now := 0, cl_requests := 0\<rparr>"

lemma cluster_reads: "reads_keep objects (cluster_env pf sent file)"
  by (auto simp: reads_keep_def cluster_env_def read_def keeps_def objects_def)

lemma cluster_reads_secrets: "reads_keep cl_secrets (cluster_env pf sent file)"
  by (auto simp: reads_keep_def cluster_env_def read_def keeps_def)

lemma cluster_status_secrets: "status_writes_keep cl_secrets (cluster_env pf sent file)"
  by (auto simp: status_writes_keep_def cluster_env_def write_cr_def write_conn_def keeps_def)

end
