(* ===== verification/Target_Facts.thy ===== *)
theory Target_Facts
  imports Secret_Facts Reference_Cluster
begin

text \<open>
  What a pass does to the target Secret, to the workloads and to the status of the resource:
  the write, the readiness it reports and the restarts it owes, with the cases where the code
  falls short of its description.
\<close>

section \<open>The API server's upsert\<close>

text \<open>
  \<open>controllerutil.CreateOrUpdate\<close> over a store of Secrets: the mutation is applied to the
  stored object, or to the given one when there is none, and the only write is that of its
  outcome, whose resource version is the server's business.  A success has made that write;
  after an error it may have been made or not, as when the answer to an update is lost.
\<close>

definition same_secret :: "k8s_secret \<Rightarrow> k8s_secret \<Rightarrow> bool" where
  "same_secret s t \<longleftrightarrow> sec_Data s = sec_Data t \<and> sec_StringData s = sec_StringData t \<and> sec_Type s = sec_Type t \<and>
     om_annotations (sec_meta s) = om_annotations (sec_meta t) \<and>
     om_ownerReferences (sec_meta s) = om_ownerReferences (sec_meta t)"

definition put_mutated ::
  "goerror + (k8s_secret \<times> string) \<Rightarrow> nname \<Rightarrow> (nname \<Rightarrow> k8s_secret option) \<Rightarrow> (nname \<Rightarrow> k8s_secret option) \<Rightarrow>
   k8s_secret \<Rightarrow> string \<Rightarrow> bool" where
  "put_mutated mutated key before after t x \<longleftrightarrow>
     (\<exists>u. mutated = Inr (u, x) \<and> same_secret t u \<and> after = before(key \<mapsto> t))"

definition upserts :: "('w \<Rightarrow> nname \<Rightarrow> k8s_secret option) \<Rightarrow> 'w env \<Rightarrow> bool" where
  "upserts store E \<longleftrightarrow> (\<forall>ctx s f w.
     let key = (om_namespace (sec_meta s), om_name (sec_meta s));
         base = (case store w key of None \<Rightarrow> s | Some cur \<Rightarrow> cur)
     in wp (e_create_or_update E ctx s f) (\<lambda>r w'.
          case r of
            Inl _ \<Rightarrow> store w' = store w \<or> (\<exists>t x. put_mutated (f base) key (store w) (store w') t x)
          | Inr (t, x) \<Rightarrow> put_mutated (f base) key (store w) (store w') t x) w)"

lemma cluster_upserts: "upserts cl_secrets (cluster_env pf sent file)"
  by (auto simp: upserts_def put_mutated_def world0 wp_def Let_def stored_def same_secret_def split: sum.splits)

lemma cluster_owner_only: "owner_only (cluster_env pf sent file)"
  by (auto simp: owner_only_def cluster_env_def set_sec_meta_def)

text \<open>The write of the target under that law.\<close>

abbreviation new_target :: "fvsecret \<Rightarrow> k8s_secret" where
  "new_target cr \<equiv> \<lparr>sec_meta = empty_meta (fs_Namespace cr) (targetName cr), sec_Type = [], sec_Data = [], sec_StringData = []\<rparr>"

abbreviation target_base :: "('w \<Rightarrow> nname \<Rightarrow> k8s_secret option) \<Rightarrow> fvsecret \<Rightarrow> 'w proc \<Rightarrow> k8s_secret" where
  "target_base store cr p \<equiv> (case store (p_world p) (target_key cr) of None \<Rightarrow> new_target cr | Some cur \<Rightarrow> cur)"

lemma ensureTargetSecret_upserts:
  assumes "upserts store E"
  shows "wp (ensureTargetSecret E ctx cr data newHash owned) (\<lambda>r p'.
    let put = put_mutated (mutate_target E cr data newHash owned (target_base store cr p)) (target_key cr)
      (store (p_world p)) (store (p_world p'))
    in case r of
      Inl _ \<Rightarrow> store (p_world p') = store (p_world p) \<or> (\<exists>t x. put t x)
    | Inr (t, x) \<Rightarrow> put t x) p"
proof -
  have key: "(om_namespace (sec_meta (new_target cr)), om_name (sec_meta (new_target cr))) = target_key cr"
    by (simp add: empty_meta_def target_key_def)
  note law = assms [unfolded upserts_def Let_def, rule_format, of ctx "new_target cr"
      "mutate_target E cr data newHash owned" "p_world p", unfolded key]
  show ?thesis
    unfolding ensureTargetSecret_def Let_def wp_in_world
    by (rule wp_mono [OF law]) (simp split: sum.split_asm prod.split_asm)
qed

section \<open>Status\<close>

text \<open>\<open>meta.RemoveStatusCondition\<close> removes the conditions of the given type.\<close>

definition removes_type :: "'w env \<Rightarrow> bool" where
  "removes_type E \<longleftrightarrow> (\<forall>cs ty. e_RemoveStatusCondition E cs ty = filter (\<lambda>c. c_type c \<noteq> ty) cs)"

lemma find_filter_other:
  "ty \<noteq> ty' \<Longrightarrow> find_condition ty (filter (\<lambda>c. c_type c \<noteq> ty') cs) = find_condition ty cs"
  by (induction cs) (auto simp: find_condition_def)

lemma find_filter_same: "find_condition ty (filter (\<lambda>c. c_type c \<noteq> ty) cs) = None"
  by (induction cs) (auto simp: find_condition_def)

lemma set_cr_condition_run:
  "run_state (set_cr_condition E cr c) p =
     (case run_state (e_now E) (p_world p) of (n, w) \<Rightarrow>
        (set_status (sst_Conditions_update (\<lambda>_.
           upsert_condition (c\<lparr>c_lastTransitionTime := n\<rparr>) (sst_Conditions (fs_Status cr)))) cr, p\<lparr>p_world := w\<rparr>))"
  by (simp add: set_cr_condition_def setCondition_def run_in_world split: prod.splits)

lemma wp_set_cr_condition:
  assumes "\<And>n w d. c_status d = c_status c \<Longrightarrow> c_reason d = c_reason c \<Longrightarrow> c_message d = c_message c \<Longrightarrow>
      find_condition (c_type c) (upsert_condition (c\<lparr>c_lastTransitionTime := n\<rparr>) (sst_Conditions (fs_Status cr))) = Some d \<Longrightarrow>
      Q (set_status (sst_Conditions_update (\<lambda>_.
           upsert_condition (c\<lparr>c_lastTransitionTime := n\<rparr>) (sst_Conditions (fs_Status cr)))) cr) (p\<lparr>p_world := w\<rparr>)"
  shows "wp (set_cr_condition E cr c) Q p"
proof -
  obtain n w where n: "run_state (e_now E) (p_world p) = (n, w)" by fastforce
  let ?c = "c\<lparr>c_lastTransitionTime := n\<rparr>"
  obtain d where d: "find_condition (c_type ?c) (upsert_condition ?c (sst_Conditions (fs_Status cr))) = Some d"
      "c_status d = c_status c" "c_reason d = c_reason c" "c_message d = c_message c"
    using find_upsert [of ?c "sst_Conditions (fs_Status cr)"] by (auto split: option.splits)
  show ?thesis
    unfolding wp_def set_cr_condition_run n prod.case using d by (intro assms) simp_all
qed

lemma synced_status_reports:
  assumes "removes_type E"
  shows "wp (synced_status E cr secret keys missing rolloutErr) (\<lambda>cr' _.
    sst_SyncedKeys (fs_Status cr') = keys \<and> sst_MissingKeys (fs_Status cr') = missing \<and>
    sst_ObservedGeneration (fs_Status cr') = om_generation (fs_meta cr) \<and>
    (\<exists>c. find_condition ''Ready'' (sst_Conditions (fs_Status cr')) = Some c \<and>
       (c_status c = (if missing = [] then ConditionTrue else ConditionFalse)) \<and>
       c_reason c = (if missing = [] then ''Synced'' else ''MissingKeys'')) \<and>
    (case find_condition conditionRolloutRestarted (sst_Conditions (fs_Status cr')) of
       None \<Rightarrow> ss_RolloutRestart (fs_Spec cr) = []
     | Some c \<Rightarrow> ss_RolloutRestart (fs_Spec cr) \<noteq> [] \<and>
         c_status c = (if rolloutErr = None then ConditionTrue else ConditionFalse))) p"
proof -
  have ne: "''Ready'' \<noteq> conditionRolloutRestarted" by (simp add: conditionRolloutRestarted_def)
  show ?thesis
    unfolding synced_status_def wp_bind wp_in_world wp_return
  proof (rule wpI, rule wp_set_cr_condition, goal_cases)
    case (1 now w n w2 d)
    have ty: "c_type d = ''Ready''"
      using 1(5) by (auto simp: find_condition_def find_Some_iff new_condition_def split: if_splits)
    show ?case
    proof (cases "ss_RolloutRestart (fs_Spec cr) = []")
      case True
      then show ?thesis
        using 1 assms ne
        by (auto simp: setRolloutCondition_def set_status_def wp_return removes_type_def find_filter_other
            find_filter_same new_condition_def split: if_splits)
    next
      case False
      show ?thesis
        unfolding setRolloutCondition_def
        using False 1 ne
        by (auto simp: set_status_def new_condition_def find_upsert_other intro!: wp_set_cr_condition
            split: if_splits option.splits)
    qed
  qed
qed

section \<open>Properties\<close>

text \<open>
  Property C2: what the operator writes over a Secret, and over which. Even if an update takes
  effect and its answer is lost, the target is only ever replaced when it is the operator's to
  take: there was none, or it is marked as managed, owned by this resource, or the connection's
  own token Secret. What then stands there has exactly the given data and no other, the declared
  type, the digest and the mark; its other annotations are those it had, and this resource no
  longer owns it when it is the connection's token. Success is reported only with that in place.
\<close>

theorem target_written_exactly:
  assumes "upserts store E" "owner_only E" "wf_map data"
  shows "wp (ensureTargetSecret E ctx cr data newHash owned) (\<lambda>r p'.
    let before = store (p_world p) (target_key cr);
        base = (case before of None \<Rightarrow> new_target cr | Some cur \<Rightarrow> cur)
    in (\<exists>e. r = Inl e) \<and> store (p_world p') = store (p_world p) \<or>
      (case before of None \<Rightarrow> True | Some cur \<Rightarrow>
         \<not> owned \<or> om_resourceVersion (sec_meta cur) = [] \<or>
         lookup (om_annotations (sec_meta cur)) fvAnnotationManagedBy \<noteq> None \<or>
         om_uid (fs_meta cr) \<in> or_uid ` set (om_ownerReferences (sec_meta cur))) \<and>
      (\<exists>t. store (p_world p') = (store (p_world p))(target_key cr \<mapsto> t) \<and>
         same_map (sec_Data t) data \<and> sec_StringData t = [] \<and>
         sec_Type t = (if st_Type (ss_Target (fs_Spec cr)) = [] then ''Opaque'' else st_Type (ss_Target (fs_Spec cr))) \<and>
         lookup (om_annotations (sec_meta t)) =
           (lookup (om_annotations (sec_meta base)))
             (fvAnnotationManagedBy \<mapsto> ''ferrvault-operator'', fvAnnotationContentHash \<mapsto> newHash) \<and>
         (owned \<or> om_ownerReferences (sec_meta t) =
            filter (\<lambda>ref. or_uid ref \<noteq> om_uid (fs_meta cr)) (om_ownerReferences (sec_meta base))))) p"
proof -
  let ?base = "target_base store cr p" and ?after = "\<lambda>p'. store (p_world p')"
  have put: "\<exists>t. after = before(target_key cr \<mapsto> t) \<and> same_map (sec_Data t) data \<and> sec_StringData t = [] \<and>
        sec_Type t = (if st_Type (ss_Target (fs_Spec cr)) = [] then ''Opaque'' else st_Type (ss_Target (fs_Spec cr))) \<and>
        lookup (om_annotations (sec_meta t)) = (lookup (om_annotations (sec_meta ?base)))
          (fvAnnotationManagedBy \<mapsto> ''ferrvault-operator'', fvAnnotationContentHash \<mapsto> newHash) \<and>
        (owned \<or> om_ownerReferences (sec_meta t) =
           filter (\<lambda>ref. or_uid ref \<noteq> om_uid (fs_meta cr)) (om_ownerReferences (sec_meta ?base)))"
    and fit: "adoptable ?base cr (\<not> owned)"
    if m: "put_mutated (mutate_target E cr data newHash owned ?base) (target_key cr) before after t x" for before after t x
  proof -
    from m obtain u where u: "mutate_target E cr data newHash owned ?base = Inr (u, x)" "same_secret t u"
        "after = before(target_key cr \<mapsto> t)" by (auto simp: put_mutated_def)
    note mutated = mutate_target_Inr [OF assms(2) u(1)]
    then show "adoptable ?base cr (\<not> owned)" by simp
    show "\<exists>t. after = before(target_key cr \<mapsto> t) \<and> same_map (sec_Data t) data \<and> sec_StringData t = [] \<and>
        sec_Type t = (if st_Type (ss_Target (fs_Spec cr)) = [] then ''Opaque'' else st_Type (ss_Target (fs_Spec cr))) \<and>
        lookup (om_annotations (sec_meta t)) = (lookup (om_annotations (sec_meta ?base)))
          (fvAnnotationManagedBy \<mapsto> ''ferrvault-operator'', fvAnnotationContentHash \<mapsto> newHash) \<and>
        (owned \<or> om_ownerReferences (sec_meta t) =
           filter (\<lambda>ref. or_uid ref \<noteq> om_uid (fs_meta cr)) (om_ownerReferences (sec_meta ?base)))"
      using mutated u(2,3) assms(3)
      by (intro exI [of _ t]) (auto simp: same_secret_def secretBytes_def map_simps withoutOwner_def SecretTypeOpaque_def fun_eq_iff)
  qed
  have fits: "case store (p_world p) (target_key cr) of None \<Rightarrow> True | Some cur \<Rightarrow>
      \<not> owned \<or> om_resourceVersion (sec_meta cur) = [] \<or>
      lookup (om_annotations (sec_meta cur)) fvAnnotationManagedBy \<noteq> None \<or>
      om_uid (fs_meta cr) \<in> or_uid ` set (om_ownerReferences (sec_meta cur))"
    if m: "put_mutated (mutate_target E cr data newHash owned ?base) (target_key cr) before after t x" for before after t x
    using fit [OF m] by (auto simp: adoptable_def list_ex_iff split: option.splits if_splits) (metis image_eqI)
  show ?thesis
  proof (rule wp_mono [OF ensureTargetSecret_upserts [OF assms(1)]], goal_cases)
    case (1 r p')
    then consider "\<exists>e. r = Inl e" "store (p_world p') = store (p_world p)"
      | t x where "put_mutated (mutate_target E cr data newHash owned ?base) (target_key cr)
          (store (p_world p)) (store (p_world p')) t x"
      by (auto simp: Let_def split: sum.splits prod.splits)
    then show ?case
    proof cases
      case 2
      then show ?thesis unfolding Let_def using put [OF 2] fits [OF 2] by (intro disjI2 conjI)
    qed (simp add: Let_def)
  qed
qed

text \<open>
  Property C17: the status of a pass that wrote the target says Ready exactly when no requested
  key is missing, records the keys it wrote, the missing ones, the generation it applied, and
  reports the restarts: not at all without workloads, otherwise False exactly when one failed.
\<close>

theorem synced_status_is_honest:
  assumes "removes_type E"
  shows "wp (synced_status E cr secret keys missing rolloutErr) (\<lambda>cr' _.
    sst_SyncedKeys (fs_Status cr') = keys \<and> sst_MissingKeys (fs_Status cr') = missing \<and>
    sst_ObservedGeneration (fs_Status cr') = om_generation (fs_meta cr) \<and>
    (\<exists>c. find_condition ''Ready'' (sst_Conditions (fs_Status cr')) = Some c \<and>
       (c_status c = (if missing = [] then ConditionTrue else ConditionFalse)) \<and>
       c_reason c = (if missing = [] then ''Synced'' else ''MissingKeys'')) \<and>
    (case find_condition conditionRolloutRestarted (sst_Conditions (fs_Status cr')) of
       None \<Rightarrow> ss_RolloutRestart (fs_Spec cr) = []
     | Some c \<Rightarrow> ss_RolloutRestart (fs_Spec cr) \<noteq> [] \<and>
         c_status c = (if rolloutErr = None then ConditionTrue else ConditionFalse))) p"
  by (rule synced_status_reports [OF assms])

text \<open>
  Property C8: a restart that failed is tried again. When the content changed and the restart
  of the workloads failed, the recorded hash is set and differs from the content just written,
  so the next pass over the same content finds a restart due.
\<close>

theorem failed_rollout_is_retried:
  assumes "\<forall>ctx x w. \<forall>y w'. run_state (e_status_secret_cr E ctx x) w = (Inr y, w') \<longrightarrow>
      sst_LastRolloutHash (fs_Status y) = sst_LastRolloutHash (fs_Status x) \<and>
      ss_RolloutRestart (fs_Spec y) = ss_RolloutRestart (fs_Spec x)"
    and "run_state (recordPendingRollout E ctx cr previous current) p = (Inr cr1, p1)"
    and "run_state (rolloutIfDue E ctx cr1 previous current) p2 = ((Some e, cr2), p3)"
  shows "rolloutDue (sst_LastRolloutHash (fs_Status cr2)) current current"
proof -
  have due: "rolloutDue (sst_LastRolloutHash (fs_Status cr1)) previous current" "cr2 = cr1"
      "ss_RolloutRestart (fs_Spec cr1) \<noteq> []"
    using assms(3) by (auto simp: rolloutIfDue_def split: if_splits prod.splits option.splits)
  have "sst_LastRolloutHash (fs_Status cr1) \<noteq> []"
  proof
    assume empty: "sst_LastRolloutHash (fs_Status cr1) = []"
    with due(1) have prev: "rolloutDue [] previous current" "previous \<noteq> []"
      by (auto simp: rolloutDue_def Let_def)
    show False
    proof (cases "ss_RolloutRestart (fs_Spec cr) = [] \<or> sst_LastRolloutHash (fs_Status cr) \<noteq> []")
      case True
      then show False using assms(2) due(3) empty by (auto simp: recordPendingRollout_def split: if_splits)
    next
      case False
      then have "\<exists>w w'. run_state (e_status_secret_cr E ctx
          (set_status (sst_LastRolloutHash_update (\<lambda>_. previous)) cr)) w = (Inr cr1, w')"
        using assms(2) prev(1)
        by (auto simp: recordPendingRollout_def run_in_world split: if_splits prod.splits sum.splits)
      then have "sst_LastRolloutHash (fs_Status cr1) = previous"
        using assms(1) by (fastforce simp: set_status_def)
      then show False using empty prev(2) by simp
    qed
  qed
  with due show ?thesis by (auto simp: rolloutDue_def Let_def)
qed

text \<open>
  Property C35 (a flaw): a restart can be missed. Two workloads are to be restarted because the
  content changed from \<open>n\<close> to \<open>m\<close>; the first is, the second is not there. The failure
  leaves \<open>n\<close> on record. If the content then returns to \<open>n\<close> before a retry, the next pass
  finds nothing due and touches nothing, so the first workload keeps running with \<open>m\<close>.
\<close>

theorem reverted_content_misses_restart:
  assumes "ss_RolloutRestart (fs_Spec cr) = [\<lparr>wr_Kind = ''Deployment'', wr_Name = a\<rparr>, \<lparr>wr_Kind = ''Deployment'', wr_Name = b\<rparr>]"
    and "sst_LastRolloutHash (fs_Status cr) = n" "n \<noteq> []" "m \<noteq> n"
    and "run_state (e_now E) (p_world p) = (t, w1)"
    and "run_state (e_get_workload E ctx KDeployment (fs_Namespace cr, a)) w1 = (Inr obj, w2)"
    and "lookup_str (wl_templateAnnotations obj) (hash_key cr) \<noteq> m"
    and "\<And>new. wl_meta new = wl_meta obj \<Longrightarrow> run_state (e_patch_workload E ctx KDeployment obj new) w2 = (None, w3 new)"
    and "\<And>new. wl_meta new = wl_meta obj \<Longrightarrow>
      run_state (e_get_workload E ctx KDeployment (fs_Namespace cr, b)) (w3 new) = (Inl err, w3 new)"
  shows "\<exists>p1 new. run_state (rolloutIfDue E ctx cr n m) p = ((Some err, cr), p1) \<and>
    lookup (wl_templateAnnotations new) (hash_key cr) = Some m \<and> p_world p1 = w3 new \<and>
    run_state (rolloutIfDue E ctx cr m n) p1 = ((None, cr), p1)"
proof -
  let ?new = "obj\<lparr>wl_templateAnnotations := Some (mset_key (hash_key cr) m
      (mset_key fvAnnotationRestartedAt (FormatRFC3339Nano t) (made (wl_templateAnnotations obj))))\<rparr>"
  have "rolloutDue n n m" "\<not> rolloutDue n m n" using assms(3,4) by (simp_all add: rolloutDue_def)
  then have "run_state (rolloutIfDue E ctx cr n m) p = ((Some err, cr), p\<lparr>p_world := w3 ?new\<rparr>)"
    "run_state (rolloutIfDue E ctx cr m n) q = ((None, cr), q)" for q
    using assms
    by (simp_all add: rolloutIfDue_def triggerRollouts_def rollout_one_def workload_kind_of_def
        patchPodTemplate_def run_in_world set_status_def)
  then show ?thesis
    by (intro exI [of _ "p\<lparr>p_world := w3 ?new\<rparr>"] exI [of _ ?new]) (simp add: map_simps)
qed

end
