(* ===== verification/Connection_Facts.thy ===== *)
theory Connection_Facts
  imports Watches Target_Facts
begin

text \<open>
  What a pass of the FerrVaultConnection reconciler guarantees, what its probe accepts, and
  which resources a change of a Secret wakes up.
\<close>

section \<open>What a pass leaves alone\<close>

lemma keeps_with_broker:
  assumes "reads_keep obs E" "\<And>b. br = Some b \<Longrightarrow> broker_keeps obs b"
  shows "keeps (\<lambda>p. obs (p_world p)) (with_broker br E (\<lambda>b. TokenFor E b ctx conn))"
proof (cases br)
  case None
  have "keeps (\<lambda>p. obs (p_world p)) (TokenFor E (NewTokenBroker E) ctx conn)"
    by (rule real_broker.token_reads [OF assms(1)])
  then show ?thesis
    unfolding with_broker_def None option.case
    by (intro keeps_intros) simp_all
next
  case (Some b)
  then show ?thesis using keeps_TokenFor [OF assms(1) assms(2)] by (simp add: with_broker_def)
qed

lemma keeps_WithTimeout: "reads_keep obs E \<Longrightarrow> keeps obs (WithTimeout E ctx d)"
  unfolding WithTimeout_def by (intro keeps_bind keeps_return reads_keepD(1))

lemma keeps_probe:
  assumes "reads_keep obs E" "\<And>b. cr_Broker r = Some b \<Longrightarrow> broker_keeps obs b"
  shows "keeps (\<lambda>p. obs (p_world p)) (probe E r ctx conn)"
  unfolding probe_def
  by (intro keeps_bind keeps_case_sum keeps_case_option keeps_return keeps_in_world keeps_with_broker assms
      keeps_client_calls keeps_WithTimeout)

lemma keeps_checked_status:
  "reads_keep obs E \<Longrightarrow> keeps (\<lambda>p. obs (p_world p)) (checked_status E conn st rsn msg)"
  unfolding checked_status_def by (intro keeps_bind keeps_in_world keeps_setCondition keeps_return reads_keepD(1))

section \<open>The status of a check\<close>

lemma checked_status_stamps:
  "wp (checked_status E conn status reason message) (\<lambda>c p'.
     cn_meta c = cn_meta conn \<and> cn_Spec c = cn_Spec conn \<and>
     (\<exists>now v v'. run_state (e_now E) v = (now, v') \<and> cst_LastCheckedAt (cn_Status c) = Some now) \<and>
     (\<exists>d. find_condition ''Ready'' (cst_Conditions (cn_Status c)) = Some d \<and>
        c_status d = status \<and> c_reason d = reason \<and> c_message d = message) \<and>
     filter (\<lambda>d. c_type d \<noteq> ''Ready'') (cst_Conditions (cn_Status c)) =
       filter (\<lambda>d. c_type d \<noteq> ''Ready'') (cst_Conditions (cn_Status conn)) \<and>
     (\<exists>w. p' = p\<lparr>p_world := w\<rparr>)) p"
proof -
  obtain n1 w1 where n1: "run_state (e_now E) (p_world p) = (n1, w1)" by fastforce
  obtain n2 w2 where n2: "run_state (e_now E) w1 = (n2, w2)" by fastforce
  define k where "k = (new_condition ''Ready'' status reason message)\<lparr>c_lastTransitionTime := n2\<rparr>"
  have ty: "c_type k = ''Ready''" "c_status k = status" "c_reason k = reason" "c_message k = message"
    by (simp_all add: k_def new_condition_def)
  have run: "run_state (checked_status E conn status reason message) p =
      (conn\<lparr>cn_Status := \<lparr>cst_Conditions = upsert_condition k (cst_Conditions (cn_Status conn)),
        cst_LastCheckedAt = Some n1\<rparr>\<rparr>, p\<lparr>p_world := w2\<rparr>)"
    using n1 n2 by (simp add: checked_status_def setCondition_def run_in_world k_def)
  obtain d where "find_condition ''Ready'' (upsert_condition k (cst_Conditions (cn_Status conn))) = Some d"
      "c_status d = status" "c_reason d = reason" "c_message d = message"
    using find_upsert [of k "cst_Conditions (cn_Status conn)"] ty by (auto split: option.splits)
  then show ?thesis
    unfolding wp_def run prod.case
    using n1 filter_upsert_other [of k "cst_Conditions (cn_Status conn)", unfolded ty] by auto
qed

text \<open>What the answer to a probe decides.\<close>

lemma probe_answered:
  assumes "api_answers E ctx cnt sent" and "sent (cnt w) = Inr resp" and "rs_Body resp = Inr body"
    and "\<not> (500 \<le> rs_StatusCode resp \<and> rs_StatusCode resp \<le> 599)"
    and "url_Parse (e_pf E) (url_String (endpoint c ''/healthz'')) \<noteq> None"
  shows "wp (Probe E c ctx) (\<lambda>err w'. cnt w' = Suc (cnt w) \<and> (err = None \<longleftrightarrow> rs_StatusCode resp = 200) \<and>
    (IsRateLimited err \<longleftrightarrow> rs_StatusCode resp = 429)) w"
proof -
  let ?send = "send_request E c ctx (build_request (e_pf E) ''ferrvault: build probe request: %w''
      ''GET'' (url_String (endpoint c ''/healthz'')) None [(''Accept'', ''application/json'')])"
  have s: "serves E ctx ?send cnt sent" by (rule api_request_serves [OF assms(1,5)])
  let ?r = "attempt_result classify_probe (sent (cnt w)) ()"
  have r: "fst ?r = None \<longleftrightarrow> rs_StatusCode resp = 200" "IsRateLimited (fst ?r) \<longleftrightarrow> rs_StatusCode resp = 429"
    using assms(2,3) by (simp_all add: attempt_result_def classify_probe_def http_statuses api_status_simps)
  have "wp (doWithRetry E c ctx ?send classify_probe ())
      (\<lambda>(a, err, o') w'. a = 1 \<and> cnt w' = Suc (cnt w) \<and> o' = snd ?r \<and> err = annotateAttempts 1 (fst ?r)) w"
  proof (rule single_attempt [OF s probe.error_leaves_out])
    show "\<not> wants_retry (fst ?r)"
      using probe.final_outcome [OF assms(3,4), of "()"] by (simp only: assms(2) wants_retry_def not_False_eq_True)
  qed
  then show ?thesis
    unfolding Probe_def Let_def wp_bind
    by (rule wp_mono) (auto simp: wp_return r)
qed

text \<open>What a pass finds out about a connection.\<close>

definition verdict :: "'w env \<Rightarrow> connection \<Rightarrow> goerror + string \<Rightarrow> int \<Rightarrow> condition_status \<times> string" where
  "verdict E conn tok code =
     (case tok of
        Inl _ \<Rightarrow> (ConditionFalse, ''TokenUnreadable'')
      | Inr token \<Rightarrow>
          (case New (e_pf E) (cs_URL (cn_Spec conn)) token [] of
             Inl _ \<Rightarrow> (ConditionFalse, ''InvalidConnection'')
           | Inr _ \<Rightarrow> if code = 200 then (ConditionTrue, ''Reachable'') else (ConditionFalse, ''Unreachable'')))"

lemma New_error_kind: "New pf raw token opts = Inl e \<Longrightarrow> \<not> IsRateLimited (Some e)"
  by (auto simp: New_def Let_def IsRateLimited_def split: if_splits option.splits)

section \<open>Lists\<close>

text \<open>
  The API server's lists: exactly the objects of the namespace whose index holds the value,
  and listing changes nothing. \<open>crs\<close> and \<open>conns\<close> are the objects it stores.
\<close>

definition lists_match ::
  "'w env \<Rightarrow> ('w \<Rightarrow> fvsecret list) \<Rightarrow> ('w \<Rightarrow> connection list) \<Rightarrow> bool" where
  "lists_match E crs conns \<longleftrightarrow>
     (\<forall>ctx ns v w. run_state (e_list_secret_crs E ctx (in_namespace_with ns fvSecretConnectionRefIndexKey v)) w =
        (Inr (filter (\<lambda>s. fs_Namespace s = ns \<and> v \<in> set (connectionRef_index s)) (crs w)), w)) \<and>
     (\<forall>ctx ns v w. run_state (e_list_connections E ctx (in_namespace_with ns tokenSecretIndexKey v)) w =
        (Inr (filter (\<lambda>c. cn_Namespace c = ns \<and> v \<in> set (tokenSecret_index c)) (conns w)), w))"

lemma mem_fvRequestsForList:
  "(ns, n) \<in> set (fvRequestsForList xs) \<longleftrightarrow> (\<exists>s\<in>set xs. fs_Namespace s = ns \<and> fs_Name s = n)"
  by (auto simp: fvRequestsForList_def)

lemma mem_dependants:
  "(ns, n) \<in> set (concat (map (\<lambda>c. fvRequestsForList (F c)) cs)) \<longleftrightarrow>
     (\<exists>c\<in>set cs. \<exists>s\<in>set (F c). fs_Namespace s = ns \<and> fs_Name s = n)"
  by (auto simp: mem_fvRequestsForList)

lemma run_collect_dependants:
  assumes "lists_match E crs conns"
  shows "run_state (collect_dependants E ctx acc cs) w =
    (acc @ concat (map (\<lambda>c. fvRequestsForList (filter (\<lambda>s. fs_Namespace s = cn_Namespace c \<and>
       cn_Name c \<in> set (connectionRef_index s)) (crs w))) cs), w)"
  using assms by (induction cs arbitrary: acc) (simp_all add: lists_match_def)

lemma cluster_lists: "lists_match (cluster_env pf sent file) (\<lambda>w. map snd (cl_crs w)) (\<lambda>w. map snd (cl_conns w))"
proof -
  have keys: "fvSecretConnectionRefIndexKey = ''.spec.connectionRef.name''"
    "tokenSecretIndexKey = ''.spec.tokenSecretRef.name''"
    by (simp_all only: fvSecretConnectionRefIndexKey_def tokenSecretIndexKey_def)
  have ix: "cr_index fvSecretConnectionRefIndexKey = connectionRef_index"
    "conn_index tokenSecretIndexKey = tokenSecret_index"
    by (rule ext, simp add: keys cr_index_def conn_index_def connectionRef_index_def tokenSecret_index_def)+
  have ops: "e_list_secret_crs (cluster_env pf sent file) =
      (\<lambda>_ lo. read (\<lambda>w. Inr (selected lo fs_meta cr_index (map snd (cl_crs w)))))"
    "e_list_connections (cluster_env pf sent file) =
      (\<lambda>_ lo. read (\<lambda>w. Inr (selected lo cn_meta conn_index (map snd (cl_conns w)))))"
    by (simp_all add: cluster_env_def)
  show ?thesis
    by (simp add: lists_match_def ops read_def selected_def in_namespace_with_def ix Let_def)
qed

section \<open>Properties\<close>

text \<open>
  Property C16: a connection is not released while something depends on it. When the list of
  dependants is not empty, the pass leaves every part of the cluster alone that only an
  update of an object can change, its finalizer included, writes Ready=False with reason
  DeletionBlocked, and comes back in thirty seconds unless that write failed.
\<close>

theorem deletion_waits_for_dependants:
  assumes "reads_keep obs E" "status_writes_keep obs E"
    and "run_state (e_list_secret_crs E ctx (dependants_of conn)) (p_world p) = (Inr items, w1)" "items \<noteq> []"
  shows "wp (handleDelete E ctx conn) (\<lambda>outcome p'. obs (p_world p') = obs (p_world p) \<and>
    (snd outcome = None \<longrightarrow> RequeueAfter (fst outcome) = 30 * second) \<and>
    (\<exists>c w. p_world p' = snd (run_state (e_status_connection E ctx c) w) \<and> cn_meta c = cn_meta conn \<and>
       (\<exists>d. find_condition ''Ready'' (cst_Conditions (cn_Status c)) = Some d \<and> c_status d = ConditionFalse \<and>
          c_reason d = ''DeletionBlocked''))) p"
proof (rule wp_conj)
  have "keeps obs (e_list_secret_crs E ctx (dependants_of conn))" by (rule reads_keepD [OF assms(1)])
  then have w1: "obs w1 = obs (p_world p)" using assms(3) by (rule keepsD)
  define q where "q = p\<lparr>p_world := w1\<rparr>"
  let ?blocked = "\<lambda>x. case x of Inl err \<Rightarrow> fail_with (Wrapf (Sprintf ''update status: %w'' [AErr err]) err)
      | Inr _ \<Rightarrow> requeue connectionInUseRequeue"
  let ?rest = "do { c \<leftarrow> checked_status E conn ConditionFalse ''DeletionBlocked'' (blocked_message items);
      updated \<leftarrow> in_world (e_status_connection E ctx c); ret (?blocked updated) }"
  have split: "wp (handleDelete E ctx conn) Q p = wp ?rest Q q" for Q
    unfolding handleDelete_def wp_bind [of "in_world (e_list_secret_crs E ctx (dependants_of conn))"]
      wp_in_world wp_def [of "e_list_secret_crs E ctx (dependants_of conn)"] assms(3) prod.case sum.case
    by (simp only: if_False assms(4) q_def)
  have "keeps (\<lambda>p. obs (p_world p)) ?rest"
    by (intro keeps_bind keeps_return keeps_in_world keeps_checked_status assms(1) writes_keepD(2) [OF assms(2)])
  then have "wp ?rest (\<lambda>_ p'. obs (p_world p') = obs (p_world q)) q" by (rule keeps_wp) (rule refl)
  then show "wp (handleDelete E ctx conn) (\<lambda>_ p'. obs (p_world p') = obs (p_world p)) p"
    by (simp add: split q_def w1)
  obtain n1 w2 where n1: "run_state (e_now E) w1 = (n1, w2)" by fastforce
  obtain n2 w3 where n2: "run_state (e_now E) w2 = (n2, w3)" by fastforce
  define k where "k = (new_condition ''Ready'' ConditionFalse ''DeletionBlocked'' (blocked_message items))
    \<lparr>c_lastTransitionTime := n2\<rparr>"
  define c where "c = conn\<lparr>cn_Status := \<lparr>cst_Conditions = upsert_condition k (cst_Conditions (cn_Status conn)),
      cst_LastCheckedAt = Some n1\<rparr>\<rparr>"
  obtain res w4 where st: "run_state (e_status_connection E ctx c) w3 = (res, w4)" by fastforce
  have "run_state (checked_status E conn ConditionFalse ''DeletionBlocked'' (blocked_message items)) q =
      (c, q\<lparr>p_world := w3\<rparr>)"
    using n1 n2 by (simp add: checked_status_def setCondition_def run_in_world q_def c_def k_def)
  then have run: "run_state ?rest q = (?blocked res, q\<lparr>p_world := w4\<rparr>)"
    using st by (simp add: run_in_world)
  have "\<exists>d. find_condition ''Ready'' (cst_Conditions (cn_Status c)) = Some d \<and> c_status d = ConditionFalse \<and>
      c_reason d = ''DeletionBlocked''"
    using find_upsert [of k "cst_Conditions (cn_Status conn)"]
    by (auto simp: c_def k_def new_condition_def split: option.splits)
  moreover have "cn_meta c = cn_meta conn" by (simp add: c_def)
  moreover have "w4 = snd (run_state (e_status_connection E ctx c) w3)" by (simp add: st)
  moreover have "snd (?blocked res) = None \<longrightarrow> RequeueAfter (fst (?blocked res)) = 30 * second"
    by (cases res) (simp_all add: fail_with_def requeue_def connectionInUseRequeue_def)
  ultimately show "wp (handleDelete E ctx conn) (\<lambda>outcome p'.
      (snd outcome = None \<longrightarrow> RequeueAfter (fst outcome) = 30 * second) \<and>
      (\<exists>c w. p_world p' = snd (run_state (e_status_connection E ctx c) w) \<and> cn_meta c = cn_meta conn \<and>
       (\<exists>d. find_condition ''Ready'' (cst_Conditions (cn_Status c)) = Some d \<and> c_status d = ConditionFalse \<and>
          c_reason d = ''DeletionBlocked''))) p"
    unfolding split wp_def [of ?rest] run prod.case by auto
qed


text \<open>
  Property C39 (the code accepts more than its description): the probe looks at the status
  only. Any readable 200 answer counts as healthy, whatever its body says, although the
  description asks for the body \<open>{"status":"ok"}\<close>; every other status below 500 is an error
  after a single request.
\<close>

theorem probe_ignores_body:
  assumes "api_answers E ctx cnt sent" and "sent (cnt w) = Inr resp" and "rs_Body resp = Inr body"
    and "\<not> (500 \<le> rs_StatusCode resp \<and> rs_StatusCode resp \<le> 599)"
    and "url_Parse (e_pf E) (url_String (endpoint c ''/healthz'')) \<noteq> None"
  shows "wp (Probe E c ctx) (\<lambda>err w'. cnt w' = Suc (cnt w) \<and> (err = None \<longleftrightarrow> rs_StatusCode resp = 200)) w"
  by (rule wp_mono [OF probe_answered [OF assms]]) simp

text \<open>
  Property C12: the Ready condition of a connection tells the truth. With a token and a valid
  address the probe's first answer is outside 5xx and 429; without, nothing is sent and the error
  is no 429. The pass then writes the connection as it was but for its status: the time of this
  check and, the other conditions in place, Ready=True with reason Reachable exactly when that
  answer was a 200, otherwise Ready=False with TokenUnreadable, InvalidConnection or Unreachable
  for what was missing. Once that is written the gauge of the connection shows the same verdict
  and the next check is in ten minutes; if it cannot be written the pass is an error and the
  gauge stays. Past 429s are forgotten.
\<close>

theorem connection_verdict_is_honest:
  assumes "run_state (with_broker (cr_Broker r) E (\<lambda>b. TokenFor E b ctx conn)) p = (tok, p1)"
    and "case tok of
        Inl e \<Rightarrow> \<not> IsRateLimited (Some e)
      | Inr token \<Rightarrow> \<forall>c. New (e_pf E) (cs_URL (cn_Spec conn)) token [] = Inr c \<longrightarrow>
          url_Parse (e_pf E) (url_String (endpoint c ''/healthz'')) \<noteq> None \<and>
          sent (cnt (p_world p1)) = Inr resp \<and> rs_Body resp = Inr body \<and>
          \<not> (500 \<le> rs_StatusCode resp \<and> rs_StatusCode resp \<le> 599) \<and> rs_StatusCode resp \<noteq> 429"
    and "\<forall>d. api_answers E d cnt sent" "keeps cnt (e_now E)"
  shows "wp (connection_probe E r ctx req conn) (\<lambda>outcome p'.
    let (status, reason) = verdict E conn tok (rs_StatusCode resp)
    in attempts_of p' ConnectionController req = 0 \<and>
      (\<exists>c w. cn_meta c = cn_meta conn \<and> cn_Spec c = cn_Spec conn \<and>
        (\<exists>now v v'. run_state (e_now E) v = (now, v') \<and> cst_LastCheckedAt (cn_Status c) = Some now) \<and>
        (\<exists>d. find_condition ''Ready'' (cst_Conditions (cn_Status c)) = Some d \<and> c_status d = status \<and> c_reason d = reason) \<and>
        filter (\<lambda>d. c_type d \<noteq> ''Ready'') (cst_Conditions (cn_Status c)) =
          filter (\<lambda>d. c_type d \<noteq> ''Ready'') (cst_Conditions (cn_Status conn)) \<and>
        (case run_state (e_status_connection E ctx c) w of
           (Inl e, w') \<Rightarrow> p_world p' = w' \<and> snd outcome \<noteq> None \<and> p_metrics p' = p_metrics p1
         | (Inr y, w') \<Rightarrow> p_world p' = w' \<and> outcome = requeue (10 * minute) \<and>
             p_metrics p' = SetGauge ConnectionReady (cn_Namespace y) (cn_Name y)
               (if status = ConditionTrue then 1 else 0) # p_metrics p1))) p"
proof -
  obtain status reason where verdict: "verdict E conn tok (rs_StatusCode resp) = (status, reason)" by fastforce
  have probed: "wp (probe E r ctx conn) (\<lambda>pr q. pr_status pr = status \<and> pr_reason pr = reason \<and>
      \<not> IsRateLimited (pr_err pr) \<and> p_metrics q = p_metrics p1) p"
  proof (cases tok)
    case (Inl e)
    then show ?thesis
      using assms(1,2) verdict
      by (simp add: probe_def wp_bind wp_def [of "with_broker _ _ _"] wp_return probe_failed_def verdict_def)
  next
    case (Inr token)
    show ?thesis
    proof (cases "New (e_pf E) (cs_URL (cn_Spec conn)) token []")
      case (Inl e)
      then show ?thesis
        using assms(1) verdict Inr New_error_kind [OF Inl]
        by (simp add: probe_def wp_bind wp_def [of "with_broker _ _ _"] wp_return probe_failed_def verdict_def)
    next
      case New: (Inr c)
      obtain now v where now: "run_state (e_now E) (p_world p1) = (now, v)" by fastforce
      have cnt: "cnt v = cnt (p_world p1)" by (rule keepsD [OF assms(4) now])
      have said: "url_Parse (e_pf E) (url_String (endpoint c ''/healthz'')) \<noteq> None" "sent (cnt (p_world p1)) = Inr resp"
        "rs_Body resp = Inr body" "\<not> (500 \<le> rs_StatusCode resp \<and> rs_StatusCode resp \<le> 599)" "rs_StatusCode resp \<noteq> 429"
        using assms(2) New unfolding Inr by auto
      have ans: "wp (Probe E c d) (\<lambda>err w'. (err = None \<longleftrightarrow> rs_StatusCode resp = 200) \<and>
          (IsRateLimited err \<longleftrightarrow> rs_StatusCode resp = 429)) v" for d
        by (rule wp_mono [OF probe_answered [OF assms(3) [rule_format] _ said(3,4,1)]]) (use said(2) cnt in simp_all)
      show ?thesis
        using verdict said(5)
        by (simp add: probe_def wp_bind wp_def [of "with_broker _ _ _"] assms(1) Inr New wp_in_world WithTimeout_def
            wp_def [of "e_now E"] now wp_return verdict_def)
          (rule wp_mono [OF ans], auto simp: wp_return probe_failed_def split: option.splits if_splits)
    qed
  qed
  let ?written = "\<lambda>updated. case updated of
      Inl err \<Rightarrow> ret (fail_with (Wrapf (Sprintf ''update status: %w'' [AErr err]) err))
    | Inr conn \<Rightarrow> State_Monad.bind (SetConnectionReady (cn_Namespace conn) (cn_Name conn) (status = ConditionTrue))
        (\<lambda>_. ret (requeue connectionProbeInterval))"
  show ?thesis
    unfolding connection_probe_def wp_bind [of "probe E r ctx conn"] verdict Let_def prod.case
  proof (rule wp_mono [OF probed], elim conjE, goal_cases)
    case (1 pr q)
    note probed = 1
    show ?case
      unfolding if_not_P [OF 1(3)] unfolding wp_bind [of "forget ConnectionController req"]
      unfolding forget_def wp_modify wp_bind [of "checked_status E conn _ _ _"]
    proof (rule wp_mono [OF checked_status_stamps], elim conjE exE, goal_cases)
      case (1 c p' now d w v v')
      have here: "attempts_of p' ConnectionController req = 0" "p_metrics p' = p_metrics p1"
        "status = pr_status pr" "reason = pr_reason pr"
        using 1 probed by (simp_all add: attempts_of_def)
      obtain res w' where st: "run_state (e_status_connection E ctx c) (p_world p') = (res, w')" by fastforce
      have "wp (State_Monad.bind (in_world (e_status_connection E ctx c)) ?written) (\<lambda>outcome q.
          attempts_of q ConnectionController req = 0 \<and>
          (case run_state (e_status_connection E ctx c) (p_world p') of
             (Inl e, w') \<Rightarrow> p_world q = w' \<and> snd outcome \<noteq> None \<and> p_metrics q = p_metrics p1
           | (Inr y, w') \<Rightarrow> p_world q = w' \<and> outcome = requeue (10 * minute) \<and>
               p_metrics q = SetGauge ConnectionReady (cn_Namespace y) (cn_Name y)
                 (if status = ConditionTrue then 1 else 0) # p_metrics p1)) p'"
        using here
        by (cases res) (simp_all add: wp_bind wp_in_world wp_def [of "e_status_connection E ctx c"] st wp_return
          SetConnectionReady_def wp_metric fail_with_def connectionProbeInterval_def attempts_of_def)
      then show ?case
        unfolding here(3) [symmetric]
        by (rule wp_mono, elim conjE, intro conjI exI [of _ c] exI [of _ "p_world p'"])
          (use 1 here in \<open>(assumption | blast)+\<close>)
    qed
  qed
qed

text \<open>
  Property C29: a change of a token Secret wakes up exactly the resources that depend on it:
  the FerrVaultSecrets of the namespace whose connection, in that namespace, names the Secret
  as its token.
\<close>

theorem token_rotation_reaches_dependants:
  assumes "lists_match E crs conns"
  shows "wp (secretsReferencingTokenSecret E ctx obj) (\<lambda>reqs w'. w' = w \<and>
    (\<forall>ns n. (ns, n) \<in> set reqs \<longleftrightarrow>
      (\<exists>s\<in>set (crs w). \<exists>c\<in>set (conns w). fs_Namespace s = ns \<and> fs_Name s = n \<and>
         ss_ConnectionRef (fs_Spec s) = cn_Name c \<and> fs_Namespace s = cn_Namespace c \<and>
         cn_Namespace c = om_namespace obj \<and>
         (\<exists>ref. cs_TokenSecretRef (cn_Spec c) = Some ref \<and> skr_Name ref = om_name obj)))) w"
proof -
  let ?conns = "filter (\<lambda>c. cn_Namespace c = om_namespace obj \<and> om_name obj \<in> set (tokenSecret_index c)) (conns w)"
  have "run_state (secretsReferencingTokenSecret E ctx obj) w =
      (concat (map (\<lambda>c. fvRequestsForList (filter (\<lambda>s. fs_Namespace s = cn_Namespace c \<and>
         cn_Name c \<in> set (connectionRef_index s)) (crs w))) ?conns), w)"
    using assms run_collect_dependants [OF assms, of ctx "[]"]
    by (simp add: secretsReferencingTokenSecret_def lists_match_def)
  moreover have ix: "om_name obj \<in> set (tokenSecret_index c) \<longleftrightarrow>
      (\<exists>ref. cs_TokenSecretRef (cn_Spec c) = Some ref \<and> skr_Name ref = om_name obj)" for c
    by (cases "cs_TokenSecretRef (cn_Spec c)") (auto simp: tokenSecret_index_def)
  moreover have "(ns, n) \<in> set (concat (map (\<lambda>c. fvRequestsForList (filter (\<lambda>s. fs_Namespace s = cn_Namespace c \<and>
         cn_Name c \<in> set (connectionRef_index s)) (crs w))) ?conns)) \<longleftrightarrow>
      (\<exists>s\<in>set (crs w). \<exists>c\<in>set (conns w). fs_Namespace s = ns \<and> fs_Name s = n \<and>
         ss_ConnectionRef (fs_Spec s) = cn_Name c \<and> fs_Namespace s = cn_Namespace c \<and>
         cn_Namespace c = om_namespace obj \<and> om_name obj \<in> set (tokenSecret_index c))"
    for ns n
    unfolding mem_dependants set_filter mem_Collect_eq connectionRef_index_def list.set singleton_iff
      eq_commute [of "cn_Name _"] bex_simps
    by blast
  ultimately show ?thesis
    by (simp add: wp_def)
qed

end
