(* ===== verification/Manager.thy ===== *)
theory Manager
  imports Client_Facts Watches
begin

text \<open>
  \<open>cmd/main.go\<close>: the flags and their defaults, the check of the reconcile timeout, the kinds
  that are read past the cache, and the start-up sequence. The manager of controller-runtime is
  the parameter \<open>startup\<close>; logging is left out. The flags are parsed in \<open>Command_Line\<close>.
\<close>

definition validateReconcileTimeout :: "platform \<Rightarrow> duration \<Rightarrow> goerror option" where
  "validateReconcileTimeout pf d =
     (let floor_d = LongestCall pf DefaultRetryPolicy RequestTimeout
      in if d < floor_d then
           Some (Errorf (Sprintf ''%s is below %s, the longest one FerrVault API call can legitimately take with its retries; 0 would disable the guardrail and anything shorter cancels healthy reveals''
             [AInt d, AInt floor_d]))
         else None)"

definition fmtNs :: "string \<Rightarrow> gomsg" where
  "fmtNs ns = (if ns = [] then Sprintf ''<cluster-wide>'' [] else Sprintf ''%q'' [AStr ns])"

definition uncachedReadKinds :: "object_kind list" where
  "uncachedReadKinds = [ODeployment, OStatefulSet, ODaemonSet, OSecret]"

section \<open>Start-up\<close>

record flags =
  fl_metricsAddr :: string
  fl_probeAddr :: string
  fl_enableLeaderElection :: bool
  fl_leaderElectionID :: string
  fl_defaultRefreshInterval :: duration
  fl_watchNamespace :: string
  fl_stallThreshold :: duration
  fl_reconcileTimeout :: duration

definition default_flags :: flags where
  "default_flags =
     \<lparr>fl_metricsAddr = '':8080'', fl_probeAddr = '':8081'', fl_enableLeaderElection = False,
      fl_leaderElectionID = ''ferrvault-operator.ferrvault.com'', fl_defaultRefreshInterval = hour,
      fl_watchNamespace = [], fl_stallThreshold = 15 * minute, fl_reconcileTimeout = 2 * minute\<rparr>"

record manager_options =
  mo_MetricsBindAddress :: string
  mo_HealthProbeBindAddress :: string
  mo_LeaderElection :: bool
  mo_LeaderElectionID :: string
  mo_ReconciliationTimeout :: duration
  mo_DefaultNamespaces :: "string list option"
  mo_DisableFor :: "object_kind list"

definition manager_options_of :: "flags \<Rightarrow> manager_options" where
  "manager_options_of fl =
     \<lparr>mo_MetricsBindAddress = fl_metricsAddr fl, mo_HealthProbeBindAddress = fl_probeAddr fl,
      mo_LeaderElection = fl_enableLeaderElection fl, mo_LeaderElectionID = fl_leaderElectionID fl,
      mo_ReconciliationTimeout = fl_reconcileTimeout fl,
      mo_DefaultNamespaces = (if fl_watchNamespace fl \<noteq> [] then Some [fl_watchNamespace fl] else None),
      mo_DisableFor = uncachedReadKinds\<rparr>"

type_synonym 'w checker = "ctx \<Rightarrow> ('w proc, goerror option) state"

record 'w startup =
  sp_NewManager :: "manager_options \<Rightarrow> ('w, goerror + 'w manager_api) state"
  sp_Ping :: "'w checker"
  sp_AddHealthzCheck :: "string \<Rightarrow> 'w checker \<Rightarrow> ('w, goerror option) state"
  sp_AddReadyzCheck :: "string \<Rightarrow> 'w checker \<Rightarrow> ('w, goerror option) state"
  sp_Start :: "('w, goerror option) state"

text \<open>How \<open>main\<close> ends: \<open>os.Exit(1)\<close> after logging a message and an error, or by returning.\<close>

datatype program_end = ExitOne string goerror | Returned

definition or_exit ::
  "string \<Rightarrow> ('w, goerror option) state \<Rightarrow> ('w proc, program_end) state \<Rightarrow> ('w proc, program_end) state" where
  "or_exit msg step rest = do {
     err \<leftarrow> in_world step;
     case err of Some e \<Rightarrow> ret (ExitOne msg e) | None \<Rightarrow> rest }"

definition secret_reconciler_of :: "'w env \<Rightarrow> flags \<Rightarrow> 'w secret_reconciler" where
  "secret_reconciler_of E fl =
     \<lparr>sr_DefaultRefreshInterval = fl_defaultRefreshInterval fl, sr_ClientFactory = None,
      sr_Broker = Some (NewTokenBroker E), sr_Heartbeat = True\<rparr>"

definition connection_reconciler_of :: "'w env \<Rightarrow> 'w connection_reconciler" where
  "connection_reconciler_of E = \<lparr>cr_Broker = Some (NewTokenBroker E), cr_Heartbeat = True\<rparr>"

text \<open>Making the broker empties the cache that both reconcilers share from then on.\<close>

definition main_program :: "'w env \<Rightarrow> 'w startup \<Rightarrow> flags \<Rightarrow> ('w proc, program_end) state" where
  "main_program E S fl =
     (case validateReconcileTimeout (e_pf E) (fl_reconcileTimeout fl) of
        Some err \<Rightarrow> ret (ExitOne ''invalid --reconcile-timeout'' err)
      | None \<Rightarrow> do {
          made_manager \<leftarrow> in_world (sp_NewManager S (manager_options_of fl));
          case made_manager of
            Inl err \<Rightarrow> ret (ExitOne ''unable to start manager'' err)
          | Inr mgr \<Rightarrow> do {
              modify (\<lambda>p. p\<lparr>p_cache := Some (\<lambda>_. None)\<rparr>);
              now \<leftarrow> in_world (e_now E);
              modify (NewHeartbeat now);
              or_exit ''unable to create controller'' (Secret_SetupWithManager E mgr (secret_reconciler_of E fl)) (
              or_exit ''unable to create controller'' (Connection_SetupWithManager E mgr (connection_reconciler_of E)) (
              or_exit ''unable to set up health check'' (sp_AddHealthzCheck S ''healthz'' (sp_Ping S)) (
              or_exit ''unable to set up stall check''
                (sp_AddHealthzCheck S ''reconcile-progress'' (StallChecker E True (fl_stallThreshold fl))) (
              or_exit ''unable to set up readiness check'' (sp_AddReadyzCheck S ''readyz'' (sp_Ping S)) (
              or_exit ''problem running manager'' (sp_Start S) (ret Returned)))))) } })"

section \<open>How long a call can take\<close>

lemma delay_cap_values: "delay_cap 1 = 125 * millisecond" "delay_cap 2 = 500 * millisecond"
  by (simp_all add: delay_cap_def default_policy)

lemma delay_cap_nonneg: "0 \<le> delay_cap a"
proof -
  have "nat (min (a - 1) 2) \<in> {0, 1, 2}" by auto
  then show ?thesis by (auto simp: delay_cap_def default_policy)
qed

lemma doWithRetry_elapses:
  assumes "timed clk E" "draws_in_range E" "c_retry c = DefaultRetryPolicy" "elapses clk send RequestTimeout"
  shows "wp (doWithRetry E c ctx send classify out)
    (\<lambda>_ t. clk t \<le> clk w + LongestCall (e_pf E) DefaultRetryPolicy RequestTimeout) w"
proof -
  have m: "rp_MaxAttempts DefaultRetryPolicy = 3" by (simp add: DefaultRetryPolicy_def)
  have T: "0 \<le> RequestTimeout" by (simp add: default_policy)
  have "wp (retry_loop E DefaultRetryPolicy ctx send classify 3 3 1 None out)
      (\<lambda>_ t. clk t \<le> clk w + int 3 * RequestTimeout + (\<Sum>i<3 - 1. delay_cap (1 + int i))) w"
    by (rule retry_loop_elapses [OF assms(1,4) T delay_cap_nonneg])
      (auto intro: wp_mono [OF default_delay [OF assms(2)]])
  moreover have "(\<Sum>i<3 - 1. delay_cap (1 + int i)) = delay_cap 1 + delay_cap 2"
    by (simp add: numeral_2_eq_2)
  ultimately show ?thesis
    unfolding doWithRetry_def Let_def assms(3) m
    by (simp add: LongestCall_default delay_cap_values) (erule wp_mono, simp add: default_policy)
qed

lemma New_client: "New pf base tok [] = Inr c \<Longrightarrow> c_retry c = DefaultRetryPolicy \<and> c_Timeout c = RequestTimeout"
  by (auto simp: New_def Let_def split: if_splits option.splits)

lemma send_request_elapses:
  assumes "timed clk E" "c_Timeout c = RequestTimeout"
  shows "elapses clk (send_request E c ctx built) RequestTimeout"
  using assms by (cases built) (auto simp: send_request_def timed_def elapses_def wp_return default_policy)

section \<open>Properties\<close>

text \<open>
  Property C10: a reconcile timeout that the start-up check accepts is long enough for every
  call to FerrVault. Where only requests and waits take time, a request at most its timeout,
  no call of a client made by \<open>New\<close>, with all its retries and their jittered delays, takes
  longer than that timeout.
\<close>

theorem calls_fit_reconcile_timeout:
  assumes "timed clk E" "draws_in_range E" "New (e_pf E) base token [] = Inr c"
    and "validateReconcileTimeout (e_pf E) d = None"
  shows "wp (Probe E c ctx) (\<lambda>_ t. clk t \<le> clk w + d) w \<and>
    wp (OIDCExchange E c ctx cluster jwt) (\<lambda>_ t. clk t \<le> clk w + d) w \<and>
    wp (BulkReveal E c ctx org project vault namespace names) (\<lambda>_ t. clk t \<le> clk w + d) w \<and>
    wp (RevealFromVault E c ctx vault names) (\<lambda>_ t. clk t \<le> clk w + d) w"
proof -
  have d: "LongestCall (e_pf E) DefaultRetryPolicy RequestTimeout \<le> d"
    using assms(4) by (auto simp: validateReconcileTimeout_def Let_def split: if_splits)
  have call: "wp (doWithRetry E c ctx (send_request E c ctx built) classify out) (\<lambda>_ t. clk t \<le> clk w + d) w"
    for built and classify :: "http_response \<Rightarrow> string \<Rightarrow> 'o \<Rightarrow> goerror option \<times> 'o" and out
    using New_client [OF assms(3)] d
    by (intro wp_mono [OF doWithRetry_elapses [OF assms(1,2)]] send_request_elapses [OF assms(1)]) auto
  show ?thesis
    unfolding Probe_def OIDCExchange_def BulkReveal_def RevealFromVault_def Let_def wp_bind
    by (intro conjI; rule wp_mono [OF call]) (auto simp: wp_return split: prod.splits option.splits)
qed

lemma yields_or_exit:
  "(\<And>e. P (ExitOne msg e)) \<Longrightarrow> yields P rest \<Longrightarrow> yields P (or_exit msg step rest)"
  unfolding or_exit_def by (intro yields_intros)

text \<open>
  Property C23: the program refuses a reconcile timeout exactly when it is below 30.625 seconds,
  the longest a call can take, and then it has not touched anything.
\<close>

theorem short_timeout_refused:
  "if fl_reconcileTimeout fl < 30625 * millisecond
   then \<exists>err. run_state (main_program E S fl) p = (ExitOne ''invalid --reconcile-timeout'' err, p)
   else \<forall>err. fst (run_state (main_program E S fl) p) \<noteq> ExitOne ''invalid --reconcile-timeout'' err"
proof (cases "fl_reconcileTimeout fl < 30625 * millisecond")
  case True
  then show ?thesis
    by (simp add: main_program_def validateReconcileTimeout_def LongestCall_default Let_def)
next
  case False
  have "yields (\<lambda>out. \<forall>err. out \<noteq> ExitOne ''invalid --reconcile-timeout'' err) (main_program E S fl)"
    using False unfolding main_program_def validateReconcileTimeout_def LongestCall_default Let_def
    by (simp only: if_False option.case) (intro yields_intros yields_or_exit allI; simp)
  then show ?thesis using False by (simp add: yields_def)
qed

end
