(* ===== verification/Deep_Copy.thy ===== *)
theory Deep_Copy
  imports Api_Types Effects
begin

text \<open>
  The hand-written deep copies of \<open>api/ferrvault/v1alpha1\<close>.  Here, and only here, pointers and
  slices matter, so the resources are modelled as Go lays them out: a struct is a value, a
  pointer or the backing array of a slice is an address, and the memory maps addresses of each
  type to their content.  An address is used once, by the allocator, so the memories of the
  types share one counter.
\<close>

type_synonym addr = nat

section \<open>The structs with their pointers\<close>

record transform_obj =
  xt_Type :: string
  xt_Value :: string
  xt_From :: string
  xt_To :: string
  xt_Keys :: "addr option"
  xt_Key :: string

record secret_spec_obj =
  xs_ConnectionRef :: local_object_reference
  xs_Project :: string
  xs_Vault :: string
  xs_SelectorNames :: "addr option"
  xs_Target :: secret_target
  xs_RefreshInterval :: string
  xs_RolloutRestart :: "addr option"
  xs_Transforms :: "addr option"

record secret_status_obj =
  xss_Conditions :: "addr option"
  xss_LastSyncedAt :: "addr option"
  xss_LastRolloutHash :: string
  xss_SyncedKeys :: "addr option"
  xss_MissingKeys :: "addr option"
  xss_ObservedGeneration :: int

record connection_spec_obj =
  xc_Mode :: string
  xc_URL :: string
  xc_Organization :: string
  xc_TokenSecretRef :: "addr option"
  xc_OIDC :: "addr option"

record connection_status_obj =
  xcs_Conditions :: "addr option"
  xcs_LastCheckedAt :: "addr option"

text \<open>
  \<open>'m\<close> is the library's \<open>ObjectMeta\<close>, \<open>'l\<close> its \<open>ListMeta\<close>, \<open>'x\<close> what their pointers point to.
  \<open>TypeMeta\<close> is a pair of strings.
\<close>

record 'm connection_obj =
  xo_TypeMeta :: "string \<times> string"
  xo_ObjectMeta :: 'm
  xo_Spec :: connection_spec_obj
  xo_Status :: connection_status_obj

record 'm secret_obj =
  xv_TypeMeta :: "string \<times> string"
  xv_ObjectMeta :: 'm
  xv_Spec :: secret_spec_obj
  xv_Status :: secret_status_obj

record 'l list_obj =
  xl_TypeMeta :: "string \<times> string"
  xl_ListMeta :: 'l
  xl_Items :: "addr option"

record ('x, 'm, 'l) mem =
  next_addr :: addr
  m_keyref :: "addr \<Rightarrow> secret_key_ref"
  m_oidc :: "addr \<Rightarrow> oidc_auth"
  m_time :: "addr \<Rightarrow> instant"
  m_conditions :: "addr \<Rightarrow> condition list"
  m_strings :: "addr \<Rightarrow> string list"
  m_workloads :: "addr \<Rightarrow> workload_ref list"
  m_transforms :: "addr \<Rightarrow> transform_obj list"
  m_connection :: "addr \<Rightarrow> 'm connection_obj"
  m_connections :: "addr \<Rightarrow> 'm connection_obj list"
  m_secret :: "addr \<Rightarrow> 'm secret_obj"
  m_secrets :: "addr \<Rightarrow> 'm secret_obj list"
  m_list :: "addr \<Rightarrow> 'l list_obj"
  m_lib :: "addr \<Rightarrow> 'x"

section \<open>Go's memory operations\<close>

text \<open>
  \<open>get\<close> and \<open>upd\<close> are the selector and the update of one type's memory.  \<open>alloc\<close> is \<open>new\<close> or
  \<open>make\<close> with the given initial content, \<open>assign\<close> is \<open>*p = v\<close>.
\<close>

definition alloc ::
  "(((addr \<Rightarrow> 'c) \<Rightarrow> addr \<Rightarrow> 'c) \<Rightarrow> ('x, 'm, 'l) mem \<Rightarrow> ('x, 'm, 'l) mem) \<Rightarrow> 'c \<Rightarrow> (('x, 'm, 'l) mem, addr) state" where
  "alloc upd v = State (\<lambda>s. (next_addr s, upd (\<lambda>h. h(next_addr s := v)) (s\<lparr>next_addr := Suc (next_addr s)\<rparr>)))"

definition assign ::
  "(((addr \<Rightarrow> 'c) \<Rightarrow> addr \<Rightarrow> 'c) \<Rightarrow> ('x, 'm, 'l) mem \<Rightarrow> ('x, 'm, 'l) mem) \<Rightarrow> addr \<Rightarrow> 'c \<Rightarrow> (('x, 'm, 'l) mem, unit) state" where
  "assign upd a v = modify (upd (\<lambda>h. h(a := v)))"

text \<open>\<open>if in.P != nil { out.P = new(T); *out.P = *in.P }\<close>.\<close>

definition copy_ptr where
  "copy_ptr get upd zero p =
     (case p of
        None \<Rightarrow> ret None
      | Some a \<Rightarrow> do { b \<leftarrow> alloc upd zero; v \<leftarrow> gets (\<lambda>s. get s a); assign upd b v; ret (Some b) })"

text \<open>\<open>copy(dst, src)\<close> on the contents: as many elements as both have.\<close>

definition copied_over :: "'e list \<Rightarrow> 'e list \<Rightarrow> 'e list" where
  "copied_over dst src = take (length dst) src @ drop (length src) dst"

text \<open>\<open>if in.F != nil { out.F = make([]T, len(in.F)); copy(out.F, in.F) }\<close>.\<close>

definition copy_slice where
  "copy_slice get upd zero p =
     (case p of
        None \<Rightarrow> ret None
      | Some a \<Rightarrow> do {
          src \<leftarrow> gets (\<lambda>s. get s a);
          b \<leftarrow> alloc upd (replicate (length src) zero);
          dst \<leftarrow> gets (\<lambda>s. get s b);
          assign upd b (copied_over dst src);
          ret (Some b) })"

text \<open>
  The same for elements with pointers of their own:
  \<open>for i := range in.F { in.F[i].DeepCopyInto(&out.F[i]) }\<close>.
\<close>

fun copy_elems_loop where
  "copy_elems_loop get upd f a b i 0 = ret ()"
| "copy_elems_loop get upd f a b i (Suc n) = do {
     x \<leftarrow> gets (\<lambda>s. get s a ! i);
     y \<leftarrow> f x;
     modify (upd (\<lambda>h. h(b := (h b)[i := y])));
     copy_elems_loop get upd f a b (Suc i) n }"

definition copy_elems where
  "copy_elems get upd zero f p =
     (case p of
        None \<Rightarrow> ret None
      | Some a \<Rightarrow> do {
          src \<leftarrow> gets (\<lambda>s. get s a);
          b \<leftarrow> alloc upd (replicate (length src) zero);
          copy_elems_loop get upd f a b 0 (length src);
          ret (Some b) })"

section \<open>The deep copies\<close>

text \<open>
  The library's deep copies: of a condition, of a time behind a pointer, and of the two metas.
  A \<open>DeepCopyInto\<close> returns what it stores through \<open>out\<close>; \<open>*out = *in\<close> comes first, so a field
  it does not replace is the input's.
\<close>

record ('x, 'm, 'l) library =
  lib_Condition :: "condition \<Rightarrow> (('x, 'm, 'l) mem, condition) state"
  lib_Time :: "addr \<Rightarrow> (('x, 'm, 'l) mem, addr) state"
  lib_ObjectMeta :: "'m \<Rightarrow> (('x, 'm, 'l) mem, 'm) state"
  lib_ListMeta :: "'l \<Rightarrow> (('x, 'm, 'l) mem, 'l) state"

definition zero_condition :: condition where
  "zero_condition = \<lparr>c_type = [], c_status = ConditionUnknown, c_reason = [], c_message = Sprintf [] [],
     c_observedGeneration = 0, c_lastTransitionTime = 0\<rparr>"

definition copy_time :: "('x, 'm, 'l) library \<Rightarrow> addr option \<Rightarrow> (('x, 'm, 'l) mem, addr option) state" where
  "copy_time L p = (case p of None \<Rightarrow> ret None | Some a \<Rightarrow> do { b \<leftarrow> lib_Time L a; ret (Some b) })"

definition ConnectionSpec_DeepCopyInto ::
  "connection_spec_obj \<Rightarrow> (('x, 'm, 'l) mem, connection_spec_obj) state" where
  "ConnectionSpec_DeepCopyInto c = do {
     t \<leftarrow> copy_ptr m_keyref m_keyref_update \<lparr>skr_Name = [], skr_Key = []\<rparr> (xc_TokenSecretRef c);
     d \<leftarrow> copy_ptr m_oidc m_oidc_update \<lparr>oa_ClusterID = [], oa_TokenPath = [], oa_Audience = []\<rparr> (xc_OIDC c);
     ret (c\<lparr>xc_TokenSecretRef := t, xc_OIDC := d\<rparr>) }"

definition ConnectionStatus_DeepCopyInto ::
  "('x, 'm, 'l) library \<Rightarrow> connection_status_obj \<Rightarrow> (('x, 'm, 'l) mem, connection_status_obj) state" where
  "ConnectionStatus_DeepCopyInto L c = do {
     cs \<leftarrow> copy_elems m_conditions m_conditions_update zero_condition (lib_Condition L) (xcs_Conditions c);
     t \<leftarrow> copy_time L (xcs_LastCheckedAt c);
     ret (c\<lparr>xcs_Conditions := cs, xcs_LastCheckedAt := t\<rparr>) }"

definition SecretTransform_DeepCopyInto :: "transform_obj \<Rightarrow> (('x, 'm, 'l) mem, transform_obj) state" where
  "SecretTransform_DeepCopyInto t = do {
     ks \<leftarrow> copy_slice m_strings m_strings_update [] (xt_Keys t);
     ret (t\<lparr>xt_Keys := ks\<rparr>) }"

definition zero_transform :: transform_obj where
  "zero_transform = \<lparr>xt_Type = [], xt_Value = [], xt_From = [], xt_To = [], xt_Keys = None, xt_Key = []\<rparr>"

definition SecretSpec_DeepCopyInto :: "secret_spec_obj \<Rightarrow> (('x, 'm, 'l) mem, secret_spec_obj) state" where
  "SecretSpec_DeepCopyInto v = do {
     ns \<leftarrow> copy_slice m_strings m_strings_update [] (xs_SelectorNames v);
     ws \<leftarrow> copy_slice m_workloads m_workloads_update \<lparr>wr_Kind = [], wr_Name = []\<rparr> (xs_RolloutRestart v);
     ts \<leftarrow> copy_elems m_transforms m_transforms_update zero_transform SecretTransform_DeepCopyInto (xs_Transforms v);
     ret (v\<lparr>xs_SelectorNames := ns, xs_RolloutRestart := ws, xs_Transforms := ts\<rparr>) }"

definition SecretStatus_DeepCopyInto ::
  "('x, 'm, 'l) library \<Rightarrow> secret_status_obj \<Rightarrow> (('x, 'm, 'l) mem, secret_status_obj) state" where
  "SecretStatus_DeepCopyInto L v = do {
     cs \<leftarrow> copy_elems m_conditions m_conditions_update zero_condition (lib_Condition L) (xss_Conditions v);
     t \<leftarrow> copy_time L (xss_LastSyncedAt v);
     ks \<leftarrow> copy_slice m_strings m_strings_update [] (xss_SyncedKeys v);
     ms \<leftarrow> copy_slice m_strings m_strings_update [] (xss_MissingKeys v);
     ret (v\<lparr>xss_Conditions := cs, xss_LastSyncedAt := t, xss_SyncedKeys := ks, xss_MissingKeys := ms\<rparr>) }"

definition FerrVaultConnection_DeepCopyInto ::
  "('x, 'm, 'l) library \<Rightarrow> 'm connection_obj \<Rightarrow> (('x, 'm, 'l) mem, 'm connection_obj) state" where
  "FerrVaultConnection_DeepCopyInto L v = do {
     m \<leftarrow> lib_ObjectMeta L (xo_ObjectMeta v);
     sp \<leftarrow> ConnectionSpec_DeepCopyInto (xo_Spec v);
     st \<leftarrow> ConnectionStatus_DeepCopyInto L (xo_Status v);
     ret (v\<lparr>xo_ObjectMeta := m, xo_Spec := sp, xo_Status := st\<rparr>) }"

definition FerrVaultSecret_DeepCopyInto ::
  "('x, 'm, 'l) library \<Rightarrow> 'm secret_obj \<Rightarrow> (('x, 'm, 'l) mem, 'm secret_obj) state" where
  "FerrVaultSecret_DeepCopyInto L v = do {
     m \<leftarrow> lib_ObjectMeta L (xv_ObjectMeta v);
     sp \<leftarrow> SecretSpec_DeepCopyInto (xv_Spec v);
     st \<leftarrow> SecretStatus_DeepCopyInto L (xv_Status v);
     ret (v\<lparr>xv_ObjectMeta := m, xv_Spec := sp, xv_Status := st\<rparr>) }"

definition FerrVaultConnectionList_DeepCopyInto ::
  "('x, 'm, 'l) library \<Rightarrow> 'm connection_obj \<Rightarrow> 'l list_obj \<Rightarrow> (('x, 'm, 'l) mem, 'l list_obj) state" where
  "FerrVaultConnectionList_DeepCopyInto L zero v = do {
     m \<leftarrow> lib_ListMeta L (xl_ListMeta v);
     items \<leftarrow> copy_elems m_connections m_connections_update zero (FerrVaultConnection_DeepCopyInto L) (xl_Items v);
     ret (v\<lparr>xl_ListMeta := m, xl_Items := items\<rparr>) }"

definition FerrVaultSecretList_DeepCopyInto ::
  "('x, 'm, 'l) library \<Rightarrow> 'm secret_obj \<Rightarrow> 'l list_obj \<Rightarrow> (('x, 'm, 'l) mem, 'l list_obj) state" where
  "FerrVaultSecretList_DeepCopyInto L zero v = do {
     m \<leftarrow> lib_ListMeta L (xl_ListMeta v);
     items \<leftarrow> copy_elems m_secrets m_secrets_update zero (FerrVaultSecret_DeepCopyInto L) (xl_Items v);
     ret (v\<lparr>xl_ListMeta := m, xl_Items := items\<rparr>) }"

text \<open>
  \<open>DeepCopy\<close>: nil for nil, otherwise a new object that \<open>DeepCopyInto\<close> fills; \<open>zero\<close> is the zero
  value of the type.
\<close>

definition copy_object where
  "copy_object get upd zero into p =
     (case p of
        None \<Rightarrow> ret None
      | Some a \<Rightarrow> do {
          b \<leftarrow> alloc upd zero;
          v \<leftarrow> gets (\<lambda>s. get s a);
          w \<leftarrow> into v;
          assign upd b w;
          ret (Some b) })"

definition FerrVaultConnection_DeepCopy ::
  "('x, 'm, 'l) library \<Rightarrow> 'm connection_obj \<Rightarrow> addr option \<Rightarrow> (('x, 'm, 'l) mem, addr option) state" where
  "FerrVaultConnection_DeepCopy L zero p =
     copy_object m_connection m_connection_update zero (FerrVaultConnection_DeepCopyInto L) p"

definition FerrVaultSecret_DeepCopy ::
  "('x, 'm, 'l) library \<Rightarrow> 'm secret_obj \<Rightarrow> addr option \<Rightarrow> (('x, 'm, 'l) mem, addr option) state" where
  "FerrVaultSecret_DeepCopy L zero p =
     copy_object m_secret m_secret_update zero (FerrVaultSecret_DeepCopyInto L) p"

definition FerrVaultConnectionList_DeepCopy ::
  "('x, 'm, 'l) library \<Rightarrow> 'm connection_obj \<Rightarrow> 'l list_obj \<Rightarrow> addr option \<Rightarrow> (('x, 'm, 'l) mem, addr option) state" where
  "FerrVaultConnectionList_DeepCopy L zero_item zero p =
     copy_object m_list m_list_update zero (FerrVaultConnectionList_DeepCopyInto L zero_item) p"

definition FerrVaultSecretList_DeepCopy ::
  "('x, 'm, 'l) library \<Rightarrow> 'm secret_obj \<Rightarrow> 'l list_obj \<Rightarrow> addr option \<Rightarrow> (('x, 'm, 'l) mem, addr option) state" where
  "FerrVaultSecretList_DeepCopy L zero_item zero p =
     copy_object m_list m_list_update zero (FerrVaultSecretList_DeepCopyInto L zero_item) p"

text \<open>\<open>DeepCopyObject\<close>: the same pointer as a \<open>runtime.Object\<close>; of a nil pointer it is not a nil interface.\<close>

datatype runtime_object =
    ConnectionObject "addr option" | SecretObject "addr option"
  | ConnectionListObject "addr option" | SecretListObject "addr option"

definition FerrVaultConnection_DeepCopyObject ::
  "('x, 'm, 'l) library \<Rightarrow> 'm connection_obj \<Rightarrow> addr option \<Rightarrow> (('x, 'm, 'l) mem, runtime_object) state" where
  "FerrVaultConnection_DeepCopyObject L zero p = do { q \<leftarrow> FerrVaultConnection_DeepCopy L zero p; ret (ConnectionObject q) }"

definition FerrVaultSecret_DeepCopyObject ::
  "('x, 'm, 'l) library \<Rightarrow> 'm secret_obj \<Rightarrow> addr option \<Rightarrow> (('x, 'm, 'l) mem, runtime_object) state" where
  "FerrVaultSecret_DeepCopyObject L zero p = do { q \<leftarrow> FerrVaultSecret_DeepCopy L zero p; ret (SecretObject q) }"

definition FerrVaultConnectionList_DeepCopyObject ::
  "('x, 'm, 'l) library \<Rightarrow> 'm connection_obj \<Rightarrow> 'l list_obj \<Rightarrow> addr option \<Rightarrow> (('x, 'm, 'l) mem, runtime_object) state" where
  "FerrVaultConnectionList_DeepCopyObject L zi zero p =
     do { q \<leftarrow> FerrVaultConnectionList_DeepCopy L zi zero p; ret (ConnectionListObject q) }"

definition FerrVaultSecretList_DeepCopyObject ::
  "('x, 'm, 'l) library \<Rightarrow> 'm secret_obj \<Rightarrow> 'l list_obj \<Rightarrow> addr option \<Rightarrow> (('x, 'm, 'l) mem, runtime_object) state" where
  "FerrVaultSecretList_DeepCopyObject L zi zero p =
     do { q \<leftarrow> FerrVaultSecretList_DeepCopy L zi zero p; ret (SecretListObject q) }"

section \<open>Memories that agree\<close>

text \<open>Two memories agree on a set of addresses; what a copy may change lies outside the old ones.\<close>

definition agree :: "addr set \<Rightarrow> ('x, 'm, 'l) mem \<Rightarrow> ('x, 'm, 'l) mem \<Rightarrow> bool" where
  "agree A s t \<longleftrightarrow> (\<forall>a\<in>A.
     m_keyref t a = m_keyref s a \<and> m_oidc t a = m_oidc s a \<and> m_time t a = m_time s a \<and>
     m_conditions t a = m_conditions s a \<and> m_strings t a = m_strings s a \<and> m_workloads t a = m_workloads s a \<and>
     m_transforms t a = m_transforms s a \<and> m_connection t a = m_connection s a \<and>
     m_connections t a = m_connections s a \<and> m_secret t a = m_secret s a \<and> m_secrets t a = m_secrets s a \<and>
     m_list t a = m_list s a \<and> m_lib t a = m_lib s a)"

lemma agree_refl [simp, intro]: "agree A s s"
  by (simp add: agree_def)

lemma agree_trans [trans]: "agree A s t \<Longrightarrow> agree A t u \<Longrightarrow> agree A s u"
  by (simp add: agree_def)

lemma agree_subset: "agree B s t \<Longrightarrow> A \<subseteq> B \<Longrightarrow> agree A s t"
  by (auto simp: agree_def)

lemma agree_Un [simp]: "agree (A \<union> B) s t \<longleftrightarrow> agree A s t \<and> agree B s t"
  by (auto simp: agree_def)

lemma agree_insert: "agree (insert a A) s t \<longleftrightarrow> agree {a} s t \<and> agree A s t"
  by (auto simp: agree_def)

abbreviation used :: "('x, 'm, 'l) mem \<Rightarrow> addr set" where
  "used s \<equiv> {..<next_addr s}"

definition grows :: "('x, 'm, 'l) mem \<Rightarrow> ('x, 'm, 'l) mem \<Rightarrow> bool" where
  "grows s t \<longleftrightarrow> next_addr s \<le> next_addr t \<and> agree (used s) s t"

lemma grows_refl [simp, intro]: "grows s s"
  by (simp add: grows_def)

lemma grows_trans [trans]: "grows s t \<Longrightarrow> grows t u \<Longrightarrow> grows s u"
  by (auto simp: grows_def intro: agree_trans agree_subset [of "used t"])

text \<open>
  The memory of one type: its selector and update do not see the counter, and an update that
  changes the content at some addresses only leaves the memory the same elsewhere.
\<close>

locale typed_memory =
  fixes get :: "('x, 'm, 'l) mem \<Rightarrow> addr \<Rightarrow> 'c"
    and upd :: "((addr \<Rightarrow> 'c) \<Rightarrow> addr \<Rightarrow> 'c) \<Rightarrow> ('x, 'm, 'l) mem \<Rightarrow> ('x, 'm, 'l) mem"
  assumes get_upd [simp]: "get (upd g s) = g (get s)"
    and get_next [simp]: "get (s\<lparr>next_addr := n\<rparr>) = get s"
    and next_upd [simp]: "next_addr (upd g s) = next_addr s"
    and upd_agree: "(\<And>a. a \<in> A \<Longrightarrow> g (get s) a = get s a) \<Longrightarrow> agree A s (upd g s)"
    and next_agree [simp]: "agree A s (s\<lparr>next_addr := n\<rparr>)"
    and agree_get: "agree A s t \<Longrightarrow> a \<in> A \<Longrightarrow> get t a = get s a"
begin

lemma alloc_run:
  "run_state (alloc upd v) s = (next_addr s, upd (\<lambda>h. h(next_addr s := v)) (s\<lparr>next_addr := Suc (next_addr s)\<rparr>))"
  by (simp add: alloc_def)

lemma alloc_grows: "run_state (alloc upd v) s = (b, t) \<Longrightarrow>
    b = next_addr s \<and> grows s t \<and> next_addr t = Suc (next_addr s) \<and> get t b = v"
  by (auto simp: alloc_run grows_def intro!: agree_trans [OF next_agree upd_agree])

lemma update_grows: "b \<notin> used s \<Longrightarrow> (\<And>a. a \<noteq> b \<Longrightarrow> g (get t) a = get t a) \<Longrightarrow> grows s t \<Longrightarrow> grows s (upd g t)"
  unfolding grows_def by (auto intro!: agree_trans [OF _ upd_agree])

end

section \<open>The contract of a deep copy\<close>

text \<open>
  \<open>refs s v\<close> are the addresses a value reaches and \<open>val s v\<close> is the value without pointers.  Both
  depend on the reached memory only.  A deep copy of a value in used memory touches no used
  memory, reaches only memory it allocated itself, and has the same value.
\<close>

locale deep_copy =
  fixes copy :: "'v \<Rightarrow> (('x, 'm, 'l) mem, 'v) state"
    and refs :: "('x, 'm, 'l) mem \<Rightarrow> 'v \<Rightarrow> addr set"
    and val :: "('x, 'm, 'l) mem \<Rightarrow> 'v \<Rightarrow> 'a"
  assumes local_refs: "agree (refs s v) s t \<Longrightarrow> refs t v = refs s v"
    and local_val: "agree (refs s v) s t \<Longrightarrow> val t v = val s v"
    and copies: "refs s v \<subseteq> used s \<Longrightarrow> run_state (copy v) s = (w, t) \<Longrightarrow>
      grows s t \<and> refs t w \<subseteq> used t - used s \<and> val t w = val s v"
begin

lemma old_kept:
  assumes "refs s v \<subseteq> used s" "grows s t"
  shows "refs t v = refs s v" "val t v = val s v"
  using assms by (auto simp: grows_def intro!: local_refs local_val elim: agree_subset)

lemma isolated:
  assumes "refs s v \<subseteq> used s" "run_state (copy v) s = (w, t)"
  shows "val t w = val s v" "val t v = val s v" "refs t v \<inter> refs t w = {}"
    and "agree (refs t w) t u \<Longrightarrow> val u w = val s v"
    and "agree (refs t v) t u \<Longrightarrow> val u v = val s v"
proof -
  note c = copies [OF assms]
  note old = old_kept [OF assms(1) c [THEN conjunct1]]
  show "val t w = val s v" "val t v = val s v" using c old by simp_all
  show "refs t v \<inter> refs t w = {}" unfolding old(1) using c assms(1) by blast
  show "agree (refs t w) t u \<Longrightarrow> val u w = val s v" using local_val [of t w u] c by simp
  show "agree (refs t v) t u \<Longrightarrow> val u v = val s v" using local_val [of t v u] old by simp
qed

text \<open>Whoever changes only what the copy reaches leaves the original alone, and the other way round.\<close>

lemma apart:
  assumes "refs s v \<subseteq> used s" "run_state (copy v) s = (w, t)"
  shows "val t w = val s v \<and>
    (\<forall>u. agree (- refs t w) t u \<longrightarrow> val u v = val s v) \<and> (\<forall>u. agree (- refs t v) t u \<longrightarrow> val u w = val s v)"
  using isolated [OF assms] agree_subset [of "- refs t w" t _ "refs t v"] agree_subset [of "- refs t v" t _ "refs t w"]
  by blast

end

lemma union_within: "A \<subseteq> V - U \<Longrightarrow> B \<subseteq> W - V \<Longrightarrow> U \<subseteq> V \<Longrightarrow> V \<subseteq> W \<Longrightarrow> A \<union> B \<subseteq> W - U"
  by blast

lemma deep_pair:
  fixes c1 :: "'u \<Rightarrow> (('x, 'm, 'l) mem, 'u) state" and c2 :: "'v \<Rightarrow> (('x, 'm, 'l) mem, 'v) state"
  assumes "deep_copy c1 r1 a1" "deep_copy c2 r2 a2"
  shows "deep_copy (\<lambda>(u, v). do { x \<leftarrow> c1 u; y \<leftarrow> c2 v; ret (x, y) })
    (\<lambda>s (u, v). r1 s u \<union> r2 s v) (\<lambda>s (u, v). (a1 s u, a2 s v))"
proof
  fix s t :: "('x, 'm, 'l) mem" and uv w :: "'u \<times> 'v"
  obtain u v where uv [simp]: "uv = (u, v)" by (cases uv)
  show "agree (case uv of (u, v) \<Rightarrow> r1 s u \<union> r2 s v) s t \<Longrightarrow>
      (case uv of (u, v) \<Rightarrow> r1 t u \<union> r2 t v) = (case uv of (u, v) \<Rightarrow> r1 s u \<union> r2 s v)"
    "agree (case uv of (u, v) \<Rightarrow> r1 s u \<union> r2 s v) s t \<Longrightarrow>
      (case uv of (u, v) \<Rightarrow> (a1 t u, a2 t v)) = (case uv of (u, v) \<Rightarrow> (a1 s u, a2 s v))"
    by (simp_all add: deep_copy.local_refs [OF assms(1), where s = s and t = t and v = u]
        deep_copy.local_refs [OF assms(2), where s = s and t = t and v = v]
        deep_copy.local_val [OF assms(1), where s = s and t = t and v = u]
        deep_copy.local_val [OF assms(2), where s = s and t = t and v = v])
  assume r: "(case uv of (u, v) \<Rightarrow> r1 s u \<union> r2 s v) \<subseteq> used s"
    and run: "run_state (case uv of (u, v) \<Rightarrow> do { x \<leftarrow> c1 u; y \<leftarrow> c2 v; ret (x, y) }) s = (w, t)"
  obtain x s1 where 1: "run_state (c1 u) s = (x, s1)" by fastforce
  obtain y s2 where 2: "run_state (c2 v) s1 = (y, s2)" by fastforce
  have w: "w = (x, y)" "t = s2" using run 1 2 by auto
  have x: "grows s s1" "r1 s1 x \<subseteq> used s1 - used s" "a1 s1 x = a1 s u"
    using deep_copy.copies [OF assms(1) _ 1] r by auto
  have v: "r2 s1 v = r2 s v" "a2 s1 v = a2 s v"
    using deep_copy.old_kept [OF assms(2) _ x(1)] r by auto
  have le: "used s \<subseteq> used s1" using x(1) by (simp add: grows_def)
  have "r2 s1 v \<subseteq> used s1" unfolding v(1) using r order_trans [OF _ le] by simp
  from deep_copy.copies [OF assms(2) this 2]
  have y: "grows s1 s2" "r2 s2 y \<subseteq> used s2 - used s1" "a2 s2 y = a2 s v" by (simp_all only: v simp_thms)
  have "r1 s1 x \<subseteq> used s1" using x(2) by blast
  note old = deep_copy.old_kept [OF assms(1) this y(1)]
  have up: "used s1 \<subseteq> used s2" using y(1) by (simp add: grows_def)
  have "r1 s2 x \<union> r2 s2 y \<subseteq> used s2 - used s"
    unfolding old(1) by (rule union_within [OF x(2) y(2) le up])
  moreover have "(a1 s2 x, a2 s2 y) = (a1 s u, a2 s v)" by (simp only: old(2) x(3) y(3))
  ultimately show "grows s t \<and>
      (case w of (u, v) \<Rightarrow> r1 t u \<union> r2 t v) \<subseteq> used t - used s \<and>
      (case w of (u, v) \<Rightarrow> (a1 t u, a2 t v)) = (case uv of (u, v) \<Rightarrow> (a1 s u, a2 s v))"
    unfolding w uv prod.case using grows_trans [OF x(1) y(1)] by (intro conjI)
qed

lemma deep_struct:
  fixes c :: "'p \<Rightarrow> (('x, 'm, 'l) mem, 'p) state" and C :: "'v \<Rightarrow> (('x, 'm, 'l) mem, 'v) state"
  assumes "deep_copy c r a"
    and "\<And>v. C v = do { p \<leftarrow> c (parts v); ret (rebuild v p) }"
    and "\<And>v p. parts (rebuild v p) = p"
    and "\<And>s v. R s v = r s (parts v)"
    and "\<And>s v. A s v = h v (a s (parts v))"
    and "\<And>v p. h (rebuild v p) = h v"
  shows "deep_copy C R A"
proof -
  show ?thesis
  proof
    fix s t :: "('x, 'm, 'l) mem" and v w
    show "agree (R s v) s t \<Longrightarrow> R t v = R s v" "agree (R s v) s t \<Longrightarrow> A t v = A s v"
      unfolding assms(4,5) by (simp_all add: deep_copy.local_refs [OF assms(1), where s = s and t = t]
        deep_copy.local_val [OF assms(1), where s = s and t = t])
    assume "R s v \<subseteq> used s" "run_state (C v) s = (w, t)"
    then show "grows s t \<and> R t w \<subseteq> used t - used s \<and> A t w = A s v"
      using deep_copy.copies [OF assms(1), of s "parts v"]
      by (auto simp: assms(2-6) split: prod.splits)
  qed
qed

section \<open>Pointers and slices\<close>

lemma copied_over_all: "length dst = length src \<Longrightarrow> copied_over dst src = src"
  by (simp add: copied_over_def)

context typed_memory
begin

lemma alloc_step:
  assumes "run_state (alloc upd v) s = (b, t)"
  shows "b = next_addr s" "grows s t" "used t = insert b (used s)" "get t b = v" "a \<in> used s \<Longrightarrow> get t a = get s a"
  using assms alloc_grows [OF assms] agree_get [of "used s" s t a] by (auto simp: grows_def less_Suc_eq)

lemma copy_ptr_deep: "deep_copy (copy_ptr get upd zero) (\<lambda>_ p. set_option p) (\<lambda>s p. map_option (get s) p)"
proof
  fix s t :: "('x, 'm, 'l) mem" and p w :: "addr option"
  show "agree (set_option p) s t \<Longrightarrow> set_option p = set_option p" by simp
  show "agree (set_option p) s t \<Longrightarrow> map_option (get t) p = map_option (get s) p"
    by (cases p) (simp_all add: agree_get [of "{_}" s t])
  assume r: "set_option p \<subseteq> used s" and run: "run_state (copy_ptr get upd zero p) s = (w, t)"
  show "grows s t \<and> set_option w \<subseteq> used t - used s \<and> map_option (get t) w = map_option (get s) p"
  proof (cases p)
    case None
    then show ?thesis using run by (simp add: copy_ptr_def)
  next
    case (Some a)
    obtain b s1 where al: "run_state (alloc upd zero) s = (b, s1)" by fastforce
    note b = alloc_step [OF al]
    have w: "w = Some b" "t = upd (\<lambda>h. h(b := get s1 a)) s1"
      using run al by (simp_all add: Some copy_ptr_def assign_def)
    have "grows s t" unfolding w(2) by (rule update_grows [where b = b, OF _ _ b(2)]) (simp_all add: b(1))
    then show ?thesis using b(1,3) b(5) [of a] r by (auto simp: w Some)
  qed
qed

lemma copy_object_deep:
  assumes "deep_copy into r v"
  shows "deep_copy (copy_object get upd zero into)
    (\<lambda>s p. case p of None \<Rightarrow> {} | Some a \<Rightarrow> insert a (r s (get s a))) (\<lambda>s p. map_option (\<lambda>a. v s (get s a)) p)"
proof
  fix s t :: "('x, 'm, 'l) mem" and p w :: "addr option"
  let ?refs = "\<lambda>s p. case p of None \<Rightarrow> {} | Some a \<Rightarrow> insert a (r s (get s a))"
  show "agree (?refs s p) s t \<Longrightarrow> ?refs t p = ?refs s p"
    "agree (?refs s p) s t \<Longrightarrow> map_option (\<lambda>a. v t (get t a)) p = map_option (\<lambda>a. v s (get s a)) p"
    by (auto simp: agree_insert [of _ "r s _"] agree_get [of "{_}" s t] deep_copy.local_refs [OF assms, of s _ t]
      deep_copy.local_val [OF assms, of s _ t] split: option.splits)
  assume r: "?refs s p \<subseteq> used s" and run: "run_state (copy_object get upd zero into p) s = (w, t)"
  show "grows s t \<and> ?refs t w \<subseteq> used t - used s \<and>
      map_option (\<lambda>a. v t (get t a)) w = map_option (\<lambda>a. v s (get s a)) p"
  proof (cases p)
    case None
    then show ?thesis using run by (simp add: copy_object_def)
  next
    case (Some a)
    obtain b s1 where al: "run_state (alloc upd zero) s = (b, s1)" by fastforce
    note b = alloc_step [OF al]
    obtain x s2 where cp: "run_state (into (get s a)) s1 = (x, s2)" by fastforce
    have a: "a \<in> used s" "r s (get s a) \<subseteq> used s" using r by (simp_all add: Some)
    have w: "w = Some b" "t = upd (\<lambda>h. h(b := x)) s2"
      using run al cp b(5) [OF a(1)] by (simp_all add: Some copy_object_def assign_def)
    note old = deep_copy.old_kept [OF assms a(2) b(2)]
    have "r s1 (get s a) \<subseteq> used s1" using a(2) b(3) old(1) by auto
    from deep_copy.copies [OF assms this cp]
    have x: "grows s1 s2" "r s2 x \<subseteq> used s2 - used s1" "v s2 x = v s (get s a)" by (simp_all only: old simp_thms)
    have "grows s t"
      unfolding w(2) by (rule update_grows [where b = b, OF _ _ grows_trans [OF b(2) x(1)]]) (simp_all add: b(1))
    moreover have "agree (r s2 x) s2 t"
      unfolding w(2) using x(2) b(1,3) by (intro upd_agree) auto
    then have "r t x = r s2 x" "v t x = v s2 x"
      using deep_copy.local_refs [OF assms] deep_copy.local_val [OF assms] by blast+
    moreover have "get t b = x" "used t = used s2" by (simp_all add: w(2))
    ultimately show ?thesis
      using x b(1,3) by (auto simp: w(1) Some grows_def)
  qed
qed

end

text \<open>The memory of a slice type: the content of an address is the backing array.\<close>

locale array_memory = typed_memory get upd
  for get :: "('x, 'm, 'l) mem \<Rightarrow> addr \<Rightarrow> 'e list"
    and upd :: "((addr \<Rightarrow> 'e list) \<Rightarrow> addr \<Rightarrow> 'e list) \<Rightarrow> ('x, 'm, 'l) mem \<Rightarrow> ('x, 'm, 'l) mem"
begin

lemma copy_slice_deep: "deep_copy (copy_slice get upd zero) (\<lambda>_ p. set_option p) (\<lambda>s p. map_option (get s) p)"
proof
  fix s t :: "('x, 'm, 'l) mem" and p w :: "addr option"
  show "agree (set_option p) s t \<Longrightarrow> set_option p = set_option p" by simp
  show "agree (set_option p) s t \<Longrightarrow> map_option (get t) p = map_option (get s) p"
    by (cases p) (simp_all add: agree_get [of "{_}" s t])
  assume r: "set_option p \<subseteq> used s" and run: "run_state (copy_slice get upd zero p) s = (w, t)"
  show "grows s t \<and> set_option w \<subseteq> used t - used s \<and> map_option (get t) w = map_option (get s) p"
  proof (cases p)
    case None
    then show ?thesis using run by (simp add: copy_slice_def)
  next
    case (Some a)
    obtain b s1 where al: "run_state (alloc upd (replicate (length (get s a)) zero)) s = (b, s1)" by fastforce
    note b = alloc_step [OF al]
    have w: "w = Some b" "t = upd (\<lambda>h. h(b := get s a)) s1"
      using run al b(4) by (simp_all add: Some copy_slice_def assign_def copied_over_all)
    have "grows s t" unfolding w(2) by (rule update_grows [where b = b, OF _ _ b(2)]) (simp_all add: b(1))
    then show ?thesis using b(1,3) r by (auto simp: w Some)
  qed
qed

text \<open>
  The loop over the elements.  \<open>filled i\<close>: the first \<open>i\<close> elements of the new array are deep
  copies that reach neither the old memory nor the array itself.
\<close>

definition filled where
  "filled r v s0 m a b i s \<longleftrightarrow> grows s0 s \<and> used m \<subseteq> used s \<and> length (get s b) = length (get s0 a) \<and>
     (\<forall>j<i. r s (get s b ! j) \<subseteq> used s - used m \<and> v s (get s b ! j) = v s0 (get s0 a ! j))"

lemma copy_elems_loop_fills:
  assumes "deep_copy f r v" "a \<in> used s0" "b \<in> used m" "b \<notin> used s0"
    and src: "\<And>x. x \<in> set (get s0 a) \<Longrightarrow> r s0 x \<subseteq> used s0"
  shows "i + n = length (get s0 a) \<Longrightarrow> filled r v s0 m a b i s \<Longrightarrow>
    run_state (copy_elems_loop get upd f a b i n) s = ((), t) \<Longrightarrow> filled r v s0 m a b (i + n) t"
proof (induction n arbitrary: i s)
  case (Suc n)
  note inv = Suc.prems(2) [unfolded filled_def]
  let ?x = "get s0 a ! i"
  have i: "i < length (get s0 a)" "i < length (get s b)" using Suc.prems(1) inv by simp_all
  have g: "grows s0 s" "used m \<subseteq> used s" using inv by simp_all
  have "agree (used s0) s0 s" using g(1) by (simp add: grows_def)
  then have x: "get s a = get s0 a" by (rule agree_get) (rule assms(2))
  obtain y s1 where y: "run_state (f ?x) s = (y, s1)" by fastforce
  define s2 where "s2 = upd (\<lambda>h. h(b := (h b)[i := y])) s1"
  have rest: "run_state (copy_elems_loop get upd f a b (Suc i) n) s2 = ((), t)"
    using Suc.prems(3) y by (simp add: x s2_def)
  have r0: "r s0 ?x \<subseteq> used s0" using i by (intro src) simp
  note old = deep_copy.old_kept [OF assms(1) r0 g(1)]
  have "r s ?x \<subseteq> used s" unfolding old(1) using r0 g(1) by (auto simp: grows_def)
  from deep_copy.copies [OF assms(1) this y]
  have y': "grows s s1" "r s1 y \<subseteq> used s1 - used s" "v s1 y = v s0 ?x" by (simp_all only: old simp_thms)
  have gb: "get s1 b = get s b"
    using y'(1) g(2) assms(3) by (intro agree_get [of "used s"]) (auto simp: grows_def)
  have s2: "get s2 b = (get s b)[i := y]" "used s2 = used s1" by (simp_all add: s2_def gb)
  have same: "r s2 z = r s1 z" "v s2 z = v s1 z" if "r s1 z \<subseteq> used s1 - used m" for z
  proof -
    have "agree (r s1 z) s1 s2" unfolding s2_def using that assms(3) by (intro upd_agree) auto
    then show "r s2 z = r s1 z" "v s2 z = v s1 z"
      by (rule deep_copy.local_refs [OF assms(1)], rule deep_copy.local_val [OF assms(1)])
  qed
  have "filled r v s0 m a b (Suc i) s2"
    unfolding filled_def
  proof (intro conjI allI impI)
    show "grows s0 s2"
      unfolding s2_def by (rule update_grows [where b = b, OF assms(4) _ grows_trans [OF g(1) y'(1)]]) simp
    show "used m \<subseteq> used s2" using g(2) y'(1) by (auto simp: s2 grows_def)
    show "length (get s2 b) = length (get s0 a)" using inv by (simp add: s2)
    fix j assume j: "j < Suc i"
    show "r s2 (get s2 b ! j) \<subseteq> used s2 - used m" "v s2 (get s2 b ! j) = v s0 (get s0 a ! j)"
    proof -
      let ?z = "get s2 b ! j"
      have z: "r s1 ?z \<subseteq> used s1 - used m \<and> v s1 ?z = v s0 (get s0 a ! j)"
      proof (cases "j = i")
        case True
        then show ?thesis using y' g(2) i by (auto simp: s2)
      next
        case False
        then have zj: "?z = get s b ! j" "r s ?z \<subseteq> used s - used m" "v s ?z = v s0 (get s0 a ! j)"
          using j inv by (auto simp: s2)
        have "r s ?z \<subseteq> used s" using zj(2) by blast
        note o2 = deep_copy.old_kept [OF assms(1) this y'(1)]
        show ?thesis using zj(2,3) y'(1) by (auto simp: o2 grows_def)
      qed
      then show "r s2 ?z \<subseteq> used s2 - used m" "v s2 ?z = v s0 (get s0 a ! j)"
        using same [of ?z] by (simp_all add: s2)
    qed
  qed
  from Suc.IH [OF _ this rest] Suc.prems(1) show ?case by simp
qed simp

lemma copy_elems_deep:
  assumes "deep_copy f r v"
  shows "deep_copy (copy_elems get upd zero f)
    (\<lambda>s p. case p of None \<Rightarrow> {} | Some a \<Rightarrow> insert a (\<Union>x\<in>set (get s a). r s x))
    (\<lambda>s p. map_option (\<lambda>a. map (v s) (get s a)) p)"
proof
  fix s t :: "('x, 'm, 'l) mem" and p w :: "addr option"
  let ?refs = "\<lambda>s p. case p of None \<Rightarrow> {} | Some a \<Rightarrow> insert a (\<Union>x\<in>set (get s a). r s x)"
  have loc: "r t x = r s x \<and> v t x = v s x" if "agree (\<Union>x\<in>A. r s x) s t" "x \<in> A" for x A
    using deep_copy.local_refs [OF assms, of s x t] deep_copy.local_val [OF assms, of s x t]
      agree_subset [OF that(1), of "r s x"] that(2) by blast
  show "agree (?refs s p) s t \<Longrightarrow> ?refs t p = ?refs s p"
    "agree (?refs s p) s t \<Longrightarrow> map_option (\<lambda>a. map (v t) (get t a)) p = map_option (\<lambda>a. map (v s) (get s a)) p"
    by (auto simp: agree_insert [of _ "\<Union>_"] agree_get [of "{_}" s t] loc split: option.splits)
  assume rf: "?refs s p \<subseteq> used s" and run: "run_state (copy_elems get upd zero f p) s = (w, t)"
  show "grows s t \<and> ?refs t w \<subseteq> used t - used s \<and>
      map_option (\<lambda>a. map (v t) (get t a)) w = map_option (\<lambda>a. map (v s) (get s a)) p"
  proof (cases p)
    case None
    then show ?thesis using run by (simp add: copy_elems_def)
  next
    case (Some a)
    obtain b m where al: "run_state (alloc upd (replicate (length (get s a)) zero)) s = (b, m)" by fastforce
    note b = alloc_step [OF al]
    have w: "w = Some b" "run_state (copy_elems_loop get upd f a b 0 (length (get s a))) m = ((), t)"
      using run al by (auto simp: Some copy_elems_def split: prod.splits)
    have a: "a \<in> used s" "\<And>x. x \<in> set (get s a) \<Longrightarrow> r s x \<subseteq> used s" using rf by (auto simp: Some)
    have "filled r v s m a b 0 m" using b by (simp add: filled_def)
    from copy_elems_loop_fills [OF assms a(1) _ _ a(2) _ this w(2)] b(1,3)
    have fill: "filled r v s m a b (length (get s a)) t" by simp
    then have "map (v t) (get t b) = map (v s) (get s a)"
      by (intro nth_equalityI) (simp_all add: filled_def)
    moreover have "r t x \<subseteq> used t - used s" if x: "x \<in> set (get t b)" for x
    proof -
      obtain j where "j < length (get t b)" "x = get t b ! j" using x by (auto simp: in_set_conv_nth)
      then have "r t x \<subseteq> used t - used m" using fill by (simp add: filled_def)
      then show ?thesis using b(3) by auto
    qed
    ultimately show ?thesis
      using fill b(1,3) by (auto simp: w(1) Some filled_def)
  qed
qed

end

lemma deep_option:
  fixes c :: "'u \<Rightarrow> (('x, 'm, 'l) mem, 'u) state"
  assumes "deep_copy c r v"
  shows "deep_copy (\<lambda>p. case p of None \<Rightarrow> ret None | Some a \<Rightarrow> do { b \<leftarrow> c a; ret (Some b) })
    (\<lambda>s p. case p of None \<Rightarrow> {} | Some a \<Rightarrow> r s a) (\<lambda>s p. map_option (v s) p)"
proof
  fix s t :: "('x, 'm, 'l) mem" and p w :: "'u option"
  show "agree (case p of None \<Rightarrow> {} | Some a \<Rightarrow> r s a) s t \<Longrightarrow>
      (case p of None \<Rightarrow> {} | Some a \<Rightarrow> r t a) = (case p of None \<Rightarrow> {} | Some a \<Rightarrow> r s a)"
    "agree (case p of None \<Rightarrow> {} | Some a \<Rightarrow> r s a) s t \<Longrightarrow> map_option (v t) p = map_option (v s) p"
    using deep_copy.local_refs [OF assms, of s _ t] deep_copy.local_val [OF assms, of s _ t]
    by (auto split: option.splits)
  assume run: "(case p of None \<Rightarrow> {} | Some a \<Rightarrow> r s a) \<subseteq> used s"
    "run_state (case p of None \<Rightarrow> ret None | Some a \<Rightarrow> do { b \<leftarrow> c a; ret (Some b) }) s = (w, t)"
  show "grows s t \<and> (case w of None \<Rightarrow> {} | Some a \<Rightarrow> r t a) \<subseteq> used t - used s \<and>
      map_option (v t) w = map_option (v s) p"
  proof (cases p)
    case (Some a)
    obtain b s1 where b: "run_state (c a) s = (b, s1)" by fastforce
    then have "w = Some b" "t = s1" using run(2) by (simp_all add: Some)
    then show ?thesis using deep_copy.copies [OF assms _ b] run(1) by (simp add: Some)
  qed (use run in simp)
qed

lemma deep_ret: "deep_copy ret (\<lambda>_ _. {}) (\<lambda>_ v. v)"
  by unfold_locales auto

interpretation keyrefs: typed_memory m_keyref m_keyref_update by unfold_locales (auto simp: agree_def)
interpretation oidcs: typed_memory m_oidc m_oidc_update by unfold_locales (auto simp: agree_def)
interpretation times: typed_memory m_time m_time_update by unfold_locales (auto simp: agree_def)
interpretation connections: typed_memory m_connection m_connection_update by unfold_locales (auto simp: agree_def)
interpretation secrets: typed_memory m_secret m_secret_update by unfold_locales (auto simp: agree_def)
interpretation lists: typed_memory m_list m_list_update by unfold_locales (auto simp: agree_def)
interpretation condition_arrays: array_memory m_conditions m_conditions_update by unfold_locales (auto simp: agree_def)
interpretation string_arrays: array_memory m_strings m_strings_update by unfold_locales (auto simp: agree_def)
interpretation workload_arrays: array_memory m_workloads m_workloads_update by unfold_locales (auto simp: agree_def)
interpretation transform_arrays: array_memory m_transforms m_transforms_update by unfold_locales (auto simp: agree_def)
interpretation connection_arrays: array_memory m_connections m_connections_update by unfold_locales (auto simp: agree_def)
interpretation secret_arrays: array_memory m_secrets m_secrets_update by unfold_locales (auto simp: agree_def)

section \<open>The resources\<close>

text \<open>
  What each struct reaches, and the resource it stands for in the rest of the development; a
  nil slice and an empty one are both the empty list there.
\<close>

definition the_slice :: "'e list option \<Rightarrow> 'e list" where
  "the_slice x = (case x of None \<Rightarrow> [] | Some xs \<Rightarrow> xs)"

definition transform_refs :: "('x, 'm, 'l) mem \<Rightarrow> transform_obj \<Rightarrow> addr set" where
  "transform_refs s t = set_option (xt_Keys t)"

definition transform_val :: "('x, 'm, 'l) mem \<Rightarrow> transform_obj \<Rightarrow> secret_transform" where
  "transform_val s t = \<lparr>tr_Type = xt_Type t, tr_Value = xt_Value t, tr_From = xt_From t, tr_To = xt_To t,
     tr_Keys = the_slice (map_option (m_strings s) (xt_Keys t)), tr_Key = xt_Key t\<rparr>"

definition connection_spec_refs :: "('x, 'm, 'l) mem \<Rightarrow> connection_spec_obj \<Rightarrow> addr set" where
  "connection_spec_refs s c = set_option (xc_TokenSecretRef c) \<union> set_option (xc_OIDC c)"

definition connection_spec_val :: "('x, 'm, 'l) mem \<Rightarrow> connection_spec_obj \<Rightarrow> connection_spec" where
  "connection_spec_val s c = \<lparr>cs_Mode = xc_Mode c, cs_URL = xc_URL c, cs_Organization = xc_Organization c,
     cs_TokenSecretRef = map_option (m_keyref s) (xc_TokenSecretRef c), cs_OIDC = map_option (m_oidc s) (xc_OIDC c)\<rparr>"

definition connection_status_refs :: "('x, 'm, 'l) mem \<Rightarrow> connection_status_obj \<Rightarrow> addr set" where
  "connection_status_refs s c = set_option (xcs_Conditions c) \<union> set_option (xcs_LastCheckedAt c)"

definition connection_status_val :: "('x, 'm, 'l) mem \<Rightarrow> connection_status_obj \<Rightarrow> connection_status" where
  "connection_status_val s c = \<lparr>cst_Conditions = the_slice (map_option (m_conditions s) (xcs_Conditions c)),
     cst_LastCheckedAt = map_option (m_time s) (xcs_LastCheckedAt c)\<rparr>"

definition secret_spec_refs :: "('x, 'm, 'l) mem \<Rightarrow> secret_spec_obj \<Rightarrow> addr set" where
  "secret_spec_refs s v = set_option (xs_SelectorNames v) \<union> (set_option (xs_RolloutRestart v) \<union>
     (case xs_Transforms v of None \<Rightarrow> {} | Some a \<Rightarrow> insert a (\<Union>x\<in>set (m_transforms s a). transform_refs s x)))"

definition secret_spec_val :: "('x, 'm, 'l) mem \<Rightarrow> secret_spec_obj \<Rightarrow> secret_spec" where
  "secret_spec_val s v = \<lparr>ss_ConnectionRef = xs_ConnectionRef v, ss_Project = xs_Project v, ss_Vault = xs_Vault v,
     ss_SelectorNames = the_slice (map_option (m_strings s) (xs_SelectorNames v)), ss_Target = xs_Target v,
     ss_RefreshInterval = xs_RefreshInterval v,
     ss_RolloutRestart = the_slice (map_option (m_workloads s) (xs_RolloutRestart v)),
     ss_Transforms = the_slice (map_option (\<lambda>a. map (transform_val s) (m_transforms s a)) (xs_Transforms v))\<rparr>"

definition secret_status_refs :: "('x, 'm, 'l) mem \<Rightarrow> secret_status_obj \<Rightarrow> addr set" where
  "secret_status_refs s v = set_option (xss_Conditions v) \<union> (set_option (xss_LastSyncedAt v) \<union>
     (set_option (xss_SyncedKeys v) \<union> set_option (xss_MissingKeys v)))"

definition secret_status_val :: "('x, 'm, 'l) mem \<Rightarrow> secret_status_obj \<Rightarrow> secret_status" where
  "secret_status_val s v = \<lparr>sst_Conditions = the_slice (map_option (m_conditions s) (xss_Conditions v)),
     sst_LastSyncedAt = map_option (m_time s) (xss_LastSyncedAt v), sst_LastRolloutHash = xss_LastRolloutHash v,
     sst_SyncedKeys = the_slice (map_option (m_strings s) (xss_SyncedKeys v)),
     sst_MissingKeys = the_slice (map_option (m_strings s) (xss_MissingKeys v)),
     sst_ObservedGeneration = xss_ObservedGeneration v\<rparr>"

interpretation transform: deep_copy SecretTransform_DeepCopyInto transform_refs transform_val
  by (rule deep_struct [OF string_arrays.copy_slice_deep, where parts = xt_Keys and rebuild = "\<lambda>t ks. t\<lparr>xt_Keys := ks\<rparr>"
        and h = "\<lambda>t ks. \<lparr>tr_Type = xt_Type t, tr_Value = xt_Value t, tr_From = xt_From t, tr_To = xt_To t,
          tr_Keys = the_slice ks, tr_Key = xt_Key t\<rparr>"])
    (simp_all add: SecretTransform_DeepCopyInto_def transform_refs_def transform_val_def)

interpretation connection_spec: deep_copy ConnectionSpec_DeepCopyInto connection_spec_refs connection_spec_val
  by (rule deep_struct [OF deep_pair [OF keyrefs.copy_ptr_deep oidcs.copy_ptr_deep],
        where parts = "\<lambda>c. (xc_TokenSecretRef c, xc_OIDC c)"
        and rebuild = "\<lambda>c (t, d). c\<lparr>xc_TokenSecretRef := t, xc_OIDC := d\<rparr>"
        and h = "\<lambda>c (t, d). \<lparr>cs_Mode = xc_Mode c, cs_URL = xc_URL c, cs_Organization = xc_Organization c,
          cs_TokenSecretRef = t, cs_OIDC = d\<rparr>"])
    (auto simp: ConnectionSpec_DeepCopyInto_def connection_spec_refs_def connection_spec_val_def)

interpretation secret_spec: deep_copy SecretSpec_DeepCopyInto secret_spec_refs secret_spec_val
  by (rule deep_struct [OF deep_pair [OF string_arrays.copy_slice_deep
          deep_pair [OF workload_arrays.copy_slice_deep transform_arrays.copy_elems_deep [OF transform.deep_copy_axioms]]],
        where parts = "\<lambda>v. (xs_SelectorNames v, xs_RolloutRestart v, xs_Transforms v)"
        and rebuild = "\<lambda>v (ns, ws, ts). v\<lparr>xs_SelectorNames := ns, xs_RolloutRestart := ws, xs_Transforms := ts\<rparr>"
        and h = "\<lambda>v (ns, ws, ts). \<lparr>ss_ConnectionRef = xs_ConnectionRef v, ss_Project = xs_Project v, ss_Vault = xs_Vault v,
          ss_SelectorNames = the_slice ns, ss_Target = xs_Target v, ss_RefreshInterval = xs_RefreshInterval v,
          ss_RolloutRestart = the_slice ws, ss_Transforms = the_slice ts\<rparr>"])
    (auto simp: SecretSpec_DeepCopyInto_def secret_spec_refs_def secret_spec_val_def)

section \<open>The library's deep copies\<close>

text \<open>
  What the code relies on: the library's deep copies are deep copies.  \<open>mr\<close>, \<open>mv\<close> and \<open>lr\<close>, \<open>lv\<close>
  are what the two metas reach and stand for.
\<close>

definition secret_status_h where
  "secret_status_h v = (\<lambda>(cs, t, ks, ms). \<lparr>sst_Conditions = the_slice cs, sst_LastSyncedAt = t,
     sst_LastRolloutHash = xss_LastRolloutHash v, sst_SyncedKeys = the_slice ks, sst_MissingKeys = the_slice ms,
     sst_ObservedGeneration = xss_ObservedGeneration v\<rparr>)"

definition connection_refs where
  "connection_refs mr s v = mr s (xo_ObjectMeta v) \<union> (connection_spec_refs s (xo_Spec v) \<union> connection_status_refs s (xo_Status v))"

definition connection_val where
  "connection_val mv s v = (xo_TypeMeta v, \<lparr>cn_meta = mv s (xo_ObjectMeta v), cn_Spec = connection_spec_val s (xo_Spec v),
     cn_Status = connection_status_val s (xo_Status v)\<rparr>)"

definition secret_refs where
  "secret_refs mr s v = mr s (xv_ObjectMeta v) \<union> (secret_spec_refs s (xv_Spec v) \<union> secret_status_refs s (xv_Status v))"

definition secret_val where
  "secret_val mv s v = (xv_TypeMeta v, \<lparr>fs_meta = mv s (xv_ObjectMeta v), fs_Spec = secret_spec_val s (xv_Spec v),
     fs_Status = secret_status_val s (xv_Status v)\<rparr>)"

text \<open>A list: its meta, and the array of its items with what they reach.\<close>

definition list_refs where
  "list_refs lr get r s v = lr s (xl_ListMeta v) \<union>
     (case xl_Items v of None \<Rightarrow> {} | Some a \<Rightarrow> insert a (\<Union>x\<in>set (get s a). r s x))"

definition list_val where
  "list_val lv get v s l = (xl_TypeMeta l, lv s (xl_ListMeta l), map_option (\<lambda>a. map (v s) (get s a)) (xl_Items l))"

text \<open>A pointer to an object.\<close>

definition object_refs where
  "object_refs get r s p = (case p of None \<Rightarrow> {} | Some a \<Rightarrow> insert a (r s (get s a)))"

definition object_val where
  "object_val get v s p = map_option (\<lambda>a. v s (get s a)) p"

locale api_library =
  fixes L :: "('x, 'm, 'l) library"
    and mr :: "('x, 'm, 'l) mem \<Rightarrow> 'm \<Rightarrow> addr set" and mv :: "('x, 'm, 'l) mem \<Rightarrow> 'm \<Rightarrow> objmeta"
    and lr :: "('x, 'm, 'l) mem \<Rightarrow> 'l \<Rightarrow> addr set" and lv :: "('x, 'm, 'l) mem \<Rightarrow> 'l \<Rightarrow> 'b"
  assumes condition: "deep_copy (lib_Condition L) (\<lambda>_ _. {}) (\<lambda>_ c. c)"
    and time: "deep_copy (lib_Time L) (\<lambda>_ a. {a}) m_time"
    and object_meta: "deep_copy (lib_ObjectMeta L) mr mv"
    and list_meta: "deep_copy (lib_ListMeta L) lr lv"
begin

lemma copy_time_deep: "deep_copy (copy_time L) (\<lambda>_ p. set_option p) (\<lambda>s p. map_option (m_time s) p)"
proof -
  have refs: "(\<lambda>(_ :: ('x, 'm, 'l) mem) p. set_option p) = (\<lambda>s p. case p of None \<Rightarrow> {} | Some a \<Rightarrow> {a})"
    by (intro ext) (simp split: option.splits)
  show ?thesis
    unfolding refs copy_time_def [abs_def] by (rule deep_option [OF time])
qed

lemma conditions_deep:
  "deep_copy (copy_elems m_conditions m_conditions_update zero_condition (lib_Condition L)) (\<lambda>_ p. set_option p)
     (\<lambda>s p. map_option (m_conditions s) p)"
proof -
  have refs: "(\<lambda>(_ :: ('x, 'm, 'l) mem) p. set_option p) =
      (\<lambda>s p. case p of None \<Rightarrow> {} | Some a \<Rightarrow> insert a (\<Union>x\<in>set (m_conditions s a). {}))"
    by (intro ext) (simp split: option.splits)
  show ?thesis
    using condition_arrays.copy_elems_deep [OF condition, of zero_condition] unfolding refs by (simp only: list.map_ident)
qed

lemma connection_status_deep:
  "deep_copy (ConnectionStatus_DeepCopyInto L) connection_status_refs connection_status_val"
  by (rule deep_struct [OF deep_pair [OF conditions_deep copy_time_deep],
        where parts = "\<lambda>c. (xcs_Conditions c, xcs_LastCheckedAt c)"
        and rebuild = "\<lambda>c (cs, t). c\<lparr>xcs_Conditions := cs, xcs_LastCheckedAt := t\<rparr>"
        and h = "\<lambda>c (cs, t). \<lparr>cst_Conditions = the_slice cs, cst_LastCheckedAt = t\<rparr>"])
    (auto simp: ConnectionStatus_DeepCopyInto_def connection_status_refs_def connection_status_val_def)

lemma secret_status_deep: "deep_copy (SecretStatus_DeepCopyInto L) secret_status_refs secret_status_val"
  by (rule deep_struct [OF deep_pair [OF conditions_deep deep_pair [OF copy_time_deep
          deep_pair [OF string_arrays.copy_slice_deep string_arrays.copy_slice_deep]]],
        where parts = "\<lambda>v. (xss_Conditions v, xss_LastSyncedAt v, xss_SyncedKeys v, xss_MissingKeys v)"
        and rebuild = "\<lambda>v (cs, t, ks, ms). v\<lparr>xss_Conditions := cs, xss_LastSyncedAt := t, xss_SyncedKeys := ks, xss_MissingKeys := ms\<rparr>"
        and h = secret_status_h])
    (auto simp: SecretStatus_DeepCopyInto_def secret_status_refs_def secret_status_val_def secret_status_h_def)

lemma connection_deep: "deep_copy (FerrVaultConnection_DeepCopyInto L) (connection_refs mr) (connection_val mv)"
  by (rule deep_struct [OF deep_pair [OF object_meta deep_pair [OF connection_spec.deep_copy_axioms connection_status_deep]],
        where parts = "\<lambda>v. (xo_ObjectMeta v, xo_Spec v, xo_Status v)"
        and rebuild = "\<lambda>v (m, sp, st). v\<lparr>xo_ObjectMeta := m, xo_Spec := sp, xo_Status := st\<rparr>"
        and h = "\<lambda>v (m, sp, st). (xo_TypeMeta v, \<lparr>cn_meta = m, cn_Spec = sp, cn_Status = st\<rparr>)"])
    (auto simp: FerrVaultConnection_DeepCopyInto_def connection_refs_def connection_val_def)

lemma secret_deep: "deep_copy (FerrVaultSecret_DeepCopyInto L) (secret_refs mr) (secret_val mv)"
  by (rule deep_struct [OF deep_pair [OF object_meta deep_pair [OF secret_spec.deep_copy_axioms secret_status_deep]],
        where parts = "\<lambda>v. (xv_ObjectMeta v, xv_Spec v, xv_Status v)"
        and rebuild = "\<lambda>v (m, sp, st). v\<lparr>xv_ObjectMeta := m, xv_Spec := sp, xv_Status := st\<rparr>"
        and h = "\<lambda>v (m, sp, st). (xv_TypeMeta v, \<lparr>fs_meta = m, fs_Spec = sp, fs_Status = st\<rparr>)"])
    (auto simp: FerrVaultSecret_DeepCopyInto_def secret_refs_def secret_val_def)

lemma connection_list_deep:
  "deep_copy (FerrVaultConnectionList_DeepCopyInto L zero) (list_refs lr m_connections (connection_refs mr))
     (list_val lv m_connections (connection_val mv))"
  by (rule deep_struct [OF deep_pair [OF list_meta connection_arrays.copy_elems_deep [OF connection_deep, of zero]],
        where parts = "\<lambda>v. (xl_ListMeta v, xl_Items v)"
        and rebuild = "\<lambda>v (m, items). v\<lparr>xl_ListMeta := m, xl_Items := items\<rparr>"
        and h = "\<lambda>v (m, items). (xl_TypeMeta v, m, items)"])
    (auto simp: FerrVaultConnectionList_DeepCopyInto_def list_refs_def list_val_def)

lemma secret_list_deep:
  "deep_copy (FerrVaultSecretList_DeepCopyInto L zero) (list_refs lr m_secrets (secret_refs mr))
     (list_val lv m_secrets (secret_val mv))"
  by (rule deep_struct [OF deep_pair [OF list_meta secret_arrays.copy_elems_deep [OF secret_deep, of zero]],
        where parts = "\<lambda>v. (xl_ListMeta v, xl_Items v)"
        and rebuild = "\<lambda>v (m, items). v\<lparr>xl_ListMeta := m, xl_Items := items\<rparr>"
        and h = "\<lambda>v (m, items). (xl_TypeMeta v, m, items)"])
    (auto simp: FerrVaultSecretList_DeepCopyInto_def list_refs_def list_val_def)

lemma secret_pointer_deep:
  "deep_copy (FerrVaultSecret_DeepCopy L zero) (object_refs m_secret (secret_refs mr)) (object_val m_secret (secret_val mv))"
  unfolding FerrVaultSecret_DeepCopy_def object_refs_def object_val_def
  by (rule secrets.copy_object_deep [OF secret_deep])

lemma connection_pointer_deep:
  "deep_copy (FerrVaultConnection_DeepCopy L zero) (object_refs m_connection (connection_refs mr))
     (object_val m_connection (connection_val mv))"
  unfolding FerrVaultConnection_DeepCopy_def object_refs_def object_val_def
  by (rule connections.copy_object_deep [OF connection_deep])

lemma connection_list_pointer_deep:
  "deep_copy (FerrVaultConnectionList_DeepCopy L zi zero) (object_refs m_list (list_refs lr m_connections (connection_refs mr)))
     (object_val m_list (list_val lv m_connections (connection_val mv)))"
  unfolding FerrVaultConnectionList_DeepCopy_def object_refs_def object_val_def
  by (rule lists.copy_object_deep [OF connection_list_deep])

lemma secret_list_pointer_deep:
  "deep_copy (FerrVaultSecretList_DeepCopy L zi zero) (object_refs m_list (list_refs lr m_secrets (secret_refs mr)))
     (object_val m_list (list_val lv m_secrets (secret_val mv)))"
  unfolding FerrVaultSecretList_DeepCopy_def object_refs_def object_val_def
  by (rule lists.copy_object_deep [OF secret_list_deep])

end

text \<open>A library in which metas hold no pointers.\<close>

definition flat_library :: "(unit, objmeta, unit) library" where
  "flat_library = \<lparr>lib_Condition = ret,
     lib_Time = (\<lambda>a. do { b \<leftarrow> alloc m_time_update 0; v \<leftarrow> gets (\<lambda>s. m_time s a); assign m_time_update b v; ret b }),
     lib_ObjectMeta = ret, lib_ListMeta = ret\<rparr>"

lemma flat_time: "deep_copy (lib_Time flat_library) (\<lambda>_ a. {a}) m_time"
proof
  fix s t :: "(unit, objmeta, unit) mem" and a w
  show "agree {a} s t \<Longrightarrow> {a} = {a}" "agree {a} s t \<Longrightarrow> m_time t a = m_time s a"
    by (simp_all add: agree_def)
  assume "{a} \<subseteq> used s" "run_state (lib_Time flat_library a) s = (w, t)"
  then show "grows s t \<and> {w} \<subseteq> used t - used s \<and> m_time t w = m_time s a"
    by (auto simp: flat_library_def alloc_def assign_def grows_def agree_def)
qed

interpretation flat: api_library flat_library "\<lambda>_ _. {}" "\<lambda>_ m. m" "\<lambda>_ _. {}" "\<lambda>_ m. m"
  by (rule api_library.intro [OF _ flat_time]) (simp_all only: flat_library_def library.select_convs deep_ret)

section \<open>Properties\<close>

text \<open>
  Property C22: a copy of a FerrVaultSecret is deep. It has the same value, whoever changes only
  memory that the copy reaches leaves the original as it was, and whoever changes only memory
  that the original reaches leaves the copy as it was.
\<close>

theorem secret_deep_copy_apart:
  assumes "api_library L mr mv lr lv"
    and "object_refs m_secret (secret_refs mr) s p \<subseteq> used s"
    and "run_state (FerrVaultSecret_DeepCopy L zero p) s = (q, t)"
  shows "object_val m_secret (secret_val mv) t q = object_val m_secret (secret_val mv) s p \<and>
    (\<forall>u. agree (- object_refs m_secret (secret_refs mr) t q) t u \<longrightarrow>
       object_val m_secret (secret_val mv) u p = object_val m_secret (secret_val mv) s p) \<and>
    (\<forall>u. agree (- object_refs m_secret (secret_refs mr) t p) t u \<longrightarrow>
       object_val m_secret (secret_val mv) u q = object_val m_secret (secret_val mv) s p)"
  by (rule deep_copy.apart [OF api_library.secret_pointer_deep [OF assms(1)] assms(2,3)])

text \<open>
  The same for a list of connections: every item of the copy stands for the same
  connection, its token reference, OIDC settings, conditions and time included, and nothing is
  shared with the original.
\<close>

theorem connection_list_deep_copy_apart:
  assumes "api_library L mr mv lr lv"
    and "object_refs m_list (list_refs lr m_connections (connection_refs mr)) s p \<subseteq> used s"
    and "run_state (FerrVaultConnectionList_DeepCopy L zi zero p) s = (q, t)"
  shows "object_val m_list (list_val lv m_connections (connection_val mv)) t q =
      object_val m_list (list_val lv m_connections (connection_val mv)) s p \<and>
    object_refs m_list (list_refs lr m_connections (connection_refs mr)) t p \<inter>
      object_refs m_list (list_refs lr m_connections (connection_refs mr)) t q = {}"
  using deep_copy.isolated(1,3) [OF api_library.connection_list_pointer_deep [OF assms(1)] assms(2,3)] by (rule conjI)

end
