(* ===== verification/Scenarios.thy ===== *)
theory Scenarios
  imports Connection_Facts Manager Deep_Copy
begin

text \<open>
  The properties at concrete inputs: for each one with hypotheses, a case in which they hold
  together, run on the reference cluster where the world is involved.
\<close>

section \<open>Transforms\<close>

definition transform0 :: "string \<Rightarrow> secret_transform" where
  "transform0 ty = \<lparr>tr_Type = ty, tr_Value = ''P_'', tr_From = ''a'', tr_To = ''c'', tr_Keys = [], tr_Key = ''a''\<rparr>"

definition two_keys :: "string gomap" where "two_keys = [(''a'', ''1''), (''b'', ''2'')]"

lemma wf_two_keys: "wf_map two_keys" "wf_map (rev two_keys)" "same_map two_keys (rev two_keys)"
  by (auto simp: two_keys_def wf_map_def same_map_def fun_eq_iff)


lemma transforms_failure_position_witness:
  "\<exists>pre t post msg. [transform0 ''prefix'', transform0 ''nope''] = pre @ t # post \<and>
     ApplyTransforms pf0 two_keys pre = ([(''P_a'', ''1''), (''P_b'', ''2'')], None) \<and>
     TransformError 1 ''nope'' (Sprintf ''unknown transform type'' []) =
       TransformError (int (length pre)) (tr_Type t) msg"
  by (rule transforms_failure_position)
    (simp add: ApplyTransforms_def applyOne_def transform_kinds transform0_def transform_error_def at_index_def
      applyAffix_def copy_map_def two_keys_def)

lemma affix_relabels_witness: "map_of (applyAffix two_keys ''P_'' True) ''P_b'' = Some ''2''"
  using affix_relabels [OF wf_two_keys(1), of "''P_''" True "''b''"] by (simp add: two_keys_def)

lemma rename_spec_witness:
  "(\<exists>n. applyRename two_keys (transform0 ''rename'') = Inr n \<and> map_of n ''c'' = Some ''1'') \<and>
   applyRename two_keys (transform0 ''rename''\<lparr>tr_To := ''b''\<rparr>) =
     Inl (TransformError 0 ''rename'' (Sprintf ''destination key %q already exists'' [AStr ''b'']))"
  using rename_spec [OF wf_two_keys(1), of "transform0 ''rename''"]
    rename_spec [OF wf_two_keys(1), of "transform0 ''rename''\<lparr>tr_To := ''b''\<rparr>"]
  by (auto simp: transform0_def two_keys_def)

lemma base64_round_trip_witness:
  "\<exists>n. applyBase64Decode (map (\<lambda>(k, v). (k, b64_encode (if k = ''a'' then url_chr else std_chr) v)) two_keys)
     (transform0 ''base64Decode'') = Inr n \<and> same_map n two_keys"
  by (rule base64_round_trip) (simp_all add: wf_two_keys transform0_def)

definition colliding_leaves :: string where
  "colliding_leaves = ''{\"a\":{\"b\":\"x\"},\"a_b\":\"y\"}''"

lemma colliding_leaves_object:
  "Unmarshal_any colliding_leaves = Some (JObj [(''a'', JObj [(''b'', JStr ''x'')]), (''a_b'', JStr ''y'')])"
  by code_simp

lemma jsonExpand_spec_witness:
  "case applyJSONExpand pf0 [(''cfg'', colliding_leaves)] (transform0 ''jsonExpand''\<lparr>tr_Key := ''cfg''\<rparr>) of
     Inr n \<Rightarrow> map_of n = [''CFG_A_B'' \<mapsto> ''y''] | Inl e \<Rightarrow> False"
proof -
  let ?t = "transform0 ''jsonExpand''\<lparr>tr_Key := ''cfg''\<rparr>" and ?m = "[(''cfg'', colliding_leaves)]"
  have key: "tr_Key ?t = ''cfg''" by simp
  have leaves: "leaves pf0 (ToUpper (pf_unicode_upper pf0) ''cfg'')
      (JObj [(''a'', JObj [(''b'', JStr ''x'')]), (''a_b'', JStr ''y'')]) = [(''CFG_A_B'', ''x''), (''CFG_A_B'', ''y'')]"
    by code_simp
  have rest: "(map_of ?m)(''cfg'' := None) = Map.empty" by (simp add: fun_eq_iff)
  have "wf_map ?m" "tr_Key ?t \<noteq> []" "map_of ?m (tr_Key ?t) = Some colliding_leaves"
    by (simp_all add: wf_map_def)
  from jsonExpand_spec [OF this colliding_leaves_object, of pf0, unfolded key leaves rest Let_def]
  show ?thesis by (simp add: fun_eq_iff split: sum.splits)
qed

text \<open>Of two clashes the message names the one the iteration over the expanded entries meets first.\<close>

lemma clash_named_by_order:
  "let t = transform0 ''jsonExpand''\<lparr>tr_Key := ''cfg''\<rparr>;
       m = [(''cfg'', ''{\"a\":\"x\",\"b\":\"y\"}''), (''CFG_A'', ''1''), (''CFG_B'', ''2'')]
   in applyJSONExpand pf0 m t = Inl (transform_error ''jsonExpand'' (clash_text ''CFG_A'')) \<and>
      applyJSONExpand (pf0\<lparr>pf_map_rank := \<lambda>k. if k = ''CFG_A'' then 1 else 0\<rparr>) m t =
        Inl (transform_error ''jsonExpand'' (clash_text ''CFG_B''))"
  by code_simp

section \<open>Digests and conditions\<close>

lemma hash_order_independent_witness: "hashSecretData two_keys = hashSecretData (rev two_keys)"
  by (rule hash_order_independent [OF wf_two_keys])

lemma hash_input_determines_content_witness: "same_map two_keys (rev two_keys)"
proof (rule hash_input_determines_content)
  show "nul_free two_keys" "nul_free (rev two_keys)"
    by code_simp+
  show "hash_input two_keys = hash_input (rev two_keys)"
    by (rule hash_input_cong [OF wf_two_keys(3,1,2)])
qed

lemma setCondition_spec_witness:
  "wp (setCondition (cluster_env pf0 (\<lambda>_. Inl missing_error) []) [new_condition ''Other'' ConditionTrue [] (Sprintf [] [])]
       (new_condition ''Ready'' ConditionTrue ''Synced'' (Sprintf ''ok'' [])))
     (\<lambda>conds' _. distinct (map c_type conds') \<and> find_condition ''Other'' conds' \<noteq> None) proc0"
  by (rule wp_mono [OF setCondition_spec]) (auto simp: new_condition_def find_condition_def)

section \<open>Liveness\<close>

lemma beat_keeps_alive_witness:
  "wp (Beat True 5) (\<lambda>_ p'. p_last proc0 \<le> p_last p') proc0 \<and>
   wp (State_Monad.bind (Beat True 5) (\<lambda>_. Idle True 9)) (\<lambda>idle _. idle \<le> 10) proc0"
  by (rule beat_keeps_alive) simp_all

lemma stall_reported_iff_witness:
  "wp (StallChecker (cluster_env pf0 (\<lambda>_. Inl missing_error) []) True (-1) None) (\<lambda>r _. r \<noteq> None) proc0"
proof -
  let ?E = "cluster_env pf0 (\<lambda>_. Inl missing_error) []"
  have "time_Sub 0 0 = 0" by (simp add: time_Sub_def)
  then show ?thesis
    using stall_reported_iff [of ?E proc0 0 cluster0 None "Inr [conn0]" cluster0 "Inr [cr0]" cluster0 "-1"]
    by (simp add: world0 proc0_def cluster0_def selected_def list_one_def)
qed

section \<open>Tokens\<close>

definition no_http :: "nat \<Rightarrow> goerror + http_response" where "no_http = (\<lambda>_. Inl (Foreign ''connection refused''))"

abbreviation E0 :: "cluster env" where "E0 \<equiv> cluster_env pf0 no_http ''jwt''"

definition oidc_conn :: connection where
  "oidc_conn = conn0\<lparr>cn_Spec := (cn_Spec conn0)\<lparr>cs_TokenSecretRef := None,
     cs_OIDC := Some \<lparr>oa_ClusterID = ''c1'', oa_TokenPath = [], oa_Audience = []\<rparr>\<rparr>\<rparr>"

definition bare_conn :: connection where
  "bare_conn = conn0\<lparr>cn_Spec := (cn_Spec conn0)\<lparr>cs_TokenSecretRef := None\<rparr>\<rparr>"

definition with_bearer :: "instant \<Rightarrow> cluster proc" where
  "with_bearer t = proc0\<lparr>p_cache := Some [(''ns'', ''conn'') \<mapsto> \<lparr>cb_token = ''bearer'', cb_expiresAt = t\<rparr>]\<rparr>"

definition token_secret :: k8s_secret where
  "token_secret = \<lparr>sec_meta = meta0 ''token'', sec_Type = ''Opaque'', sec_Data = [(''t'', '' tok '')], sec_StringData = []\<rparr>"

definition proc_with_secret :: "nname \<Rightarrow> k8s_secret \<Rightarrow> cluster proc" where
  "proc_with_secret k s = proc0\<lparr>p_world := cluster0\<lparr>cl_secrets := [k \<mapsto> s]\<rparr>\<rparr>"

lemmas conn_simps = oidc_conn_def bare_conn_def conn0_def meta0_def

lemma cluster_now: "run_state (e_now (cluster_env pf sent file)) w = (cl_now w, w)"
  by (simp add: world0)

lemma exactly_one_token_source_witness:
  "\<exists>err. run_state (TokenFor E0 (NewTokenBroker E0) None bare_conn) proc0 = (Inl err, proc0)"
  by (rule exactly_one_token_source) (simp add: conn_simps)

lemma secret_token_trimmed_witness:
  "wp (TokenFor E0 (NewTokenBroker E0) None conn0) (\<lambda>r _. \<forall>t. r = Inr t \<longrightarrow> t \<noteq> [] \<and> t = TrimSpace '' tok '')
     (proc_with_secret (''ns'', ''token'') token_secret)"
  by (rule wp_mono [OF secret_token_trimmed])
    (auto simp: conn_simps proc_with_secret_def token_secret_def world0)

lemma cached_bearer_reused_witness:
  "run_state (TokenFor E0 (NewTokenBroker E0) None oidc_conn) (with_bearer (61 * second)) =
     (Inr ''bearer'', with_bearer (61 * second)\<lparr>p_world := cluster0\<rparr>)"
  using cached_bearer_reused [of oidc_conn _ "with_bearer (61 * second)"
      "\<lparr>cb_token = ''bearer'', cb_expiresAt = 61 * second\<rparr>" E0 0 cluster0 "NewTokenBroker E0" None]
  by (simp add: conn_simps cache_entry_def with_bearer_def cache_key_def cluster_now proc0_def cluster0_def
      time_Sub_def duration_units)

lemma broker_refreshes_expiring_witness:
  "wp (TokenFor E0 \<lparr>br_ReadToken = readFileString E0, br_Exchange = (\<lambda>_ _ _ _. ret (Inr (''new'', 100)))\<rparr> None oidc_conn)
     (\<lambda>r p'. \<forall>t. r = Inr t \<longrightarrow> cache_entry p' (''ns'', ''conn'') = Some \<lparr>cb_token = t, cb_expiresAt = 100\<rparr>)
     (with_bearer (60 * second))"
  by (rule wp_mono [OF broker_refreshes_expiring])
    (auto simp: conn_simps cache_entry_def with_bearer_def cache_key_def cluster_now proc0_def cluster0_def
      time_Sub_def duration_units)

lemma changed_connection_reuses_bearer_witness:
  "fst (run_state (TokenFor E0 (NewTokenBroker E0) None (oidc_conn\<lparr>cn_Spec := (cn_Spec oidc_conn)\<lparr>cs_URL := ''https://other''\<rparr>\<rparr>))
     (snd (run_state (cachePut oidc_conn ''old'' (61 * second)) proc0))) = Inr ''old''"
  by (rule changed_connection_reuses_bearer [where now = 0 and w = cluster0])
    (simp_all add: conn_simps cache_key_def cachePut_def cluster_now proc0_def cluster0_def time_Sub_def duration_units)

section \<open>The HTTP client\<close>

definition client0 :: fv_client where
  "client0 = \<lparr>c_baseURL = empty_url\<lparr>u_Scheme := ''https'', u_Host := ''vault''\<rparr>, c_token = ''tok'',
     c_Timeout = RequestTimeout, c_retry = DefaultRetryPolicy\<rparr>"

definition answer :: "int \<Rightarrow> string \<Rightarrow> goerror + http_response" where
  "answer st body = Inr \<lparr>rs_StatusCode = st, rs_Body = Inr body\<rparr>"

lemma cluster_answers: "api_answers (cluster_env pf sent file) ctx cl_requests sent"
  by (auto simp: api_answers_def serves_def cluster_env_def keeps_def)

lemma cluster_timed: "timed cl_now (cluster_env pf sent file)"
  by (auto simp: timed_def elapses_def keeps_def cluster_env_def wp_def)

lemma targets_parse:
  "url_Parse pf0 (url_String (endpoint client0 ''/healthz'')) \<noteq> None"
  "url_Parse pf0 (url_String (endpoint client0 ''/operator/secrets/reveal'')) \<noteq> None"
  "url_Parse pf0 (url_String (reveal_url client0 ''o'' ''p'' ''v'' [])) \<noteq> None"
  by code_simp+

lemma retry_loop_reference_witness:
  "wp (doWithRetry (cluster_env pf0 (\<lambda>k. answer (if k = 0 then 503 else 200) []) []) client0 None
       (e_http_Do (cluster_env pf0 (\<lambda>k. answer (if k = 0 then 503 else 200) []) []) second None \<lparr>rq_Method = ''GET'',
          rq_URL = c_baseURL client0, rq_Header = [], rq_Body = None\<rparr>) classify_probe ())
     (\<lambda>(a, err, _) w'. a = 2 \<and> cl_requests w' = 2 \<and> err = None) cluster0"
  (is "wp (doWithRetry ?E _ _ ?send _ _) _ _")
proof -
  have s: "serves ?E None ?send cl_requests (\<lambda>k. answer (if k = 0 then 503 else 200) [])"
    using cluster_answers by (simp add: api_answers_def)
  show ?thesis
    by (rule wp_mono [OF retry_loop_reference [OF s]])
      (auto simp: client0_def DefaultRetryPolicy_def cluster0_def upt_rec answer_def attempt_result_def
        classify_probe_def http_statuses wants_retry_def api_status_simps annotateAttempts_def split: prod.splits)
qed

lemma reveal_status_decides_witness:
  "wp (RevealFromVault (cluster_env pf0 (\<lambda>_. answer 403 []) []) client0 None ''v'' [])
     (\<lambda>r w'. cl_requests w' = 1 \<and> (\<exists>e. r = Inl e \<and> IsAuthError (Some e) \<and> \<not> IsRateLimited (Some e))) cluster0"
  by (rule wp_mono [OF reveal_status_decides [OF cluster_answers, where resp = "\<lparr>rs_StatusCode = 403, rs_Body = Inr []\<rparr>"
        and body = "[]"]])
    (use targets_parse in \<open>auto simp: answer_def cluster0_def cluster_env_def split: sum.splits\<close>)

lemma outage_exhausts_attempts_witness:
  "wp (BulkReveal E0 client0 None ''o'' ''p'' ''v'' ''ns'' [])
     (\<lambda>r w'. cl_requests w' = 3 \<and> (\<exists>e. r = Inl e \<and> Attempts e = Some 3)) cluster0"
  by (rule wp_mono [OF outage_exhausts_attempts [OF cluster_answers]])
    (use targets_parse in \<open>auto simp: no_http_def cluster0_def cluster_env_def client0_def DefaultRetryPolicy_def\<close>)

lemma backoff_within_jitter_witness:
  "wp (backoff_delay E0 DefaultRetryPolicy 1) (\<lambda>d _. 75 * millisecond \<le> d \<and> d \<le> 125 * millisecond) cluster0"
  by (rule wp_mono [OF backoff_within_jitter [OF cluster_draws]]) (simp_all add: duration_units)

lemma calls_fit_reconcile_timeout_witness:
  "\<exists>c. New pf0 ''https://vault'' ''tok'' [] = Inr c \<and>
     wp (RevealFromVault E0 c None ''v'' []) (\<lambda>_ t. cl_now t \<le> 2 * minute) cluster0"
proof -
  have "New pf0 ''https://vault'' ''tok'' [] \<noteq> Inl e" for e
  proof -
    have "map_option u_Scheme (url_Parse pf0 ''https://vault'') = Some ''https''" by code_simp
    then show ?thesis by (auto simp: New_def Let_def)
  qed
  then obtain c where c: "New (e_pf E0) ''https://vault'' ''tok'' [] = Inr c"
    by (cases "New pf0 ''https://vault'' ''tok'' []") (auto simp: cluster_env_def)
  have "validateReconcileTimeout (e_pf E0) (2 * minute) = None"
    by (simp add: validateReconcileTimeout_def LongestCall_default duration_units)
  from calls_fit_reconcile_timeout [OF cluster_timed cluster_draws c this, of None cluster0]
  show ?thesis using c by (auto simp: cluster_env_def cluster0_def)
qed

lemma backoff_doubles_witness:
  "wp (State_Monad.bind (forget SecretController (''ns'', ''app'')) (\<lambda>_.
      State_Monad.bind (rate_limited_times E0 SecretController (''ns'', ''app'') 3) (\<lambda>_.
      next_delay E0 SecretController (''ns'', ''app''))))
     (\<lambda>d _. 20 * second \<le> d \<and> d \<le> 40 * second) proc0"
  by (rule wp_mono [OF backoff_doubles [OF cluster_draws]]) (auto simp: Let_def duration_units)

section \<open>A pass of the secret reconciler\<close>

definition r0 :: "cluster secret_reconciler" where
  "r0 = \<lparr>sr_DefaultRefreshInterval = hour, sr_ClientFactory = None, sr_Broker = None, sr_Heartbeat = True\<rparr>"

text \<open>A resource whose target is the connection's own token Secret.\<close>

definition cr_over_token :: fvsecret where
  "cr_over_token = cr0\<lparr>fs_Spec := (fs_Spec cr0)\<lparr>ss_Target := \<lparr>st_Name = ''token'', st_Type = []\<rparr>\<rparr>\<rparr>"

definition revealed0 :: reveal_response where
  "revealed0 = \<lparr>rv_Secrets = [(''k'', ''v'')], rv_Missing = [], rv_Vault = no_vault\<rparr>"

lemmas cr_simps = cr_over_token_def cr0_def meta0_def

lemma cluster_removes: "removes_type (cluster_env pf sent file)"
  by (simp add: removes_type_def cluster_env_def)

text \<open>
  The three ways to be blocked once the reveal has answered or failed: the connection's token is
  not in the new data, a key is missing while the target exists, and the reveal failed.
\<close>

lemma blocked_pass_writes_nothing_witness:
  "wp (secret_react E0 r0 None (''ns'', ''app'') cr_over_token conn0 (Inr revealed0))
     (\<lambda>_ p'. cl_secrets (p_world p') = [(''ns'', ''token'') \<mapsto> token_secret])
     (proc_with_secret (''ns'', ''token'') token_secret) \<and>
   wp (secret_react E0 r0 None (''ns'', ''app'') cr0 conn0 (Inr (revealed0\<lparr>rv_Missing := [''m'']\<rparr>)))
     (\<lambda>_ p'. cl_secrets (p_world p') = [(''ns'', ''app'') \<mapsto> token_secret])
     (proc_with_secret (''ns'', ''app'') token_secret) \<and>
   wp (secret_react E0 r0 None (''ns'', ''app'') cr0 conn0 (Inl (APIError 403 [] 1)))
     (\<lambda>_ p'. cl_secrets (p_world p') = [(''ns'', ''app'') \<mapsto> token_secret])
     (proc_with_secret (''ns'', ''app'') token_secret)"
  (is "?token \<and> ?missing \<and> ?failed")
proof -
  note law = blocked_pass_writes_nothing [OF cluster_reads_secrets cluster_status_secrets]
  have ?token
    by (rule wp_mono [OF law])
      (simp_all add: revealed0_def ApplyTransforms_def copy_map_def cr_simps conn0_def connectionTokenKey_def
        targetName_def proc_with_secret_def)
  moreover have ?missing
    by (rule wp_mono [OF law])
      (simp_all add: revealed0_def ApplyTransforms_def copy_map_def cr_simps conn0_def connectionTokenKey_def
        targetName_def proc_with_secret_def world0 target_key_def)
  moreover have ?failed
    by (rule wp_mono [OF law]) (simp_all add: proc_with_secret_def)
  ultimately show ?thesis by blast
qed

lemma rate_limited_reveal_postpones_witness:
  "wp (secret_react E0 r0 None (''ns'', ''app'') cr0 conn0 (Inl (APIError 429 [] 1)))
     (\<lambda>(outcome, _) p'. objects (p_world p') = objects cluster0 \<and> RequeueAfter (fst outcome) \<le> 5 * minute \<and>
        attempts_of p' SecretController (''ns'', ''app'') = 1) proc0"
  by (rule wp_mono [OF rate_limited_reveal_postpones [OF cluster_reads cluster_draws]])
    (auto simp: api_status_simps proc0_def attempts_of_def)

lemma every_pass_is_reported_witness:
  "wp (Secret_Reconcile E0 r0 None (''ns'', ''app''))
     (\<lambda>_ p'. \<exists>d label calls. p_metrics p' = Observe SyncDuration label d # calls \<and> list_all (\<lambda>m. \<not> observes m) calls) proc0"
  by (rule wp_mono [OF every_pass_is_reported]) (auto simp: proc0_def)

text \<open>An API server whose update takes effect while its answer is lost.\<close>

definition answer_lost :: "cluster env" where
  "answer_lost = E0\<lparr>e_create_or_update := \<lambda>_ s f. State_Monad.bind (create_or_update s f)
     (\<lambda>_. ret (Inl (Foreign ''context deadline exceeded'')))\<rparr>"

lemma answer_lost_laws: "upserts cl_secrets answer_lost" "owner_only answer_lost"
proof -
  have "wp (e_create_or_update E0 ctx s f) Q w = wp (create_or_update s f) Q w" for ctx s f Q w
    by (simp add: cluster_env_def)
  note applied = cluster_upserts [of pf0 no_http "''jwt''", unfolded upserts_def Let_def this, rule_format]
  show "upserts cl_secrets answer_lost"
    unfolding upserts_def Let_def answer_lost_def
    by (intro allI) (simp add: wp_bind, rule wp_mono [OF applied], auto simp: wp_return split: sum.splits)
  show "owner_only answer_lost"
    using cluster_owner_only [of pf0 no_http "''jwt''"] by (simp add: owner_only_def answer_lost_def)
qed

lemma target_written_exactly_witness:
  "wp (ensureTargetSecret E0 None cr0 [(''k'', ''v'')] ''h'' True) (\<lambda>r p'.
     case r of
       Inl _ \<Rightarrow> True
     | Inr _ \<Rightarrow> \<exists>t. cl_secrets (p_world p') = [(''ns'', ''app'') \<mapsto> t] \<and> map_of (sec_Data t) ''k'' = Some ''v'') proc0 \<and>
   wp (ensureTargetSecret answer_lost None cr0 [(''k'', ''v'')] ''h'' True) (\<lambda>_ p'.
     cl_secrets (p_world p') = (\<lambda>_. None) \<or>
     (\<exists>t. cl_secrets (p_world p') = [(''ns'', ''app'') \<mapsto> t] \<and> map_of (sec_Data t) ''k'' = Some ''v'')) proc0"
proof -
  have data: "wf_map [(''k'', ''v'')]" by (simp add: wf_map_def)
  show ?thesis
    by (intro conjI; rule wp_mono [OF target_written_exactly], rule cluster_upserts cluster_owner_only answer_lost_laws,
        rule cluster_owner_only answer_lost_laws, rule data)
      (auto simp: proc0_def cluster0_def target_key_def targetName_def cr_simps same_map_def split: sum.splits)
qed

lemma synced_status_is_honest_witness:
  "wp (synced_status E0 cr0 token_secret [''k''] [''m''] None) (\<lambda>cr' _.
     \<exists>c. find_condition ''Ready'' (sst_Conditions (fs_Status cr')) = Some c \<and> c_status c = ConditionFalse) proc0"
  by (rule wp_mono [OF synced_status_is_honest [OF cluster_removes]]) auto

subsection \<open>Restarts\<close>

definition cr_rolling :: "string \<Rightarrow> fvsecret" where
  "cr_rolling rec = cr0\<lparr>fs_Spec := (fs_Spec cr0)\<lparr>ss_RolloutRestart :=
       [\<lparr>wr_Kind = ''Deployment'', wr_Name = ''web''\<rparr>, \<lparr>wr_Kind = ''Deployment'', wr_Name = ''gone''\<rparr>]\<rparr>,
     fs_Status := (fs_Status cr0)\<lparr>sst_LastRolloutHash := rec\<rparr>\<rparr>"

definition web :: workload where
  "web = \<lparr>wl_meta = meta0 ''web'', wl_templateAnnotations = None\<rparr>"

definition rolling_cluster :: cluster where
  "rolling_cluster = cluster0\<lparr>cl_workloads := [(KDeployment, (''ns'', ''web'')) \<mapsto> web]\<rparr>"

lemmas rolling_simps = cr_rolling_def rolling_cluster_def web_def cr0_def meta0_def cluster0_def

lemma failed_rollout_is_retried_witness:
  "rolloutDue (sst_LastRolloutHash (fs_Status (cr_rolling ''old''))) ''new'' ''new''"
proof -
  let ?p = "proc0\<lparr>p_world := rolling_cluster\<rparr>"
  have echo: "\<forall>ctx x w. \<forall>y w'. run_state (e_status_secret_cr E0 ctx x) w = (Inr y, w') \<longrightarrow>
      sst_LastRolloutHash (fs_Status y) = sst_LastRolloutHash (fs_Status x) \<and>
      ss_RolloutRestart (fs_Spec y) = ss_RolloutRestart (fs_Spec x)"
    by (auto simp: world0)
  obtain cr1 p1 where rec: "run_state (recordPendingRollout E0 None (cr_rolling []) ''old'' ''new'') ?p = (Inr cr1, p1)"
      "cr1 = cr_rolling ''old''"
    by (simp add: recordPendingRollout_def rolling_simps rolloutDue_def run_in_world world0 set_status_def)
  obtain e p3 where "run_state (rolloutIfDue E0 None cr1 ''old'' ''new'') ?p = ((Some e, cr1), p3)"
    unfolding rec(2)
    by (simp add: rolloutIfDue_def triggerRollouts_def rollout_one_def workload_kind_of_def patchPodTemplate_def
        run_in_world rolling_simps rolloutDue_def world0 lookup_str_def Let_def)
  from failed_rollout_is_retried [OF echo rec(1) this] show ?thesis by (simp only: rec(2))
qed

lemma reverted_content_misses_restart_witness:
  "\<exists>p1. run_state (rolloutIfDue E0 None (cr_rolling ''n'') ''n'' ''m'') (proc0\<lparr>p_world := rolling_cluster\<rparr>) =
       ((Some missing_error, cr_rolling ''n''), p1) \<and>
     run_state (rolloutIfDue E0 None (cr_rolling ''n'') ''m'' ''n'') p1 = ((None, cr_rolling ''n''), p1)"
proof -
  let ?p = "proc0\<lparr>p_world := rolling_cluster\<rparr>"
  let ?w3 = "\<lambda>x. rolling_cluster\<lparr>cl_workloads := (cl_workloads rolling_cluster)
      ((KDeployment, (om_namespace (wl_meta x), om_name (wl_meta x))) \<mapsto> x)\<rparr>"
  show ?thesis
    using reverted_content_misses_restart [of "cr_rolling ''n''" "''web''" "''gone''" "''n''" "''m''" E0 ?p 0
        rolling_cluster None web rolling_cluster ?w3 missing_error]
    by (auto simp: world0 rolling_simps proc0_def lookup_str_def)
qed

section \<open>A pass of the connection reconciler\<close>

lemma deletion_waits_for_dependants_witness:
  "wp (handleDelete E0 None conn0) (\<lambda>outcome p'. cl_secrets (p_world p') = cl_secrets cluster0 \<and>
     (\<exists>c w. p_world p' = snd (run_state (e_status_connection E0 None c) w) \<and> cn_meta c = cn_meta conn0)) proc0"
proof -
  have listed: "run_state (e_list_secret_crs E0 None (dependants_of conn0)) (p_world proc0) = (Inr [cr0], cluster0)"
    by (simp add: world0 proc0_def cluster0_def selected_def dependants_of_def conn0_def cr0_def meta0_def cr_index_def
        fvSecretConnectionRefIndexKey_def)
  show ?thesis
    by (rule wp_mono [OF deletion_waits_for_dependants [OF cluster_reads_secrets cluster_status_secrets listed]])
      (auto simp: proc0_def)
qed

definition limited_reconciler :: "cluster connection_reconciler" where
  "limited_reconciler = \<lparr>cr_Broker = Some \<lparr>br_ReadToken = (\<lambda>_. ret (Inr ''jwt'')),
     br_Exchange = (\<lambda>_ _ _ _. ret (Inl (APIError 429 [] 1)))\<rparr>, cr_Heartbeat = True\<rparr>"


lemma probe_ignores_body_witness:
  "wp (Probe (cluster_env pf0 (\<lambda>_. answer 200 ''down'') []) client0 None) (\<lambda>err _. err = None) cluster0"
  by (rule wp_mono [OF probe_ignores_body [OF cluster_answers, where resp = "\<lparr>rs_StatusCode = 200, rs_Body = Inr ''down''\<rparr>"
        and body = "''down''"]])
    (use targets_parse in \<open>auto simp: answer_def cluster0_def cluster_env_def\<close>)

text \<open>A connection whose token is in its Secret, and a server that answers 404.\<close>

lemma connection_verdict_is_honest_witness:
  "wp (connection_probe (cluster_env pf0 (\<lambda>_. answer 404 []) []) \<lparr>cr_Broker = None, cr_Heartbeat = True\<rparr> None (''ns'', ''conn'') conn0)
     (\<lambda>outcome p'. outcome = requeue (10 * minute) \<and> (\<exists>calls. p_metrics p' = SetGauge ConnectionReady ''ns'' ''conn'' 0 # calls))
     (proc_with_secret (''ns'', ''token'') token_secret)"
proof -
  let ?E = "cluster_env pf0 (\<lambda>_. answer 404 []) []" and ?r = "\<lparr>cr_Broker = None, cr_Heartbeat = True\<rparr> :: cluster connection_reconciler"
  let ?p = "proc_with_secret (''ns'', ''token'') token_secret"
  have trim: "TrimSpace '' tok '' = ''tok''" by code_simp
  obtain p1 where tok: "run_state (with_broker (cr_Broker ?r) ?E (\<lambda>b. TokenFor ?E b None conn0)) ?p = (Inr ''tok'', p1)"
    by (simp add: with_broker_def TokenFor_def loadFromSecret_def run_in_world proc_with_secret_def token_secret_def
        conn0_def meta0_def world0 trim Let_def)
  have pf: "e_pf ?E = pf0" "cs_URL (cn_Spec conn0) = ''https://vault''" by (simp_all add: cluster_env_def conn0_def)
  have url: "case New pf0 ''https://vault'' ''tok'' [] of Inl _ \<Rightarrow> False
      | Inr c \<Rightarrow> url_Parse pf0 (url_String (endpoint c ''/healthz'')) \<noteq> None"
    by code_simp
  then have found: "verdict ?E conn0 (Inr ''tok'') 404 = (ConditionFalse, ''Unreachable'')"
    by (simp add: verdict_def pf split: sum.splits)
  have said: "case Inr ''tok'' of Inl e \<Rightarrow> \<not> IsRateLimited (Some e)
      | Inr token \<Rightarrow> \<forall>c. New (e_pf ?E) (cs_URL (cn_Spec conn0)) token [] = Inr c \<longrightarrow>
          url_Parse (e_pf ?E) (url_String (endpoint c ''/healthz'')) \<noteq> None \<and>
          answer 404 [] = Inr \<lparr>rs_StatusCode = 404, rs_Body = Inr []\<rparr> \<and>
          rs_Body \<lparr>rs_StatusCode = 404, rs_Body = Inr []\<rparr> = Inr ([] :: string) \<and>
          \<not> (500 \<le> rs_StatusCode \<lparr>rs_StatusCode = 404, rs_Body = Inr []\<rparr> \<and>
             rs_StatusCode \<lparr>rs_StatusCode = 404, rs_Body = Inr []\<rparr> \<le> 599) \<and>
          rs_StatusCode \<lparr>rs_StatusCode = 404, rs_Body = Inr []\<rparr> \<noteq> 429"
    using url unfolding sum.case pf by (auto simp: answer_def split: sum.splits)
  have served: "\<forall>d. api_answers ?E d cl_requests (\<lambda>_. answer 404 [])" "keeps cl_requests (e_now ?E)"
    by (intro allI cluster_answers) (simp add: keeps_def world0)
  have kept: "run_state (e_status_connection ?E None c) w =
      (Inr c, w\<lparr>cl_conns := put_alist (cn_Namespace c, cn_Name c) c (cl_conns w)\<rparr>)" for c w
    by (simp add: world0)
  have name: "cn_Namespace c = ''ns''" "cn_Name c = ''conn''" if "cn_meta c = cn_meta conn0" for c
    using that by (simp_all add: conn0_def meta0_def)
  show ?thesis
    by (rule wp_mono [OF connection_verdict_is_honest [OF tok said served]]) (auto simp: found kept name)
qed

lemma token_rotation_reaches_dependants_witness:
  "wp (secretsReferencingTokenSecret E0 None (meta0 ''token'')) (\<lambda>reqs _. (''ns'', ''app'') \<in> set reqs) cluster0"
  by (rule wp_mono [OF token_rotation_reaches_dependants [OF cluster_lists]])
    (auto simp: cluster0_def conn0_def cr0_def meta0_def)

section \<open>Deep copies\<close>

definition transform_at :: "addr \<Rightarrow> transform_obj" where
  "transform_at a = zero_transform\<lparr>xt_Type := ''base64Decode'', xt_Keys := Some a\<rparr>"

text \<open>A secret at 0, its names at 1, its transforms at 2, their keys at 3, the time of its last sync at 4.\<close>

definition secret_at :: "objmeta secret_obj" where
  "secret_at = \<lparr>xv_TypeMeta = (''FerrVaultSecret'', ''v1alpha1''), xv_ObjectMeta = meta0 ''app'',
     xv_Spec = \<lparr>xs_ConnectionRef = ''conn'', xs_Project = [], xs_Vault = ''vault'', xs_SelectorNames = Some 1,
       xs_Target = \<lparr>st_Name = [], st_Type = []\<rparr>, xs_RefreshInterval = [], xs_RolloutRestart = None, xs_Transforms = Some 2\<rparr>,
     xv_Status = \<lparr>xss_Conditions = None, xss_LastSyncedAt = Some 4, xss_LastRolloutHash = [], xss_SyncedKeys = Some 1,
       xss_MissingKeys = None, xss_ObservedGeneration = 1\<rparr>\<rparr>"

text \<open>A list of connections at 5, its items at 6, their token reference at 7.\<close>

definition connection_at :: "objmeta connection_obj" where
  "connection_at = \<lparr>xo_TypeMeta = (''FerrVaultConnection'', ''v1alpha1''), xo_ObjectMeta = meta0 ''conn'',
     xo_Spec = \<lparr>xc_Mode = [], xc_URL = ''https://vault'', xc_Organization = [], xc_TokenSecretRef = Some 7, xc_OIDC = None\<rparr>,
     xo_Status = \<lparr>xcs_Conditions = None, xcs_LastCheckedAt = Some 4\<rparr>\<rparr>"

definition mem0 :: "(unit, objmeta, unit) mem" where
  "mem0 = \<lparr>next_addr = 8, m_keyref = (\<lambda>_. \<lparr>skr_Name = ''token'', skr_Key = ''t''\<rparr>),
     m_oidc = (\<lambda>_. \<lparr>oa_ClusterID = [], oa_TokenPath = [], oa_Audience = []\<rparr>), m_time = (\<lambda>_. 12), m_conditions = (\<lambda>_. []),
     m_strings = (\<lambda>_. [''k'']), m_workloads = (\<lambda>_. []), m_transforms = (\<lambda>_. [transform_at 3]),
     m_connection = (\<lambda>_. connection_at), m_connections = (\<lambda>_. [connection_at]), m_secret = (\<lambda>_. secret_at),
     m_secrets = (\<lambda>_. []), m_list = (\<lambda>_. \<lparr>xl_TypeMeta = ([], []), xl_ListMeta = (), xl_Items = Some 6\<rparr>), m_lib = (\<lambda>_. ())\<rparr>"

lemma secret_deep_copy_apart_witness:
  "\<exists>q t. run_state (FerrVaultSecret_DeepCopy flat_library secret_at (Some 0)) mem0 = (q, t) \<and>
     object_val m_secret (secret_val (\<lambda>_ m. m)) t q = object_val m_secret (secret_val (\<lambda>_ m. m)) mem0 (Some 0)"
proof -
  obtain q t where run: "run_state (FerrVaultSecret_DeepCopy flat_library secret_at (Some 0)) mem0 = (q, t)" by fastforce
  have "object_refs m_secret (secret_refs (\<lambda>_ _. {})) mem0 (Some 0) \<subseteq> used mem0"
    by (simp add: object_refs_def secret_refs_def secret_spec_refs_def secret_status_refs_def transform_refs_def
        mem0_def secret_at_def transform_at_def)
  from secret_deep_copy_apart [OF flat.api_library_axioms this run] run show ?thesis by blast
qed

lemma connection_list_deep_copy_apart_witness:
  "\<exists>q t. run_state (FerrVaultConnectionList_DeepCopy flat_library connection_at \<lparr>xl_TypeMeta = ([], []), xl_ListMeta = (),
       xl_Items = None\<rparr> (Some 5)) mem0 = (q, t) \<and>
     object_val m_list (list_val (\<lambda>_ m. m) m_connections (connection_val (\<lambda>_ m. m))) t q =
       object_val m_list (list_val (\<lambda>_ m. m) m_connections (connection_val (\<lambda>_ m. m))) mem0 (Some 5)"
proof -
  obtain q t where run: "run_state (FerrVaultConnectionList_DeepCopy flat_library connection_at
      \<lparr>xl_TypeMeta = ([], []), xl_ListMeta = (), xl_Items = None\<rparr> (Some 5)) mem0 = (q, t)" by fastforce
  have "object_refs m_list (list_refs (\<lambda>_ _. {}) m_connections (connection_refs (\<lambda>_ _. {}))) mem0 (Some 5) \<subseteq> used mem0"
    by (simp add: object_refs_def list_refs_def connection_refs_def connection_spec_refs_def connection_status_refs_def
        mem0_def connection_at_def)
  from connection_list_deep_copy_apart [OF flat.api_library_axioms this run] run show ?thesis by blast
qed

end
