(* ===== verification/Pass_Contract.thy ===== *)
theory Pass_Contract
  imports Connection_Facts
begin

text \<open>
  What a whole pass of either reconciler preserves.  A contract names an invariant \<open>I\<close> of the
  world and what holds of a resource in the hands of a pass (\<open>okS\<close>, \<open>okC\<close>, by namespace); the
  laws ask that reads keep \<open>I\<close> and hand out good resources, that writing a good resource keeps
  \<open>I\<close>, and that the edits the code makes to a resource keep it good.  Under the laws every
  pass, taken whole, keeps \<open>I\<close>.
\<close>

section \<open>The laws\<close>

definition answers :: "('a \<Rightarrow> bool) \<Rightarrow> goerror + 'a \<Rightarrow> bool" where
  "answers P r = (case r of Inl _ \<Rightarrow> True | Inr x \<Rightarrow> P x)"

lemma answers_simps [simp]: "answers P (Inl e)" "answers P (Inr x) = P x"
  by (simp_all add: answers_def)

lemma answers_mono: "answers P r \<Longrightarrow> (\<And>x. P x \<Longrightarrow> Q x) \<Longrightarrow> answers Q r"
  by (cases r) simp_all

text \<open>
  The conditions the code writes: one of two types, and a reason the resource definition
  accepts, a word of letters.
\<close>

definition reason_ok :: "string \<Rightarrow> bool" where
  "reason_ok s = (s \<noteq> [] \<and> list_all (\<lambda>c. CHR ''A'' \<le> c \<and> c \<le> CHR ''Z'' \<or> CHR ''a'' \<le> c \<and> c \<le> CHR ''z'') s)"

definition condition_ok :: "condition \<Rightarrow> bool" where
  "condition_ok c = (c_type c \<in> {''Ready'', conditionRolloutRestarted} \<and> reason_ok (c_reason c))"

definition world_laws ::
  "'w env \<Rightarrow> ('w \<Rightarrow> bool) \<Rightarrow> (string \<Rightarrow> fvsecret \<Rightarrow> bool) \<Rightarrow> (string \<Rightarrow> connection \<Rightarrow> bool) \<Rightarrow> bool" where
  "world_laws E I okS okC \<longleftrightarrow>
     reads_keep I E \<and> workload_writes_keep I E \<and>
     (\<forall>ctx ns n. guarantees I (e_get_secret_cr E ctx (ns, n)) (answers (okS ns))) \<and>
     (\<forall>ctx ns n. guarantees I (e_get_connection E ctx (ns, n)) (answers (okC ns))) \<and>
     (\<forall>ctx ns cr. okS ns cr \<longrightarrow>
        guarantees I (e_update_secret_cr E ctx cr) (answers (okS ns)) \<and>
        guarantees I (e_status_secret_cr E ctx cr) (answers (\<lambda>y. okS ns y \<and> targetName y = targetName cr))) \<and>
     (\<forall>ctx ns c. okC ns c \<longrightarrow>
        guarantees I (e_update_connection E ctx c) (answers (okC ns)) \<and>
        guarantees I (e_status_connection E ctx c) (answers (okC ns)))"

text \<open>The edits of a pass to a FerrVaultSecret and to a FerrVaultConnection.\<close>

definition secret_edits :: "'w env \<Rightarrow> (string \<Rightarrow> fvsecret \<Rightarrow> bool) \<Rightarrow> bool" where
  "secret_edits E okS \<longleftrightarrow> (\<forall>ns cr. okS ns cr \<longrightarrow>
     okS ns (set_cr_meta cr (fst (e_AddFinalizer E (fs_meta cr) fvSecretFinalizer))) \<and>
     okS ns (set_cr_meta cr (fst (e_RemoveFinalizer E (fs_meta cr) fvSecretFinalizer))) \<and>
     (\<forall>h. okS ns (set_status (sst_LastRolloutHash_update (\<lambda>_. h)) cr)) \<and>
     (\<forall>c. condition_ok c \<longrightarrow>
        okS ns (set_status (sst_Conditions_update (\<lambda>_. upsert_condition c (sst_Conditions (fs_Status cr)))) cr)) \<and>
     okS ns (set_status (\<lambda>s. s\<lparr>sst_Conditions :=
       e_RemoveStatusCondition E (sst_Conditions s) conditionRolloutRestarted\<rparr>) cr) \<and>
     (\<forall>missing. sorted missing \<longrightarrow>
        okS ns (set_status (\<lambda>s. s\<lparr>sst_MissingKeys := missing, sst_ObservedGeneration := om_generation (fs_meta cr)\<rparr>) cr) \<and>
        (\<forall>now keys. sorted keys \<and> distinct keys \<longrightarrow>
           okS ns (set_status (\<lambda>s. s\<lparr>sst_LastSyncedAt := Some now, sst_SyncedKeys := keys,
             sst_MissingKeys := missing, sst_ObservedGeneration := om_generation (fs_meta cr)\<rparr>) cr))))"

definition connection_edits :: "'w env \<Rightarrow> (string \<Rightarrow> connection \<Rightarrow> bool) \<Rightarrow> bool" where
  "connection_edits E okC \<longleftrightarrow> (\<forall>ns c. okC ns c \<longrightarrow>
     okC ns (set_cn_meta c (fst (e_AddFinalizer E (cn_meta c) fvConnectionFinalizer))) \<and>
     okC ns (set_cn_meta c (fst (e_RemoveFinalizer E (cn_meta c) fvConnectionFinalizer))) \<and>
     (\<forall>d now. condition_ok d \<longrightarrow>
        okC ns (c\<lparr>cn_Status := \<lparr>cst_Conditions = upsert_condition d (cst_Conditions (cn_Status c)),
          cst_LastCheckedAt = Some now\<rparr>\<rparr>)))"

text \<open>The one write to a Secret a pass makes, for its own connection.\<close>

definition target_law ::
  "'w env \<Rightarrow> ('w \<Rightarrow> bool) \<Rightarrow> (string \<Rightarrow> fvsecret \<Rightarrow> bool) \<Rightarrow> (string \<Rightarrow> connection \<Rightarrow> bool) \<Rightarrow> bool" where
  "target_law E I okS okC \<longleftrightarrow> (\<forall>ctx ns cr conn data hash. okS ns cr \<longrightarrow> okC ns conn \<longrightarrow>
     maintains (\<lambda>p. I (p_world p))
       (ensureTargetSecret E ctx cr data hash (\<not> snd (connectionTokenKey conn cr))))"

definition pass_laws ::
  "'w env \<Rightarrow> ('w \<Rightarrow> bool) \<Rightarrow> (string \<Rightarrow> fvsecret \<Rightarrow> bool) \<Rightarrow> (string \<Rightarrow> connection \<Rightarrow> bool) \<Rightarrow> bool" where
  "pass_laws E I okS okC \<longleftrightarrow>
     world_laws E I okS okC \<and> secret_edits E okS \<and> connection_edits E okC \<and> target_law E I okS okC"

lemma pass_lawsD:
  assumes "pass_laws E I okS okC"
  shows "reads_keep I E" "workload_writes_keep I E"
    "guarantees I (e_get_secret_cr E ctx k) (answers (okS (fst k)))"
    "guarantees I (e_get_connection E ctx (ns, n)) (answers (okC ns))"
    "okS ns cr \<Longrightarrow> guarantees I (e_update_secret_cr E ctx cr) (answers (okS ns))"
    "okS ns cr \<Longrightarrow> guarantees I (e_status_secret_cr E ctx cr) (answers (\<lambda>y. okS ns y \<and> targetName y = targetName cr))"
    "okC ns c \<Longrightarrow> guarantees I (e_update_connection E ctx c) (answers (okC ns))"
    "okC ns c \<Longrightarrow> guarantees I (e_status_connection E ctx c) (answers (okC ns))"
    "okS ns cr \<Longrightarrow> okC ns c \<Longrightarrow> maintains (\<lambda>p. I (p_world p))
       (ensureTargetSecret E ctx cr data hash (\<not> snd (connectionTokenKey c cr)))"
  using assms by (cases k; simp add: pass_laws_def world_laws_def target_law_def)+

lemma pass_edits:
  assumes "pass_laws E I okS okC"
  shows "okS ns cr \<Longrightarrow> okS ns (set_cr_meta cr (fst (e_AddFinalizer E (fs_meta cr) fvSecretFinalizer)))"
    "okS ns cr \<Longrightarrow> okS ns (set_cr_meta cr (fst (e_RemoveFinalizer E (fs_meta cr) fvSecretFinalizer)))"
    "okS ns cr \<Longrightarrow> okS ns (set_status (sst_LastRolloutHash_update (\<lambda>_. h)) cr)"
    "okS ns cr \<Longrightarrow> condition_ok d \<Longrightarrow>
      okS ns (set_status (sst_Conditions_update (\<lambda>_. upsert_condition d (sst_Conditions (fs_Status cr)))) cr)"
    "okS ns cr \<Longrightarrow> okS ns (set_status (\<lambda>s. s\<lparr>sst_Conditions :=
       e_RemoveStatusCondition E (sst_Conditions s) conditionRolloutRestarted\<rparr>) cr)"
    "okS ns cr \<Longrightarrow> sorted missing \<Longrightarrow> okS ns (set_status (\<lambda>s. s\<lparr>sst_MissingKeys := missing,
       sst_ObservedGeneration := om_generation (fs_meta cr)\<rparr>) cr)"
    "okS ns cr \<Longrightarrow> sorted missing \<Longrightarrow> sorted keys \<Longrightarrow> distinct keys \<Longrightarrow>
      okS ns (set_status (\<lambda>s. s\<lparr>sst_LastSyncedAt := Some now, sst_SyncedKeys := keys,
        sst_MissingKeys := missing, sst_ObservedGeneration := om_generation (fs_meta cr)\<rparr>) cr)"
    "okC ns c \<Longrightarrow> okC ns (set_cn_meta c (fst (e_AddFinalizer E (cn_meta c) fvConnectionFinalizer)))"
    "okC ns c \<Longrightarrow> okC ns (set_cn_meta c (fst (e_RemoveFinalizer E (cn_meta c) fvConnectionFinalizer)))"
    "okC ns c \<Longrightarrow> condition_ok d \<Longrightarrow>
      okC ns (c\<lparr>cn_Status := \<lparr>cst_Conditions = upsert_condition d (cst_Conditions (cn_Status c)),
        cst_LastCheckedAt = Some now\<rparr>\<rparr>)"
  using assms unfolding pass_laws_def secret_edits_def connection_edits_def by simp_all

section \<open>The parts of a pass\<close>

lemma token_key_cong: "targetName y = targetName cr \<Longrightarrow> connectionTokenKey conn y = connectionTokenKey conn cr"
  by (simp add: connectionTokenKey_def split: option.split)

lemma reasons_ok:
  "reason_ok ''Ready''" "reason_ok ''AuthFailed''" "reason_ok ''VaultNotFound''" "reason_ok ''Unreachable''"
  "reason_ok ''TransformError''" "reason_ok ''TokenKeyMissing''" "reason_ok ''SecretReadFailed''"
  "reason_ok ''MissingKeys''" "reason_ok ''TargetConflict''" "reason_ok ''SecretWriteFailed''"
  "reason_ok ''ConnectionNotFound''" "reason_ok ''TokenUnreadable''" "reason_ok ''InvalidConnection''"
  "reason_ok ''MissingCloudScope''" "reason_ok ''Synced''" "reason_ok ''UpToDate''" "reason_ok ''RolloutFailed''"
  "reason_ok ''DeletionBlocked''" "reason_ok ''Reachable''"
  by code_simp+

text \<open>The operations that leave the world's invariant alone.\<close>

lemma maintains_world: "keeps (\<lambda>p. I (p_world p)) m \<Longrightarrow> maintains (\<lambda>p. I (p_world p)) m"
  by (erule guarantees_keeps) (rule refl)

lemma setCondition_result:
  assumes "keeps I (e_now E)"
  shows "guarantees (\<lambda>p. I (p_world p)) (setCondition E conds c)
    (\<lambda>cs. \<exists>n. cs = upsert_condition (c\<lparr>c_lastTransitionTime := n\<rparr>) conds)"
  using assms by (intro guaranteesI) (auto simp: setCondition_def run_in_world dest: keepsD split: prod.splits)

lemma new_condition_ok: "ty \<in> {''Ready'', conditionRolloutRestarted} \<Longrightarrow> reason_ok reason \<Longrightarrow>
    condition_ok ((new_condition ty st reason msg)\<lparr>c_lastTransitionTime := n\<rparr>)"
  by (simp add: condition_ok_def new_condition_def)

lemma set_cr_condition_ok:
  assumes "pass_laws E I okS okC" "okS ns cr" "ty \<in> {''Ready'', conditionRolloutRestarted}" "reason_ok reason"
  shows "guarantees (\<lambda>p. I (p_world p)) (set_cr_condition E cr (new_condition ty st reason msg))
    (\<lambda>y. okS ns y \<and> targetName y = targetName cr)"
  unfolding set_cr_condition_def
proof (rule guarantees_bind_first [OF setCondition_result [OF reads_keepD(1) [OF pass_lawsD(1) [OF assms(1)]]]])
  fix cs assume "\<exists>n. cs = upsert_condition ((new_condition ty st reason msg)\<lparr>c_lastTransitionTime := n\<rparr>)
      (sst_Conditions (fs_Status cr))"
  then obtain n where cs: "cs = upsert_condition ((new_condition ty st reason msg)\<lparr>c_lastTransitionTime := n\<rparr>)
      (sst_Conditions (fs_Status cr))" ..
  show "guarantees (\<lambda>p. I (p_world p)) (ret (set_status (sst_Conditions_update (\<lambda>_. cs)) cr))
    (\<lambda>y. okS ns y \<and> targetName y = targetName cr)"
    unfolding cs
    by (intro guarantees_return conjI pass_edits(4) [OF assms(1,2)] new_condition_ok assms(3,4))
      (simp add: targetName_def set_status_def)
qed

lemma failReady_ok:
  assumes "pass_laws E I okS okC" "okS ns cr" "reason_ok reason"
  shows "maintains (\<lambda>p. I (p_world p)) (failReadyWithRequeue E ctx cr reason message after)"
    "maintains (\<lambda>p. I (p_world p)) (failReady E r ctx cr reason message)"
proof -
  have status: "okS ns y \<Longrightarrow> maintains (\<lambda>p. I (p_world p)) (in_world (e_status_secret_cr E ctx y))" for y
    by (rule guarantees_True [OF guarantees_in_world [OF pass_lawsD(6) [OF assms(1)]]])
  show *: "maintains (\<lambda>p. I (p_world p)) (failReadyWithRequeue E ctx cr reason message after)" for after
    unfolding failReadyWithRequeue_def
    by (intro guarantees_bind maintains_world keeps_metric_calls
        guarantees_bind_first [OF set_cr_condition_ok [OF assms(1,2) _ assms(3)]] guarantees_return status TrueI)
      simp_all
  show "maintains (\<lambda>p. I (p_world p)) (failReady E r ctx cr reason message)"
    unfolding failReady_def by (rule *)
qed

lemma failed_ok: "maintains J m \<Longrightarrow> maintains J (failed m)"
  by (intro guarantees_bind guarantees_return TrueI)

section \<open>A pass over a FerrVaultSecret\<close>

lemma keeps_rollouts:
  assumes "reads_keep obs E" "workload_writes_keep obs E"
  shows "keeps (\<lambda>p. obs (p_world p)) (triggerRollouts E ctx cr h)"
proof -
  have one: "keeps (\<lambda>p. obs (p_world p)) (rollout_one E ctx cr now h w)" for now w
    unfolding rollout_one_def patchPodTemplate_def Let_def
    by (intro keeps_intros reads_keepD [OF assms(1)] writes_keepD(5) [OF assms(2)])
  have "keeps (\<lambda>p. obs (p_world p)) (rollout_loop E ctx cr now h e ws)" for now e ws
    by (induction ws arbitrary: e) (simp_all add: keeps_return keeps_bind one)
  then show ?thesis
    unfolding triggerRollouts_def by (intro keeps_bind keeps_in_world reads_keepD(1) [OF assms(1)])
qed

lemma rolloutIfDue_ok:
  assumes "pass_laws E I okS okC" "okS ns cr"
  shows "guarantees (\<lambda>p. I (p_world p)) (rolloutIfDue E ctx cr previous current) (\<lambda>(_, y). okS ns y)"
proof -
  note edits = pass_edits(3) [OF assms]
  have "maintains (\<lambda>p. I (p_world p)) (triggerRollouts E ctx cr current)"
    by (intro maintains_world keeps_rollouts pass_lawsD(1,2) [OF assms(1)])
  then show ?thesis
    unfolding rolloutIfDue_def
    by (intro guarantees_if guarantees_bind guarantees_return) (auto simp: edits assms(2) split: option.splits)
qed

lemma synced_status_ok:
  assumes "pass_laws E I okS okC" "okS ns cr" "sorted keys" "distinct keys" "sorted missing"
  shows "guarantees (\<lambda>p. I (p_world p)) (synced_status E cr secret keys missing rolloutErr) (okS ns)"
proof -
  note now = maintains_world [OF keeps_in_world [OF reads_keepD(1) [OF pass_lawsD(1) [OF assms(1)]]]]
  note cond = set_cr_condition_ok [OF assms(1) _ _ reasons_ok(15), THEN guarantees_mono]
    set_cr_condition_ok [OF assms(1) _ _ reasons_ok(8), THEN guarantees_mono]
    set_cr_condition_ok [OF assms(1) _ _ reasons_ok(16), THEN guarantees_mono]
    set_cr_condition_ok [OF assms(1) _ _ reasons_ok(17), THEN guarantees_mono]
  have roll: "guarantees (\<lambda>p. I (p_world p)) (setRolloutCondition E y rolloutErr) (okS ns)" if "okS ns y" for y
    unfolding setRolloutCondition_def
    by (cases rolloutErr) (auto intro!: guarantees_return pass_edits(5) [OF assms(1) that] cond that)
  have ready: "guarantees (\<lambda>p. I (p_world p)) (set_cr_condition E y
      (if missing \<noteq> [] then new_condition ''Ready'' ConditionFalse ''MissingKeys'' m1
       else new_condition ''Ready'' ConditionTrue ''Synced'' m2)) (okS ns)" if "okS ns y" for y m1 m2
    by (cases "missing = []") (auto intro!: cond that)
  show ?thesis
    unfolding synced_status_def
    by (rule guarantees_bind [OF now], rule guarantees_bind_first [where R = "okS ns"], rule guarantees_return,
        rule pass_edits(7) [OF assms(1,2,5,3,4)], rule guarantees_bind_first [OF ready], assumption, rule roll)
qed

lemma wf_ApplyTransforms: "ApplyTransforms pf m ts = (n, r) \<Longrightarrow> wf_map n"
  using pipeline.loop_outcome [OF wf_copy_map wf_copy_map, of m m] unfolding ApplyTransforms_def
  by (cases "apply_loop (applyOne (pf\<lparr>pf_map_rank := \<lambda>_. 0\<rparr>)) 0 (copy_map m) ts") (simp add: same_map_def)

lemma secret_write_ok:
  assumes "pass_laws E I okS okC" "okS ns cr" "okC ns conn" "wf_map data"
    and "tt = snd (connectionTokenKey conn cr)"
  shows "maintains (\<lambda>p. I (p_world p)) (secret_write E r ctx cr tt rv data)"
proof -
  note reads = pass_lawsD(1) [OF assms(1)]
  have recorded: "guarantees (\<lambda>p. I (p_world p)) (recordPendingRollout E ctx cr previous h)
      (answers (\<lambda>y. okS ns y \<and> targetName y = targetName cr))" for previous h
    unfolding recordPendingRollout_def
    by (intro guarantees_if guarantees_return guarantees_bind_first
        [OF guarantees_in_world [OF pass_lawsD(6) [OF assms(1) pass_edits(3) [OF assms(1,2)]]]])
      (auto simp: assms(2) answers_def targetName_def set_status_def split: sum.splits)
  have finish: "maintains (\<lambda>p. I (p_world p)) (secret_finish E r ctx y rv data previous h s)" if "okS ns y" for y previous h s
    unfolding secret_finish_def Let_def
  proof (rule guarantees_bind_first [OF rolloutIfDue_ok [OF assms(1) that]], clarify, goal_cases)
    case (1 e z)
    have keys: "sorted (sort (mkeys data))" "distinct (sort (mkeys data))"
      using assms(4) by (simp_all only: sorted_sort distinct_sort wf_map_def)
    show ?case
      by (rule guarantees_bind_first [OF synced_status_ok [OF assms(1) 1 keys sorted_sort]],
          rule guarantees_bind [OF guarantees_True [OF guarantees_in_world [OF pass_lawsD(6) [OF assms(1)]]]],
          assumption)
        (intro guarantees_case_sum guarantees_case_option guarantees_if guarantees_bind guarantees_return
          maintains_world keeps_metric_calls TrueI)
  qed
  have ensure: "maintains (\<lambda>p. I (p_world p)) (ensureTargetSecret E ctx y data h (\<not> tt))"
    if "okS ns y" "targetName y = targetName cr" for y h
    using pass_lawsD(9) [OF assms(1) that(1) assms(3)] by (simp only: assms(5) token_key_cong [OF that(2)])
  show ?thesis
    unfolding secret_write_def Let_def
  proof (rule guarantees_bind [OF maintains_world [OF keeps_target_reads(2) [OF reads]]], rule guarantees_case_sum,
      intro failed_ok failReady_ok [OF assms(1,2)] reasons_ok, rule guarantees_bind_first [OF recorded], goal_cases)
    case (1 got previous recorded)
    show ?case
    proof (cases recorded)
      case (Inr y)
      with 1 have y: "okS ns y" "targetName y = targetName cr" by simp_all
      show ?thesis
        unfolding Inr sum.case
        by (intro guarantees_bind guarantees_case_sum guarantees_case_prod guarantees_if failed_ok
            failReady_ok [OF assms(1) y(1)] reasons_ok finish [OF y(1)] ensure [OF y])
    qed (simp add: guarantees_return)
  qed
qed

lemma secret_apply_ok:
  assumes "pass_laws E I okS okC" "okS ns cr" "okC ns conn"
  shows "maintains (\<lambda>p. I (p_world p)) (secret_apply E r ctx cr conn rv)"
proof -
  note fails = failed_ok failReady_ok [OF assms(1,2)] reasons_ok
  have guard: "maintains (\<lambda>p. I (p_world p)) (secret_guard E r ctx cr (snd (connectionTokenKey conn cr)) rv data)"
    if "wf_map data" for data
    unfolding secret_guard_def Let_def
    by (intro guarantees_if guarantees_bind guarantees_case_sum maintains_world keeps_target_reads(1)
        pass_lawsD(1) [OF assms(1)] fails secret_write_ok [OF assms that refl]
        failReady_ok(1) [OF assms(1) pass_edits(6) [OF assms(1,2) sorted_sort]])
  obtain data err where t: "ApplyTransforms (e_pf E) (rv_Secrets rv) (ss_Transforms (fs_Spec cr)) = (data, err)"
    by fastforce
  obtain k tt where k: "connectionTokenKey conn cr = (k, tt)" by fastforce
  show ?thesis
    unfolding secret_apply_def t prod.case k Let_def
    by (intro guarantees_case_option guarantees_if fails guard [OF wf_ApplyTransforms [OF t], unfolded k snd_conv])
qed

lemma secret_react_ok:
  assumes "pass_laws E I okS okC" "okS ns cr" "okC ns conn"
  shows "maintains (\<lambda>p. I (p_world p)) (secret_react E r ctx req cr conn revealed)"
  unfolding secret_react_def
  by (intro guarantees_case_sum guarantees_if guarantees_bind guarantees_return TrueI secret_apply_ok [OF assms]
      failed_ok failReady_ok [OF assms(1,2)] reasons_ok maintains_world keeps_forget keeps_metric_calls
      keeps_next_delay pass_lawsD(1) [OF assms(1)])

text \<open>The collaborators of a reconciler as \<open>main\<close> builds it: the real client, a broker that only reads.\<close>

definition reading_backends :: "('w \<Rightarrow> bool) \<Rightarrow> 'w secret_reconciler \<Rightarrow> bool" where
  "reading_backends I r \<longleftrightarrow> sr_ClientFactory r = None \<and> (\<forall>b. sr_Broker r = Some b \<longrightarrow> broker_keeps I b)"

lemma secret_connect_ok:
  assumes "pass_laws E I okS okC" "reading_backends I r" "okS (fst req) cr"
  shows "maintains (\<lambda>p. I (p_world p)) (secret_connect E r ctx req cr)"
proof -
  note reads = pass_lawsD(1) [OF assms(1)]
  note fails = failed_ok failReady_ok [OF assms(1,3)] reasons_ok
  have factory: "(case sr_ClientFactory r of None \<Rightarrow> defaultClientFactory E | Some f \<Rightarrow> f) = defaultClientFactory E"
    using assms(2) by (simp add: reading_backends_def)
  have token: "maintains (\<lambda>p. I (p_world p)) (loadToken E r ctx conn)" for conn
    unfolding loadToken_def using assms(2)
    by (intro maintains_world keeps_with_broker reads) (simp add: reading_backends_def)
  show ?thesis
    unfolding secret_connect_def Let_def factory
  proof (rule guarantees_bind_first [OF guarantees_in_world [OF pass_lawsD(4) [OF assms(1)]]], goal_cases)
    case (1 got)
    show ?case
    proof (cases got)
      case (Inl e)
      show ?thesis unfolding Inl sum.case by (intro fails)
    next
      case (Inr conn)
      with 1 have conn: "okC (fst req) conn" by simp
      have call: "maintains (\<lambda>p. I (p_world p)) (in_world (reveal_call ffc ctx cr conn))"
        if "defaultClientFactory E url token = Inr ffc" for url token ffc
        using that client_api.call_reads [OF reads]
        by (auto simp: defaultClientFactory_def intro!: maintains_world keeps_in_world split: sum.splits)
      show ?thesis
        unfolding Inr sum.case
        by (intro guarantees_bind token guarantees_case_sum guarantees_if fails call
            secret_react_ok [OF assms(1,3) conn])
    qed
  qed
qed

lemma secret_body_ok:
  assumes "pass_laws E I okS okC" "reading_backends I r"
  shows "maintains (\<lambda>p. I (p_world p)) (secret_body E r ctx req)"
proof -
  note connect = secret_connect_ok [OF assms]
  have update: "guarantees (\<lambda>p. I (p_world p)) (in_world (e_update_secret_cr E ctx y)) (answers (okS (fst req)))"
    if "okS (fst req) y" for y
    by (rule guarantees_in_world [OF pass_lawsD(5) [OF assms(1) that]])
  have finalizers: "okS ns (set_cr_meta cr m)" if "okS ns cr"
    "e_AddFinalizer E (fs_meta cr) fvSecretFinalizer = (m, c) \<or> e_RemoveFinalizer E (fs_meta cr) fvSecretFinalizer = (m, c)"
    for ns cr m c
    using that pass_edits(1,2) [OF assms(1) that(1)] by auto
  have deletion: "maintains (\<lambda>p. I (p_world p)) (secret_delete E ctx cr)" if "okS (fst req) cr" for cr
    unfolding secret_delete_def
    by (intro guarantees_bind maintains_world keeps_metric_calls guarantees_case_prod guarantees_if
        guarantees_return TrueI guarantees_True [OF update] finalizers [OF that] disjI2)
  show ?thesis
    unfolding secret_body_def
  proof (rule guarantees_bind_first [OF guarantees_in_world [OF pass_lawsD(3) [OF assms(1)]]], goal_cases)
    case (1 got)
    show ?case
    proof (cases got)
      case (Inl e)
      show ?thesis
        unfolding Inl sum.case
        by (intro guarantees_if guarantees_bind maintains_world keeps_metric_calls keeps_forget guarantees_return TrueI)
    next
      case (Inr cr)
      with 1 have cr: "okS (fst req) cr" by simp
      obtain m changed where m: "e_AddFinalizer E (fs_meta cr) fvSecretFinalizer = (m, changed)" by fastforce
      with cr have ok: "okS (fst req) (set_cr_meta cr m)" by (intro finalizers disjI1)
      have "maintains (\<lambda>p. I (p_world p)) (case u of
            Inl err \<Rightarrow> ret (fail_with (Wrapf (Sprintf ''add finalizer: %w'' [AErr err]) err), ''failure'')
          | Inr y \<Rightarrow> secret_connect E r ctx req y)" if "answers (okS (fst req)) u" for u
        using that by (cases u) (auto intro!: guarantees_return connect)
      then show ?thesis
        unfolding Inr sum.case m prod.case
        by (intro guarantees_if guarantees_bind_first [OF update [OF ok]] connect ok deletion cr)
    qed
  qed
qed

lemma Secret_Reconcile_ok:
  assumes "pass_laws E I okS okC" "reading_backends I r"
  shows "maintains (\<lambda>p. I (p_world p)) (Secret_Reconcile E r ctx req)"
  unfolding Secret_Reconcile_def
  by (intro guarantees_bind guarantees_case_prod guarantees_return TrueI secret_body_ok [OF assms] maintains_world
      keeps_in_world keeps_Beat keeps_ObserveReconcile reads_keepD(1) [OF pass_lawsD(1) [OF assms(1)]])

section \<open>A pass over a FerrVaultConnection\<close>

lemma checked_status_ok:
  assumes "pass_laws E I okS okC" "okC ns conn" "reason_ok reason"
  shows "guarantees (\<lambda>p. I (p_world p)) (checked_status E conn st reason msg) (okC ns)"
proof -
  note now = reads_keepD(1) [OF pass_lawsD(1) [OF assms(1)]]
  show ?thesis
    unfolding checked_status_def
  proof (rule guarantees_bind [OF maintains_world [OF keeps_in_world [OF now]]],
      rule guarantees_bind_first [OF setCondition_result [OF now]], goal_cases)
    case (1 t cs)
    then show ?case
      by (auto intro!: guarantees_return pass_edits(10) [OF assms(1,2)] new_condition_ok assms(3))
  qed
qed

lemma probe_reason: "yields (\<lambda>pr. reason_ok (pr_reason pr)) (probe E r ctx conn)"
  unfolding probe_def probe_failed_def
  by (intro yields_intros) (simp_all add: reasons_ok split: option.split)

lemma connection_update_ok:
  assumes "pass_laws E I okS okC" "okC ns c"
  shows "guarantees (\<lambda>p. I (p_world p)) (in_world (e_update_connection E ctx c)) (answers (okC ns))"
    "guarantees (\<lambda>p. I (p_world p)) (in_world (e_status_connection E ctx c)) (answers (okC ns))"
  by (rule guarantees_in_world, rule pass_lawsD(7,8) [OF assms])+

definition reading_broker :: "('w \<Rightarrow> bool) \<Rightarrow> 'w connection_reconciler \<Rightarrow> bool" where
  "reading_broker I r \<longleftrightarrow> (\<forall>b. cr_Broker r = Some b \<longrightarrow> broker_keeps I b)"

lemma connection_probe_ok:
  assumes "pass_laws E I okS okC" "reading_broker I r" "okC ns conn"
  shows "maintains (\<lambda>p. I (p_world p)) (connection_probe E r ctx req conn)"
proof -
  note reads = pass_lawsD(1) [OF assms(1)]
  have "maintains (\<lambda>p. I (p_world p)) (probe E r ctx conn)"
    using assms(2) by (intro maintains_world keeps_probe reads) (simp add: reading_broker_def)
  note probed = guarantees_conj [OF this probe_reason]
  show ?thesis
    unfolding connection_probe_def
  proof (rule guarantees_bind_first [OF probed], elim conjE, goal_cases)
    case (1 pr)
    show ?case
      by (rule guarantees_if)
        (intro guarantees_bind guarantees_return TrueI maintains_world keeps_next_delay reads,
          rule guarantees_bind [OF maintains_world [OF keeps_forget]],
          rule guarantees_bind_first [OF checked_status_ok [OF assms(1,3) 1(2)]],
          rule guarantees_bind [OF guarantees_True [OF connection_update_ok(2) [OF assms(1)]]], assumption,
          intro guarantees_case_sum guarantees_bind guarantees_return TrueI maintains_world keeps_metric_calls)
  qed
qed

lemma handleDelete_ok:
  assumes "pass_laws E I okS okC" "okC ns conn"
  shows "maintains (\<lambda>p. I (p_world p)) (handleDelete E ctx conn)"
proof -
  have blocked: "maintains (\<lambda>p. I (p_world p)) (do {
      c \<leftarrow> checked_status E conn ConditionFalse ''DeletionBlocked'' msg;
      updated \<leftarrow> in_world (e_status_connection E ctx c);
      ret (f updated) })" for msg and f :: "goerror + connection \<Rightarrow> outcome"
    by (rule guarantees_bind_first [OF checked_status_ok [OF assms reasons_ok(18)]])
      (intro guarantees_bind guarantees_True [OF connection_update_ok(2) [OF assms(1)]] guarantees_return TrueI)
  have finalizer: "okC ns (set_cn_meta conn m)" if "e_RemoveFinalizer E (cn_meta conn) fvConnectionFinalizer = (m, c)" for m c
    using that pass_edits(9) [OF assms] by simp
  show ?thesis
    unfolding handleDelete_def
    by (intro guarantees_bind [OF maintains_world [OF keeps_in_world [OF reads_keepD(12) [OF pass_lawsD(1) [OF assms(1)]]]]]
        guarantees_case_sum guarantees_if blocked guarantees_return TrueI)
      (rule guarantees_bind [OF maintains_world [OF keeps_metric_calls(5)]],
        intro guarantees_bind guarantees_case_prod guarantees_if guarantees_return TrueI
          guarantees_True [OF connection_update_ok(1) [OF assms(1), where ns = ns]] finalizer)
qed

lemma connection_body_ok:
  assumes "pass_laws E I okS okC" "reading_broker I r"
  shows "maintains (\<lambda>p. I (p_world p)) (connection_body E r ctx req)"
proof -
  note probe = connection_probe_ok [OF assms]
  have fetched: "guarantees (\<lambda>p. I (p_world p)) (in_world (e_get_connection E ctx req)) (answers (okC (fst req)))"
    using guarantees_in_world [OF pass_lawsD(4) [OF assms(1), of ctx "fst req" "snd req"]] by simp
  show ?thesis
    unfolding connection_body_def
  proof (rule guarantees_bind_first [OF fetched], goal_cases)
    case (1 got)
    show ?case
    proof (cases got)
      case (Inl e)
      show ?thesis
        unfolding Inl sum.case
        by (intro guarantees_if guarantees_bind maintains_world keeps_metric_calls keeps_forget guarantees_return TrueI)
    next
      case (Inr conn)
      with 1 have conn: "okC (fst req) conn" by simp
      obtain m changed where m: "e_AddFinalizer E (cn_meta conn) fvConnectionFinalizer = (m, changed)" by fastforce
      with pass_edits(8) [OF assms(1) conn] have ok: "okC (fst req) (set_cn_meta conn m)" by simp
      have "maintains (\<lambda>p. I (p_world p)) (case u of
            Inl err \<Rightarrow> ret (fail_with (Wrapf (Sprintf ''add finalizer: %w'' [AErr err]) err))
          | Inr y \<Rightarrow> connection_probe E r ctx req y)" if "answers (okC (fst req)) u" for u
        using that by (cases u) (auto intro!: guarantees_return probe)
      then show ?thesis
        unfolding Inr sum.case m prod.case
        by (intro guarantees_if guarantees_bind_first [OF connection_update_ok(1) [OF assms(1) ok]] probe [OF ok]
            handleDelete_ok [OF assms(1) conn])
    qed
  qed
qed

lemma Connection_Reconcile_ok:
  assumes "pass_laws E I okS okC" "reading_broker I r"
  shows "maintains (\<lambda>p. I (p_world p)) (Connection_Reconcile E r ctx req)"
  unfolding Connection_Reconcile_def
  by (intro guarantees_bind guarantees_return TrueI connection_body_ok [OF assms] maintains_world
      keeps_in_world keeps_Beat reads_keepD(1) [OF pass_lawsD(1) [OF assms(1)]])

end
