(* ===== verification/Operator.thy ===== *)
theory Operator
  imports Pass_Contract Manager
begin

text \<open>
  The whole operator as a transition system: the two reconcilers, wired as \<open>main\<close> wires them,
  the map functions of their watches, the liveness check, and a world that moves on its own
  between the steps.  A pass is one step.  The invariants are those that hold in every state a
  run reaches, whatever requests come in and in whatever order.
\<close>

section \<open>Steps and runs\<close>

inductive operator_step :: "'w env \<Rightarrow> flags \<Rightarrow> ('w \<Rightarrow> 'w \<Rightarrow> bool) \<Rightarrow> 'w proc \<Rightarrow> 'w proc \<Rightarrow> bool"
  for E fl outside where
  secret_pass: "operator_step E fl outside p
    (snd (run_state (Secret_Reconcile E (secret_reconciler_of E fl) ctx req) p))"
| connection_pass: "operator_step E fl outside p
    (snd (run_state (Connection_Reconcile E (connection_reconciler_of E) ctx req) p))"
| event: "(kind, metadata_only, requests) \<in> set (su_Watches (secret_setup E) @ su_Watches (connection_setup E)) \<Longrightarrow>
    operator_step E fl outside p (snd (run_state (in_world (requests ctx obj)) p))"
| liveness: "operator_step E fl outside p
    (snd (run_state (StallChecker E True (fl_stallThreshold fl) ctx) p))"
| world: "outside (p_world p) w \<Longrightarrow> operator_step E fl outside p (p\<lparr>p_world := w\<rparr>)"

inductive operator_run :: "'w env \<Rightarrow> flags \<Rightarrow> ('w \<Rightarrow> 'w \<Rightarrow> bool) \<Rightarrow> 'w proc \<Rightarrow> 'w proc \<Rightarrow> bool"
  for E fl outside where
  start: "operator_run E fl outside p p"
| more: "operator_run E fl outside p q \<Longrightarrow> operator_step E fl outside q r \<Longrightarrow> operator_run E fl outside p r"

lemma keeps_watches:
  assumes "reads_keep obs E" "(kind, m, requests) \<in> set (su_Watches (secret_setup E) @ su_Watches (connection_setup E))"
  shows "keeps obs (requests ctx obj)"
proof -
  note reads = reads_keepD [OF assms(1)]
  have "keeps obs (collect_dependants E ctx acc cs)" for acc cs
    by (induction cs arbitrary: acc) (simp_all add: keeps_return keeps_bind reads)
  then have "keeps obs (secretsReferencingConnection E ctx obj)" "keeps obs (secretsReferencingTokenSecret E ctx obj)"
    "keeps obs (connectionsReferencingSecret E ctx obj)"
    unfolding secretsReferencingConnection_def secretsReferencingTokenSecret_def connectionsReferencingSecret_def
    by (intro keeps_intros reads; assumption)+
  with assms(2) show ?thesis by (auto simp: secret_setup_def connection_setup_def)
qed

lemma keeps_StallChecker:
  assumes "reads_keep obs E"
  shows "keeps (\<lambda>p. obs (p_world p)) (StallChecker E hb threshold ctx)"
proof -
  note reads = reads_keepD [OF assms]
  have "keeps obs (hasWatchedResources E ctx)"
    unfolding hasWatchedResources_def by (intro keeps_intros reads)
  moreover have "keeps (\<lambda>p. obs (p_world p)) (Idle hb now)" for now
    unfolding Idle_def by (intro keeps_intros)
  ultimately show ?thesis
    unfolding StallChecker_def by (intro keeps_intros reads)
qed

text \<open>The rule for invariants: the laws of a contract make its invariant one of every run.\<close>

lemma step_invariant:
  assumes "operator_step E fl outside p q" "pass_laws E I okS okC"
    and "\<And>w w'. outside w w' \<Longrightarrow> I w \<Longrightarrow> I w'" "I (p_world p)"
  shows "I (p_world q)"
proof -
  note reads = pass_lawsD(1) [OF assms(2)]
  have "broker_keeps I (NewTokenBroker E)" by (rule real_broker.source_reads [OF reads])
  then have backends: "reading_backends I (secret_reconciler_of E fl)" "reading_broker I (connection_reconciler_of E)"
    by (simp_all add: reading_backends_def reading_broker_def secret_reconciler_of_def connection_reconciler_of_def)
  have done_by: "I (p_world (snd (run_state m p)))" if "maintains (\<lambda>p. I (p_world p)) m" for m :: "('a proc, 'b) state"
    using that assms(4) by (simp add: guarantees_def)
  from assms(1) show ?thesis
  proof cases
    case secret_pass
    then show ?thesis using done_by [OF Secret_Reconcile_ok [OF assms(2) backends(1)]] by simp
  next
    case connection_pass
    then show ?thesis using done_by [OF Connection_Reconcile_ok [OF assms(2) backends(2)]] by simp
  next
    case (event kind m requests ctx obj)
    then show ?thesis
      using done_by [OF maintains_world [OF keeps_in_world [OF keeps_watches [OF reads event(2)]]]] by simp
  next
    case liveness
    then show ?thesis using done_by [OF maintains_world [OF keeps_StallChecker [OF reads]]] by simp
  next
    case world
    then show ?thesis using assms(3,4) by simp
  qed
qed

lemma run_invariant:
  assumes "operator_run E fl outside p q" "pass_laws E I okS okC"
    and "\<And>w w'. outside w w' \<Longrightarrow> I w \<Longrightarrow> I w'" "I (p_world p)"
  shows "I (p_world q)"
  using assms(1,4)
proof induction
  case (more p q r)
  show ?case
    by (rule step_invariant [OF more.hyps(2) assms(2) _ more.IH [OF more.prems]]) (rule assms(3))
qed

section \<open>An API server that keeps Secrets and custom resources\<close>

text \<open>The Secrets a connection's token reference names.\<close>

definition named_token :: "connection \<Rightarrow> nname set" where
  "named_token c =
     (case cs_TokenSecretRef (cn_Spec c) of None \<Rightarrow> {} | Some ref \<Rightarrow> {(cn_Namespace c, skr_Name ref)})"

text \<open>
  \<open>store\<close> is the Secrets, \<open>tokens\<close> the Secrets that stored connections name as their token,
  \<open>uids\<close> the identities of FerrVaultSecrets, \<open>good\<close> the worlds whose stored objects lie under
  their own names.  Only \<open>CreateOrUpdate\<close> touches \<open>store\<close>; a resource read or written comes back
  with the name, identity and target it was asked for.
\<close>

definition serves_objects ::
  "'w env \<Rightarrow> ('w \<Rightarrow> bool) \<Rightarrow> ('w \<Rightarrow> nname \<Rightarrow> k8s_secret option) \<Rightarrow> ('w \<Rightarrow> nname set) \<Rightarrow> string set \<Rightarrow> bool" where
  "serves_objects E good store tokens uids \<longleftrightarrow>
     (\<forall>ctx ns n w. good w \<longrightarrow>
        answers (\<lambda>cr. fs_Namespace cr = ns \<and> om_uid (fs_meta cr) \<in> uids)
          (fst (run_state (e_get_secret_cr E ctx (ns, n)) w)) \<and>
        answers (\<lambda>c. cn_Namespace c = ns \<and> named_token c \<subseteq> tokens w)
          (fst (run_state (e_get_connection E ctx (ns, n)) w))) \<and>
     (\<forall>ctx cr w. good w \<and> om_uid (fs_meta cr) \<in> uids \<longrightarrow>
        (\<forall>wr\<in>{e_update_secret_cr E ctx cr, e_status_secret_cr E ctx cr}.
           wp wr (\<lambda>r w'. good w' \<and> store w' = store w \<and> tokens w' = tokens w \<and>
             answers (\<lambda>y. fs_Namespace y = fs_Namespace cr \<and> om_uid (fs_meta y) = om_uid (fs_meta cr) \<and>
               targetName y = targetName cr) r) w)) \<and>
     (\<forall>ctx c w. good w \<longrightarrow>
        (\<forall>wr\<in>{e_update_connection E ctx c, e_status_connection E ctx c}.
           wp wr (\<lambda>r w'. good w' \<and> store w' = store w \<and> tokens w' \<subseteq> tokens w \<union> named_token c \<and>
             answers (\<lambda>y. cn_Namespace y = cn_Namespace c \<and> named_token y \<subseteq> named_token c) r) w)) \<and>
     (\<forall>ctx s f. keeps (\<lambda>w. (tokens w, good w)) (e_create_or_update E ctx s f)) \<and>
     reads_keep (\<lambda>w. (store w, tokens w, good w)) E \<and> workload_writes_keep (\<lambda>w. (store w, tokens w, good w)) E"

text \<open>The finalizer helpers of controller-runtime edit the finalizers only.\<close>

definition finalizers_only :: "'w env \<Rightarrow> bool" where
  "finalizers_only E \<longleftrightarrow> (\<forall>m f. \<forall>edit\<in>{e_AddFinalizer E, e_RemoveFinalizer E}.
     \<exists>fs. fst (edit m f) = m\<lparr>om_finalizers := fs\<rparr>)"

text \<open>
  A Secret the operator has no claim to: it exists, carries no mark of the operator and is owned
  by none of its resources.
\<close>

definition foreign :: "string set \<Rightarrow> k8s_secret \<Rightarrow> bool" where
  "foreign uids s \<longleftrightarrow> om_resourceVersion (sec_meta s) \<noteq> [] \<and>
     lookup (om_annotations (sec_meta s)) fvAnnotationManagedBy = None \<and>
     (\<forall>ref\<in>set (om_ownerReferences (sec_meta s)). or_uid ref \<notin> uids)"

lemma foreign_not_adoptable: "foreign uids s \<Longrightarrow> om_uid (fs_meta cr) \<in> uids \<Longrightarrow> \<not> adoptable s cr False"
  by (auto simp: foreign_def adoptable_def list_ex_iff)

lemma serves_objectsD:
  assumes "serves_objects E good store tokens uids"
  shows "good w \<Longrightarrow> answers (\<lambda>cr. fs_Namespace cr = ns \<and> om_uid (fs_meta cr) \<in> uids)
      (fst (run_state (e_get_secret_cr E ctx (ns, n)) w))"
    "good w \<Longrightarrow> answers (\<lambda>c. cn_Namespace c = ns \<and> named_token c \<subseteq> tokens w)
      (fst (run_state (e_get_connection E ctx (ns, n)) w))"
    "good w \<Longrightarrow> om_uid (fs_meta cr) \<in> uids \<Longrightarrow>
      wr \<in> {e_update_secret_cr E ctx cr, e_status_secret_cr E ctx cr} \<Longrightarrow>
      wp wr (\<lambda>r w'. good w' \<and> store w' = store w \<and> tokens w' = tokens w \<and>
        answers (\<lambda>y. fs_Namespace y = fs_Namespace cr \<and> om_uid (fs_meta y) = om_uid (fs_meta cr) \<and>
          targetName y = targetName cr) r) w"
    "good w \<Longrightarrow> cw \<in> {e_update_connection E ctx c, e_status_connection E ctx c} \<Longrightarrow>
      wp cw (\<lambda>r w'. good w' \<and> store w' = store w \<and> tokens w' \<subseteq> tokens w \<union> named_token c \<and>
        answers (\<lambda>y. cn_Namespace y = cn_Namespace c \<and> named_token y \<subseteq> named_token c) r) w"
    "keeps (\<lambda>w. (tokens w, good w)) (e_create_or_update E ctx t f)"
    "reads_keep (\<lambda>w. (store w, tokens w, good w)) E"
    "workload_writes_keep (\<lambda>w. (store w, tokens w, good w)) E"
  using assms unfolding serves_objects_def by blast+

lemma guarantees_wp: "(\<And>s. I s \<Longrightarrow> wp m (\<lambda>x t. I t \<and> R x) s) \<Longrightarrow> guarantees I m R"
  by (simp add: guarantees_def wp_def split_beta)

lemma guarantees_read:
  "keeps I m \<Longrightarrow> (\<And>w. I w \<Longrightarrow> R (fst (run_state m w))) \<Longrightarrow> guarantees I m R"
  by (simp add: guarantees_def keeps_def)

text \<open>The contract of a foreign Secret that no connection names.\<close>

definition untouched ::
  "('w \<Rightarrow> bool) \<Rightarrow> ('w \<Rightarrow> nname \<Rightarrow> k8s_secret option) \<Rightarrow> ('w \<Rightarrow> nname set) \<Rightarrow> nname \<Rightarrow> k8s_secret \<Rightarrow> 'w \<Rightarrow> bool" where
  "untouched good store tokens k s w \<longleftrightarrow> good w \<and> store w k = Some s \<and> k \<notin> tokens w"

definition known_secret :: "string set \<Rightarrow> string \<Rightarrow> fvsecret \<Rightarrow> bool" where
  "known_secret uids ns cr \<longleftrightarrow> fs_Namespace cr = ns \<and> om_uid (fs_meta cr) \<in> uids"

definition names_other :: "nname \<Rightarrow> string \<Rightarrow> connection \<Rightarrow> bool" where
  "names_other k ns c \<longleftrightarrow> cn_Namespace c = ns \<and> k \<notin> named_token c"

lemma foreign_world_laws:
  assumes "serves_objects E good store tokens uids"
  shows "world_laws E (untouched good store tokens k s) (known_secret uids) (names_other k)"
    (is "world_laws E ?I _ _")
proof -
  note D = serves_objectsD [OF assms]
  have part: "keeps ?I m" if "keeps (\<lambda>w. (store w, tokens w, good w)) m" for m :: "('a, 'b) state"
    using that by (simp add: keeps_def untouched_def)
  have reads: "reads_keep ?I E" "workload_writes_keep ?I E"
    unfolding reads_keep_def workload_writes_keep_def
    by (intro conjI allI part reads_keepD [OF D(6)] writes_keepD(5) [OF D(7)])+
  have gets: "guarantees ?I (e_get_secret_cr E ctx (ns, n)) (answers (known_secret uids ns))"
    "guarantees ?I (e_get_connection E ctx (ns, n)) (answers (names_other k ns))" for ctx ns n
    by (rule guarantees_read [OF reads_keepD(8) [OF reads(1)]], rule answers_mono [OF D(1)],
        simp_all add: untouched_def known_secret_def)
      (rule guarantees_read [OF reads_keepD(9) [OF reads(1)]], rule answers_mono [OF D(2)],
        auto simp: untouched_def names_other_def)
  have swrites: "guarantees ?I wr (answers (\<lambda>y. known_secret uids ns y \<and> targetName y = targetName cr))"
    if "known_secret uids ns cr" "wr \<in> {e_update_secret_cr E ctx cr, e_status_secret_cr E ctx cr}" for ns cr ctx wr
    unfolding untouched_def known_secret_def
  proof (rule guarantees_wp, elim conjE)
    fix w assume w: "good w" "store w k = Some s" "k \<notin> tokens w"
    from that(1) have cr: "fs_Namespace cr = ns" "om_uid (fs_meta cr) \<in> uids" by (simp_all add: known_secret_def)
    show "wp wr (\<lambda>x t. (good t \<and> store t k = Some s \<and> k \<notin> tokens t) \<and>
        answers (\<lambda>y. (fs_Namespace y = ns \<and> om_uid (fs_meta y) \<in> uids) \<and> targetName y = targetName cr) x) w"
      by (rule wp_mono [OF D(3) [OF w(1) cr(2) that(2)]]) (use w cr in \<open>auto elim: answers_mono\<close>)
  qed
  have cwrites: "guarantees ?I wr (answers (names_other k ns))"
    if "names_other k ns c" "wr \<in> {e_update_connection E ctx c, e_status_connection E ctx c}" for ns c ctx wr
    unfolding untouched_def names_other_def
  proof (rule guarantees_wp, elim conjE)
    fix w assume w: "good w" "store w k = Some s" "k \<notin> tokens w"
    show "wp wr (\<lambda>x t. (good t \<and> store t k = Some s \<and> k \<notin> tokens t) \<and>
        answers (\<lambda>c. cn_Namespace c = ns \<and> k \<notin> named_token c) x) w"
      by (rule wp_mono [OF D(4) [OF w(1) that(2)]])
        (use w that(1) in \<open>auto simp: names_other_def elim: answers_mono\<close>)
  qed
  show ?thesis
    unfolding world_laws_def
    by (intro conjI allI impI reads gets swrites cwrites guarantees_mono [OF swrites]; (assumption | blast | elim answers_mono)?)
      auto
qed

lemma foreign_edits:
  assumes "finalizers_only E"
  shows "secret_edits E (known_secret uids)" "connection_edits E (names_other k)"
proof -
  have fin: "om_namespace (fst (edit m f)) = om_namespace m \<and> om_uid (fst (edit m f)) = om_uid m"
    if e: "edit \<in> {e_AddFinalizer E, e_RemoveFinalizer E}" for edit m f
  proof -
    obtain fs where "fst (edit m f) = m\<lparr>om_finalizers := fs\<rparr>"
      using assms e unfolding finalizers_only_def by blast
    then show ?thesis by simp
  qed
  show "secret_edits E (known_secret uids)"
    by (simp add: secret_edits_def set_cr_meta_def set_status_def known_secret_def fin)
  show "connection_edits E (names_other k)"
    by (simp add: connection_edits_def set_cn_meta_def names_other_def named_token_def fin split: option.split)
qed

lemma foreign_target_law:
  assumes "upserts store E" "\<And>ctx t f. keeps (\<lambda>w. (tokens w, good w)) (e_create_or_update E ctx t f)" "foreign uids s"
  shows "target_law E (untouched good store tokens k s) (known_secret uids) (names_other k)"
  unfolding target_law_def
proof (intro allI impI guarantees_wp)
  fix ctx ns cr conn data hash and p :: "'a proc"
  assume cr: "known_secret uids ns cr" and conn: "names_other k ns conn" and p: "untouched good store tokens k s (p_world p)"
  let ?owned = "\<not> snd (connectionTokenKey conn cr)"
  let ?m = "ensureTargetSecret E ctx cr data hash ?owned"
  have owned: ?owned if "k = target_key cr"
    using that conn cr
    by (auto simp: connectionTokenKey_def named_token_def names_other_def known_secret_def target_key_def split: option.splits)
  have "wp ?m (\<lambda>_ q. store (p_world q) k = Some s) p"
  proof (rule wp_mono [OF ensureTargetSecret_upserts [OF assms(1)]], goal_cases)
    case (1 r q)
    have k: "store (p_world p) k = Some s" using p by (simp add: untouched_def)
    show ?case
    proof (cases "k = target_key cr")
      case True
      with owned have "\<not> adoptable s cr (\<not> ?owned)"
        using foreign_not_adoptable [OF assms(3)] cr by (simp add: known_secret_def)
      then obtain e where "mutate_target E cr data hash ?owned s = Inl e" using mutate_target_conflict by blast
      with 1 True k show ?thesis by (auto simp: put_mutated_def Let_def split: sum.splits)
    next
      case False
      with 1 k show ?thesis by (auto simp: put_mutated_def Let_def split: sum.splits)
    qed
  qed
  moreover have "keeps (\<lambda>p. (tokens (p_world p), good (p_world p))) ?m"
    using keeps_in_world [OF assms(2)] unfolding ensureTargetSecret_def Let_def by fastforce
  then have "wp ?m (\<lambda>_ q. (tokens (p_world q), good (p_world q)) = (tokens (p_world p), good (p_world p))) p"
    by (rule keeps_wp) simp
  ultimately have "wp ?m (\<lambda>_ q. store (p_world q) k = Some s \<and>
      (tokens (p_world q), good (p_world q)) = (tokens (p_world p), good (p_world p))) p"
    by (rule wp_conj)
  then show "wp ?m (\<lambda>_ q. untouched good store tokens k s (p_world q) \<and> True) p"
    by (rule wp_mono) (use p in \<open>simp add: untouched_def\<close>)
qed

lemma foreign_laws:
  assumes "serves_objects E good store tokens uids" "upserts store E" "finalizers_only E" "foreign uids s"
  shows "pass_laws E (untouched good store tokens k s) (known_secret uids) (names_other k)"
  unfolding pass_laws_def
  by (intro conjI foreign_world_laws foreign_edits foreign_target_law assms serves_objectsD(5) [OF assms(1)])

section \<open>The shape of the statuses\<close>

text \<open>
  The statuses the definitions of the resources admit: one condition per type, each of a type
  and with a reason the code writes, sorted key lists without repetition.
\<close>

definition wf_conditions :: "condition list \<Rightarrow> bool" where
  "wf_conditions cs \<longleftrightarrow> distinct (map c_type cs) \<and> list_all condition_ok cs"

definition wf_secret_status :: "secret_status \<Rightarrow> bool" where
  "wf_secret_status st \<longleftrightarrow> wf_conditions (sst_Conditions st) \<and> sorted (sst_SyncedKeys st) \<and>
     distinct (sst_SyncedKeys st) \<and> sorted (sst_MissingKeys st)"

definition wf_connection_status :: "connection_status \<Rightarrow> bool" where
  "wf_connection_status st \<longleftrightarrow> wf_conditions (cst_Conditions st)"

lemma wf_upsert:
  assumes "wf_conditions cs" "condition_ok c"
  shows "wf_conditions (upsert_condition c cs)"
proof -
  have "list_all condition_ok (upsert_condition c cs)"
    using assms by (induction c cs rule: upsert_condition.induct) (auto simp: wf_conditions_def condition_ok_def)
  moreover have "distinct (map c_type (upsert_condition c cs))"
    using assms(1) by (simp only: types_upsert wf_conditions_def) auto
  ultimately show ?thesis by (simp add: wf_conditions_def)
qed

lemma wf_conditions_filter: "wf_conditions cs \<Longrightarrow> wf_conditions (filter P cs)"
  by (auto simp: wf_conditions_def list_all_iff distinct_map inj_on_def)

text \<open>
  An API server that stores the two kinds of resources: \<open>crs\<close> and \<open>conns\<close> are what it holds.  A
  read answers with a stored object; a write adds the status it was given or none, and answers
  with a status among those.
\<close>

definition stores_statuses ::
  "'w env \<Rightarrow> ('w \<Rightarrow> fvsecret set) \<Rightarrow> ('w \<Rightarrow> connection set) \<Rightarrow> bool" where
  "stores_statuses E crs conns \<longleftrightarrow>
     reads_keep (\<lambda>w. (crs w, conns w)) E \<and> workload_writes_keep (\<lambda>w. (crs w, conns w)) E \<and>
     (\<forall>ctx t f. keeps (\<lambda>w. (crs w, conns w)) (e_create_or_update E ctx t f)) \<and>
     (\<forall>ctx ns n w. answers (\<lambda>cr. cr \<in> crs w) (fst (run_state (e_get_secret_cr E ctx (ns, n)) w)) \<and>
        answers (\<lambda>c. c \<in> conns w) (fst (run_state (e_get_connection E ctx (ns, n)) w))) \<and>
     (\<forall>ctx cr w. \<forall>wr\<in>{e_update_secret_cr E ctx cr, e_status_secret_cr E ctx cr}.
        wp wr (\<lambda>r w'. conns w' = conns w \<and> fs_Status ` crs w' \<subseteq> insert (fs_Status cr) (fs_Status ` crs w) \<and>
          answers (\<lambda>y. fs_Status y \<in> insert (fs_Status cr) (fs_Status ` crs w) \<and> targetName y = targetName cr) r) w) \<and>
     (\<forall>ctx c w. \<forall>wr\<in>{e_update_connection E ctx c, e_status_connection E ctx c}.
        wp wr (\<lambda>r w'. crs w' = crs w \<and> cn_Status ` conns w' \<subseteq> insert (cn_Status c) (cn_Status ` conns w) \<and>
          answers (\<lambda>y. cn_Status y \<in> insert (cn_Status c) (cn_Status ` conns w)) r) w)"

definition statuses_ok :: "('w \<Rightarrow> fvsecret set) \<Rightarrow> ('w \<Rightarrow> connection set) \<Rightarrow> 'w \<Rightarrow> bool" where
  "statuses_ok crs conns w \<longleftrightarrow>
     (\<forall>st\<in>fs_Status ` crs w. wf_secret_status st) \<and> (\<forall>st\<in>cn_Status ` conns w. wf_connection_status st)"

lemma keeps_statuses: "keeps (\<lambda>w. (crs w, conns w)) m \<Longrightarrow> keeps (statuses_ok crs conns) m"
  by (simp add: keeps_def statuses_ok_def)

lemma status_world_laws:
  assumes "stores_statuses E crs conns"
  shows "world_laws E (statuses_ok crs conns) (\<lambda>_ cr. wf_secret_status (fs_Status cr))
    (\<lambda>_ c. wf_connection_status (cn_Status c))"
    (is "world_laws E ?I _ _")
proof -
  note D = assms [unfolded stores_statuses_def]
  have reads: "reads_keep ?I E" "workload_writes_keep ?I E"
    unfolding reads_keep_def workload_writes_keep_def
    by (intro conjI allI keeps_statuses reads_keepD [OF conjunct1 [OF D]] writes_keepD(5) [OF conjunct1 [OF conjunct2 [OF D]]])+
  have gets: "answers (\<lambda>cr. cr \<in> crs w) (fst (run_state (e_get_secret_cr E ctx (ns, n)) w))"
    "answers (\<lambda>c. c \<in> conns w) (fst (run_state (e_get_connection E ctx (ns, n)) w))" for ctx ns n w
    using D by blast+
  have fetched: "guarantees ?I (e_get_secret_cr E ctx (ns, n)) (answers (\<lambda>cr. wf_secret_status (fs_Status cr)))"
    "guarantees ?I (e_get_connection E ctx (ns, n)) (answers (\<lambda>c. wf_connection_status (cn_Status c)))" for ctx ns n
    by (rule guarantees_read [OF reads_keepD(8) [OF reads(1)]], rule answers_mono [OF gets(1)],
        simp add: statuses_ok_def)
      (rule guarantees_read [OF reads_keepD(9) [OF reads(1)]], rule answers_mono [OF gets(2)],
        simp add: statuses_ok_def)
  have swrites: "guarantees ?I wr (answers (\<lambda>y. wf_secret_status (fs_Status y) \<and> targetName y = targetName cr))"
    if "wf_secret_status (fs_Status cr)" "wr \<in> {e_update_secret_cr E ctx cr, e_status_secret_cr E ctx cr}" for cr ctx wr
  proof (rule guarantees_wp)
    fix w assume w: "?I w"
    have "wp wr (\<lambda>r w'. conns w' = conns w \<and> fs_Status ` crs w' \<subseteq> insert (fs_Status cr) (fs_Status ` crs w) \<and>
        answers (\<lambda>y. fs_Status y \<in> insert (fs_Status cr) (fs_Status ` crs w) \<and> targetName y = targetName cr) r) w"
      using D that(2) by blast
    then show "wp wr (\<lambda>x t. ?I t \<and> answers (\<lambda>y. wf_secret_status (fs_Status y) \<and> targetName y = targetName cr) x) w"
      by (rule wp_mono) (use w that(1) in \<open>auto simp: statuses_ok_def elim!: answers_mono\<close>)
  qed
  have cwrites: "guarantees ?I wr (answers (\<lambda>y. wf_connection_status (cn_Status y)))"
    if "wf_connection_status (cn_Status c)" "wr \<in> {e_update_connection E ctx c, e_status_connection E ctx c}" for c ctx wr
  proof (rule guarantees_wp)
    fix w assume w: "?I w"
    have "wp wr (\<lambda>r w'. crs w' = crs w \<and> cn_Status ` conns w' \<subseteq> insert (cn_Status c) (cn_Status ` conns w) \<and>
        answers (\<lambda>y. cn_Status y \<in> insert (cn_Status c) (cn_Status ` conns w)) r) w"
      using D that(2) by blast
    then show "wp wr (\<lambda>x t. ?I t \<and> answers (\<lambda>y. wf_connection_status (cn_Status y)) x) w"
      by (rule wp_mono) (use w that(1) in \<open>auto simp: statuses_ok_def elim!: answers_mono\<close>)
  qed
  show ?thesis
    unfolding world_laws_def
    by (intro conjI allI impI reads fetched swrites cwrites guarantees_mono [OF swrites];
        (assumption | blast | elim answers_mono)?) auto
qed

lemma status_laws:
  assumes "stores_statuses E crs conns" "removes_type E"
  shows "pass_laws E (statuses_ok crs conns) (\<lambda>_ cr. wf_secret_status (fs_Status cr))
    (\<lambda>_ c. wf_connection_status (cn_Status c))"
    (is "pass_laws E ?I ?okS ?okC")
proof -
  have "secret_edits E ?okS" "connection_edits E ?okC"
    using assms(2)
    by (auto simp: secret_edits_def connection_edits_def wf_secret_status_def wf_connection_status_def set_cr_meta_def
        set_cn_meta_def set_status_def removes_type_def intro!: wf_upsert wf_conditions_filter)
  moreover have "target_law E ?I ?okS ?okC"
    unfolding target_law_def ensureTargetSecret_def Let_def using assms(1) [unfolded stores_statuses_def]
    by (intro allI impI maintains_world keeps_in_world keeps_statuses) blast
  ultimately show ?thesis
    using status_world_laws [OF assms(1)] by (simp only: pass_laws_def simp_thms)
qed

section \<open>Properties\<close>

text \<open>
  Property C3: the operator never touches a Secret that is not its own. Take a Secret that
  exists, does not carry the operator's mark and is owned by none of its resources, while no
  connection names it as its token. Whatever sequence of passes, events and checks the operator
  runs, and whatever the rest of the cluster does in between, as long as the others leave the
  Secret alone and name it in no connection, the Secret stays exactly as it is.
\<close>

theorem foreign_secret_untouched:
  assumes "serves_objects E good store tokens uids" "upserts store E" "finalizers_only E"
    and "foreign uids s" "store (p_world p) k = Some s" "k \<notin> tokens (p_world p)" "good (p_world p)"
    and "\<And>w w'. outside w w' \<Longrightarrow> good w \<Longrightarrow> good w' \<and> store w' k = store w k \<and> (k \<notin> tokens w \<longrightarrow> k \<notin> tokens w')"
    and "operator_run E fl outside p q"
  shows "store (p_world q) k = Some s"
proof -
  have "untouched good store tokens k s (p_world q)"
    by (rule run_invariant [OF assms(9) foreign_laws [OF assms(1-4)]])
      (use assms(5-8) in \<open>auto simp: untouched_def\<close>)
  then show ?thesis by (simp add: untouched_def)
qed

text \<open>
  Property C7: the statuses stay well formed. In every state a run of the operator reaches, each
  stored FerrVaultSecret and FerrVaultConnection has at most one condition of a type, only
  conditions of the types and with reasons of the form the resource definitions admit, and
  sorted key lists, the synced one without repetition, provided it was so at the start and
  the others in the cluster do not break it.
\<close>

theorem statuses_stay_well_formed:
  assumes "stores_statuses E crs conns" "removes_type E"
    and "\<And>w w'. outside w w' \<Longrightarrow> statuses_ok crs conns w \<Longrightarrow> statuses_ok crs conns w'"
    and "statuses_ok crs conns (p_world p)" "operator_run E fl outside p q"
  shows "(\<forall>cr\<in>crs (p_world q). wf_secret_status (fs_Status cr)) \<and>
    (\<forall>c\<in>conns (p_world q). wf_connection_status (cn_Status c))"
proof -
  have "statuses_ok crs conns (p_world q)"
    by (rule run_invariant [OF assms(5) status_laws [OF assms(1,2)]]) (rule assms(3), assumption+, rule assms(4))
  then show ?thesis by (simp add: statuses_ok_def)
qed

end
