(* ===== verification/Broker_Workers.thy ===== *)
theory Broker_Workers
  imports Token_Broker
begin

text \<open>
  The token broker under concurrency.  Both reconcilers call \<open>TokenFor\<close> on one broker; its mutex
  covers a lookup and a store of the cache, not the read of the projected token and the
  exchange in between.  Here a call is a worker that moves in those atomic steps, and any
  number of workers interleave.  The steps are shown to add up to \<open>loadFromOIDC\<close>; the invariant
  says whose bearer each call returns.
\<close>

section \<open>A call in atomic steps\<close>

datatype worker =
    Calling connection oidc_auth
  | Reading connection oidc_auth
  | Exchanging connection oidc_auth string
  | Storing connection string instant
  | Finished connection "goerror + string"

fun worker_step :: "'w env \<Rightarrow> 'w broker \<Rightarrow> ctx \<Rightarrow> worker \<Rightarrow> ('w proc, worker) state" where
  "worker_step E b ctx (Calling conn auth) = do {
     cached \<leftarrow> cacheGet E conn;
     ret (case cached of Some token \<Rightarrow> Finished conn (Inr token) | None \<Rightarrow> Reading conn auth) }"
| "worker_step E b ctx (Reading conn auth) =
     (let path = (if oa_TokenPath auth = [] then DefaultTokenPath else oa_TokenPath auth)
      in do {
        rd \<leftarrow> in_world (br_ReadToken b path);
        ret (case rd of
               Inl err \<Rightarrow> Finished conn
                 (Inl (Wrapf (Sprintf ''read projected SA token at %s: %w'' [AStr path, AErr err]) err))
             | Inr raw \<Rightarrow>
                 (let saToken = TrimSpace raw
                  in if saToken = [] then
                       Finished conn (Inl (Errorf (Sprintf ''projected SA token at %s is empty'' [AStr path])))
                     else Exchanging conn auth saToken)) })"
| "worker_step E b ctx (Exchanging conn auth saToken) = do {
     ex \<leftarrow> in_world (br_Exchange b ctx (cs_URL (cn_Spec conn)) (oa_ClusterID auth) saToken);
     ret (case ex of
            Inl err \<Rightarrow> Finished conn (Inl (Wrapf (Sprintf ''OIDC exchange failed: %w'' [AErr err]) err))
          | Inr (bearer, expiresAt) \<Rightarrow> Storing conn bearer expiresAt) }"
| "worker_step E b ctx (Storing conn bearer expiresAt) = do {
     cachePut conn bearer expiresAt;
     ret (Finished conn (Inr bearer)) }"
| "worker_step E b ctx (Finished conn r) = ret (Finished conn r)"

fun worker_run :: "'w env \<Rightarrow> 'w broker \<Rightarrow> ctx \<Rightarrow> nat \<Rightarrow> worker \<Rightarrow> ('w proc, worker) state" where
  "worker_run E b ctx 0 w = ret w"
| "worker_run E b ctx (Suc n) w = State_Monad.bind (worker_step E b ctx w) (worker_run E b ctx n)"

lemma worker_run_Finished [simp]: "worker_run E b ctx n (Finished conn r) = ret (Finished conn r)"
  by (induction n) simp_all

text \<open>
  A call left alone is the sequential one: the atomic steps of a call, run without
  interruption, have the result and the effect of \<open>TokenFor\<close> on a connection with OIDC settings.
\<close>

lemma solo_worker_is_TokenFor:
  assumes "cs_TokenSecretRef (cn_Spec conn) = None" "cs_OIDC (cn_Spec conn) = Some auth"
  shows "worker_run E b ctx 4 (Calling conn auth) =
    State_Monad.bind (TokenFor E b ctx conn) (\<lambda>r. ret (Finished conn r))"
proof -
  have four: "(4::nat) = Suc (Suc (Suc (Suc 0)))" by simp
  have "worker_run E b ctx 4 (Calling conn auth) =
      State_Monad.bind (loadFromOIDC E b ctx conn auth) (\<lambda>r. ret (Finished conn r))"
    unfolding loadFromOIDC_def four
    by (rule state.expand, rule ext) (auto simp: Let_def split: prod.splits option.splits sum.splits)
  then show ?thesis by (simp add: TokenFor_def assms)
qed

section \<open>Interleavings\<close>

text \<open>
  The state is the calls in progress, the bearers exchanges have issued so far, latest first,
  with the connection and settings they were issued for, and the process.  A new call may come
  in, any call may make its next step, an entry may be invalidated, and the world may move.
\<close>

type_synonym issue = "connection \<times> oidc_auth \<times> string \<times> instant"
type_synonym 'w broker_state = "worker list \<times> issue list \<times> 'w proc"

fun issued_by :: "worker \<Rightarrow> worker \<Rightarrow> issue list" where
  "issued_by (Exchanging conn auth sa) (Storing _ t x) = [(conn, auth, t, x)]"
| "issued_by _ _ = []"

inductive broker_step :: "'w env \<Rightarrow> 'w broker \<Rightarrow> 'w broker_state \<Rightarrow> 'w broker_state \<Rightarrow> bool" for E b where
  call: "cs_TokenSecretRef (cn_Spec conn) = None \<Longrightarrow> cs_OIDC (cn_Spec conn) = Some auth \<Longrightarrow>
    broker_step E b (ws, issued, p) (ws @ [Calling conn auth], issued, p)"
| work: "i < length ws \<Longrightarrow> run_state (worker_step E b ctx (ws ! i)) p = (w', p') \<Longrightarrow>
    broker_step E b (ws, issued, p) (ws[i := w'], issued_by (ws ! i) w' @ issued, p')"
| drop: "run_state (Invalidate ns n) p = (u, p') \<Longrightarrow> broker_step E b (ws, issued, p) (ws, issued, p')"
| world: "broker_step E b (ws, issued, p) (ws, issued, p\<lparr>p_world := w\<rparr>)"

inductive broker_reach :: "'w env \<Rightarrow> 'w broker \<Rightarrow> 'w broker_state \<Rightarrow> bool" for E b where
  start: "(\<And>k. cache_entry p k = None) \<Longrightarrow> broker_reach E b ([], [], p)"
| more: "broker_reach E b s \<Longrightarrow> broker_step E b s t \<Longrightarrow> broker_reach E b t"


subsection \<open>The invariant\<close>

text \<open>An issue vouches for a bearer of a key when it was made for a connection of that key.\<close>

definition vouched :: "issue list \<Rightarrow> nname \<Rightarrow> string \<Rightarrow> instant \<Rightarrow> bool" where
  "vouched issued k t x \<longleftrightarrow> (\<exists>conn auth. (conn, auth, t, x) \<in> set issued \<and> cache_key conn = k)"

fun worker_vouched :: "issue list \<Rightarrow> worker \<Rightarrow> bool" where
  "worker_vouched issued (Storing conn t x) = vouched issued (cache_key conn) t x"
| "worker_vouched issued (Finished conn (Inr t)) = (\<exists>x. vouched issued (cache_key conn) t x)"
| "worker_vouched issued _ = True"

definition cache_vouched :: "issue list \<Rightarrow> 'w proc \<Rightarrow> bool" where
  "cache_vouched issued p \<longleftrightarrow>
     (\<forall>k e. cache_entry p k = Some e \<longrightarrow> vouched issued k (cb_token e) (cb_expiresAt e))"

lemma cache_vouchedD:
  "cache_vouched issued p \<Longrightarrow> cache_entry p k = Some e \<Longrightarrow> vouched issued k (cb_token e) (cb_expiresAt e)"
  unfolding cache_vouched_def by (elim allE impE)

lemma cache_vouchedI:
  "(\<And>k e. cache_entry p k = Some e \<Longrightarrow> vouched issued k (cb_token e) (cb_expiresAt e)) \<Longrightarrow> cache_vouched issued p"
  unfolding cache_vouched_def by (intro allI impI)

definition exchanged :: "'w broker \<Rightarrow> issue \<Rightarrow> bool" where
  "exchanged b = (\<lambda>(conn, auth, t, x). \<exists>ctx sa w w'.
     run_state (br_Exchange b ctx (cs_URL (cn_Spec conn)) (oa_ClusterID auth) sa) w = (Inr (t, x), w'))"

definition broker_ok :: "'w broker \<Rightarrow> 'w broker_state \<Rightarrow> bool" where
  "broker_ok b = (\<lambda>(ws, issued, p).
     cache_vouched issued p \<and> list_all (worker_vouched issued) ws \<and> list_all (exchanged b) issued)"

lemma vouched_mono: "vouched issued k t x \<Longrightarrow> vouched (new @ issued) k t x"
  by (auto simp: vouched_def)

lemma worker_vouched_mono: "worker_vouched issued w \<Longrightarrow> worker_vouched (new @ issued) w"
  by (cases "(issued, w)" rule: worker_vouched.cases) (auto intro: vouched_mono)

lemma cache_vouched_mono: "cache_vouched issued p \<Longrightarrow> cache_vouched (new @ issued) p"
  by (intro cache_vouchedI vouched_mono) (rule cache_vouchedD)

lemma cache_vouched_world [simp]: "cache_vouched issued (p\<lparr>p_world := w\<rparr>) = cache_vouched issued p"
  by (simp add: cache_vouched_def cache_entry_def)

lemma cacheGet_vouched:
  assumes "run_state (cacheGet E conn) p = (r, p')" "cache_vouched issued p"
  shows "cache_vouched issued p'" "r = Some t \<Longrightarrow> \<exists>x. vouched issued (cache_key conn) t x"
proof -
  have shrinks: "cache_entry p' k = Some e \<Longrightarrow> cache_entry p k = Some e" for k e
    using assms(1)
    by (auto simp: cacheGet_def cache_entry_def run_in_world split: option.splits prod.splits if_splits)
  show "cache_vouched issued p'" by (intro cache_vouchedI cache_vouchedD [OF assms(2)] shrinks)
  assume "r = Some t"
  then have "\<exists>e. cache_entry p (cache_key conn) = Some e \<and> cb_token e = t"
    using assms(1)
    by (auto simp: cacheGet_def cache_entry_def run_in_world split: option.splits prod.splits if_splits)
  then show "\<exists>x. vouched issued (cache_key conn) t x" using cache_vouchedD [OF assms(2)] by blast
qed

lemma cachePut_vouched:
  assumes "run_state (cachePut conn t x) p = (u, p')" "cache_vouched issued p" "vouched issued (cache_key conn) t x"
  shows "cache_vouched issued p'"
proof (rule cache_vouchedI)
  fix k e assume "cache_entry p' k = Some e"
  with assms(1) have "cache_entry p k = Some e \<or> k = cache_key conn \<and> e = \<lparr>cb_token = t, cb_expiresAt = x\<rparr>"
    by (auto simp: cachePut_def cache_entry_def split: option.splits if_splits)
  then show "vouched issued k (cb_token e) (cb_expiresAt e)"
    by (elim disjE conjE) (rule cache_vouchedD [OF assms(2)], assumption, simp add: assms(3))
qed

lemma worker_step_ok:
  assumes "run_state (worker_step E b ctx w) p = (w', p')" "worker_vouched issued w" "cache_vouched issued p"
  shows "worker_vouched (issued_by w w' @ issued) w' \<and> cache_vouched issued p' \<and> list_all (exchanged b) (issued_by w w')"
proof (cases w)
  case (Calling conn auth)
  then obtain r where r: "run_state (cacheGet E conn) p = (r, p')"
    "w' = (case r of Some token \<Rightarrow> Finished conn (Inr token) | None \<Rightarrow> Reading conn auth)"
    using assms(1) by (auto split: prod.splits)
  then show ?thesis
    using cacheGet_vouched [OF r(1) assms(3)] Calling by (cases r) auto
next
  case (Reading conn auth)
  then show ?thesis
    using assms by (auto simp: Let_def run_in_world split: prod.splits sum.splits if_splits)
next
  case (Exchanging conn auth sa)
  obtain r v where r: "run_state (br_Exchange b ctx (cs_URL (cn_Spec conn)) (oa_ClusterID auth) sa) (p_world p) = (r, v)"
    by fastforce
  show ?thesis
  proof (cases r)
    case (Inl e)
    then show ?thesis using assms r Exchanging by (auto simp: run_in_world)
  next
    case (Inr tx)
    then obtain t x where tx: "r = Inr (t, x)" by (cases tx) simp
    then have "w' = Storing conn t x" "p' = p\<lparr>p_world := v\<rparr>"
      using assms(1) r Exchanging by (simp_all add: run_in_world)
    moreover have "exchanged b (conn, auth, t, x)" using r tx unfolding exchanged_def by auto
    ultimately show ?thesis
      using assms(3) Exchanging by (auto simp: vouched_def)
  qed
next
  case (Storing conn t x)
  then have "run_state (cachePut conn t x) p = ((), p')" "w' = Finished conn (Inr t)"
    using assms(1) by (auto simp: cachePut_def)
  then show ?thesis using cachePut_vouched assms(2,3) Storing by auto
next
  case (Finished conn r)
  then have "w' = Finished conn r" "p' = p" using assms(1) by simp_all
  then show ?thesis using Finished assms(2,3) by simp
qed

lemma broker_step_ok:
  assumes "broker_step E b (ws, issued, p) (ws', issued', p')" "broker_ok b (ws, issued, p)"
  shows "broker_ok b (ws', issued', p')"
  using assms(1)
proof cases
  case (call conn auth)
  then show ?thesis using assms(2) by (auto simp: broker_ok_def)
next
  case (work i ctx w')
  have "worker_vouched issued (ws ! i)" "cache_vouched issued p"
    using assms(2) work(3) by (simp_all add: broker_ok_def list_all_length)
  from worker_step_ok [OF work(4) this] assms(2) have
    "cache_vouched issued' p'" "worker_vouched issued' w'" "list_all (exchanged b) issued'" "list_all (worker_vouched issued') ws"
    unfolding work(2) by (auto simp: broker_ok_def list_all_iff intro: cache_vouched_mono worker_vouched_mono)
  then show ?thesis
    unfolding work(1) using work(3) by (auto simp: broker_ok_def list_all_length nth_list_update)
next
  case (drop ns n u)
  then have "cache_entry p' k = Some e \<Longrightarrow> cache_entry p k = Some e" for k e
    by (auto simp: Invalidate_def cache_entry_def split: option.splits if_splits)
  then have "cache_vouched issued p \<Longrightarrow> cache_vouched issued p'"
    by (intro cache_vouchedI) (rule cache_vouchedD)
  with drop assms(2) show ?thesis by (simp add: broker_ok_def)
next
  case (world w)
  then show ?thesis using assms(2) by (simp add: broker_ok_def)
qed

lemma broker_reach_ok: "broker_reach E b s \<Longrightarrow> broker_ok b s"
proof (induction rule: broker_reach.induct)
  case (start p)
  then show ?case by (simp add: broker_ok_def cache_vouched_def)
next
  case (more s t)
  then show ?case by (cases s; cases t) (auto intro: broker_step_ok)
qed

section \<open>Properties\<close>

text \<open>
  Property C11: bearers are never mixed up. However the calls on one broker interleave, with
  invalidations and with anything the world does in between, a call that returns a bearer for a
  connection returns one that an exchange of this process issued for a connection of the same
  namespace and name.
\<close>

theorem bearer_issued_for_connection:
  assumes "broker_reach E b (ws, issued, p)" "Finished conn (Inr t) \<in> set ws"
  shows "\<exists>c auth x. (c, auth, t, x) \<in> set issued \<and> cn_Namespace c = cn_Namespace conn \<and> cn_Name c = cn_Name conn \<and>
    (\<exists>ctx sa w w'. run_state (br_Exchange b ctx (cs_URL (cn_Spec c)) (oa_ClusterID auth) sa) w = (Inr (t, x), w'))"
proof -
  have ok: "list_all (worker_vouched issued) ws" "list_all (exchanged b) issued"
    using broker_reach_ok [OF assms(1)] by (simp_all add: broker_ok_def)
  then have "worker_vouched issued (Finished conn (Inr t))" using assms(2) unfolding list_all_iff by blast
  then obtain c auth x where c: "(c, auth, t, x) \<in> set issued" "cache_key c = cache_key conn"
    by (auto simp: vouched_def)
  with ok(2) have "exchanged b (c, auth, t, x)" unfolding list_all_iff by blast
  with c show ?thesis
    by (intro exI [of _ c] exI [of _ auth] exI [of _ x]) (simp add: exchanged_def cache_key_def)
qed

end
