(* ===== verification/Convergence.thy ===== *)
theory Convergence
  imports Pass_Contract
begin

text \<open>
  What a pass that succeeded means: target and status are in sync with the answer of FerrVault,
  and the next pass over the same content restarts nothing, since the target carries the
  digest, the resource records it, and a restart is due only when one of the two says
  otherwise.
\<close>

section \<open>A quiet write\<close>

definition recorded :: "string \<Rightarrow> string \<Rightarrow> bool" where
  "recorded h x \<longleftrightarrow> x = [] \<or> x = h"

lemma rolloutDue_recorded: "recorded h last_hash \<Longrightarrow> recorded h previous \<Longrightarrow> \<not> rolloutDue last_hash previous h"
  by (auto simp: rolloutDue_def recorded_def)

lemma keeps_secret_finish:
  assumes "reads_keep obs E" "status_writes_keep obs E" "\<not> rolloutDue (sst_LastRolloutHash (fs_Status cr)) previous h"
  shows "keeps (\<lambda>p. obs (p_world p)) (secret_finish E r ctx cr rv data previous h s)"
proof -
  have "keeps (\<lambda>p. obs (p_world p)) (rolloutIfDue E ctx cr previous h)"
    using assms(3) by (simp add: rolloutIfDue_def keeps_return)
  moreover have "keeps (\<lambda>p. obs (p_world p)) (synced_status E y s ks ms e)" for y ks ms e
    unfolding synced_status_def setRolloutCondition_def
    by (intro keeps_intros keeps_set_cr_condition reads_keepD(1) [OF assms(1)])
  ultimately show ?thesis
    unfolding secret_finish_def Let_def
    by (intro keeps_intros writes_keepD(1) [OF assms(2)])
qed

lemma quiet_write:
  assumes "reads_keep obs E" "status_writes_keep obs E" "\<And>ctx s f. keeps obs (e_create_or_update E ctx s f)"
    and "\<And>s. fst (run_state (e_get_secret E ctx (target_key cr)) (p_world p)) = Inr s \<Longrightarrow>
      recorded (hashSecretData data) (lookup_str (om_annotations (sec_meta s)) fvAnnotationContentHash)"
    and "recorded (hashSecretData data) (sst_LastRolloutHash (fs_Status cr))"
  shows "wp (secret_write E r ctx cr tt rv data) (\<lambda>_ q. obs (p_world q) = obs (p_world p)) p"
proof -
  let ?h = "hashSecretData data" and ?obs = "\<lambda>p. obs (p_world p)"
  have fail: "keeps ?obs (failed (failReady E r ctx cr rsn msg))" for rsn msg
    by (intro keeps_failed keeps_failReady [OF assms(1,2)])
  have rest: "keeps ?obs (do {
      recorded \<leftarrow> recordPendingRollout E ctx cr previous ?h;
      case recorded of
        Inl err \<Rightarrow> ret (fail_with err, ''failure'')
      | Inr cr \<Rightarrow> do {
          ensured \<leftarrow> ensureTargetSecret E ctx cr data ?h (\<not> tt);
          case ensured of
            Inl err \<Rightarrow>
              if errors_Is ErrTargetConflict err then failed (failReady E r ctx cr ''TargetConflict'' (err_Error err))
              else failed (failReady E r ctx cr ''SecretWriteFailed'' (err_Error err))
          | Inr (secret, _) \<Rightarrow> secret_finish E r ctx cr rv data previous ?h secret } })"
    if "recorded ?h previous" for previous
  proof -
    have due: "\<not> rolloutDue (sst_LastRolloutHash (fs_Status cr)) previous ?h"
      by (rule rolloutDue_recorded [OF assms(5) that])
    then have "recordPendingRollout E ctx cr previous ?h = ret (Inr cr)"
      by (auto simp: recordPendingRollout_def)
    moreover have "keeps ?obs (ensureTargetSecret E ctx cr data ?h (\<not> tt))"
      unfolding ensureTargetSecret_def Let_def by (intro keeps_in_world assms(3))
    ultimately show ?thesis
      by (simp only: bind_left_identity sum.case)
        (intro keeps_intros fail keeps_secret_finish [OF assms(1,2) due])
  qed
  have prev: "wp (targetContentHash E ctx cr) (\<lambda>x _. \<forall>previous. x = Inr previous \<longrightarrow> recorded ?h previous) p"
    using assms(4)
    by (auto simp: targetContentHash_def wp_simps wp_def [of "e_get_secret E ctx (target_key cr)"] wp_return recorded_def
        split: prod.splits sum.splits)
  have "wp (targetContentHash E ctx cr) (\<lambda>x q. (\<forall>previous. x = Inr previous \<longrightarrow> recorded ?h previous) \<and> ?obs q = ?obs p) p"
    by (intro wp_conj prev keeps_wp keeps_target_reads(2) assms(1) refl)
  then show ?thesis
    unfolding secret_write_def Let_def wp_bind [of "targetContentHash E ctx cr"]
  proof (rule wp_mono, goal_cases)
    case (1 x q)
    then show ?case by (cases x) (auto intro: keeps_wp fail rest)
  qed
qed

section \<open>What a successful pass leaves behind\<close>

text \<open>
  The API server's side: \<open>store\<close> holds the Secrets, \<open>status\<close> the status of each resource.  Only
  \<open>CreateOrUpdate\<close> changes \<open>store\<close>; a status write that succeeds stores the status it was given and
  answers with the same resource, its spec not changed meanwhile (or the write would conflict).
\<close>

definition resource_key :: "fvsecret \<Rightarrow> nname" where
  "resource_key cr = (fs_Namespace cr, fs_Name cr)"

definition same_identity :: "fvsecret \<Rightarrow> fvsecret \<Rightarrow> bool" where
  "same_identity y x \<longleftrightarrow> resource_key y = resource_key x \<and> targetName y = targetName x \<and>
     om_generation (fs_meta y) = om_generation (fs_meta x)"

definition remembers ::
  "'w env \<Rightarrow> ('w \<Rightarrow> nname \<Rightarrow> k8s_secret option) \<Rightarrow> ('w \<Rightarrow> nname \<Rightarrow> secret_status) \<Rightarrow> bool" where
  "remembers E store status \<longleftrightarrow>
     upserts store E \<and> reads_keep store E \<and> workload_writes_keep store E \<and> status_writes_keep store E \<and>
     (\<forall>ctx ns n w s. fst (run_state (e_get_secret E ctx (ns, n)) w) = Inr s \<longrightarrow> store w (ns, n) = Some s) \<and>
     (\<forall>ctx ns n w cr. fst (run_state (e_get_secret_cr E ctx (ns, n)) w) = Inr cr \<longrightarrow> fs_Status cr = status w (ns, n)) \<and>
     (\<forall>ctx x w. wp (e_status_secret_cr E ctx x)
        (\<lambda>r w'. answers (\<lambda>y. status w' (resource_key x) = fs_Status x \<and> same_identity y x) r) w)"

lemma remembersD:
  assumes "remembers E store status"
  shows "upserts store E" "reads_keep store E" "workload_writes_keep store E" "status_writes_keep store E"
    "fst (run_state (e_get_secret E ctx k) w) = Inr s \<Longrightarrow> store w k = Some s"
    "fst (run_state (e_get_secret_cr E ctx k) w) = Inr cr \<Longrightarrow> fs_Status cr = status w k"
    "wp (e_status_secret_cr E ctx x)
       (\<lambda>r w'. answers (\<lambda>y. status w' (resource_key x) = fs_Status x \<and> same_identity y x) r) w"
  using assms unfolding remembers_def by (cases k; simp)+

lemma set_status_identity [simp]:
  "resource_key (set_status f x) = resource_key x" "targetName (set_status f x) = targetName x"
  "fs_meta (set_status f x) = fs_meta x" "fs_Status (set_status f x) = f (fs_Status x)"
  by (simp_all add: resource_key_def targetName_def set_status_def)

lemma same_identity_set_status [simp]:
  "same_identity (set_status f x) y = same_identity x y" "same_identity x x"
  by (simp_all add: same_identity_def)

lemma same_identity_target: "same_identity y x \<Longrightarrow> target_key y = target_key x"
  by (simp add: same_identity_def target_key_def resource_key_def)

lemma rolloutIfDue_records:
  "yields (\<lambda>(err, y). same_identity y cr \<and> (err = None \<longrightarrow> recorded h (sst_LastRolloutHash (fs_Status y))))
    (rolloutIfDue E ctx cr previous h)"
  unfolding rolloutIfDue_def
  by (intro yields_intros) (simp_all add: recorded_def same_identity_def split: option.splits)

lemma set_cr_condition_records:
  "yields (\<lambda>y. same_identity y cr \<and> sst_LastRolloutHash (fs_Status y) = sst_LastRolloutHash (fs_Status cr))
    (set_cr_condition E cr c)"
  unfolding set_cr_condition_def
  by (intro yields_intros) simp

lemma synced_status_records:
  "yields (\<lambda>y. same_identity y cr \<and> sst_LastRolloutHash (fs_Status y) = sst_LastRolloutHash (fs_Status cr))
    (synced_status E cr secret keys missing rolloutErr)"
proof -
  have roll: "yields (\<lambda>y. same_identity y x \<and> sst_LastRolloutHash (fs_Status y) = sst_LastRolloutHash (fs_Status x))
      (setRolloutCondition E x rolloutErr)" for x
    unfolding setRolloutCondition_def
    by (intro yields_if set_cr_condition_records yields_return) simp
  show ?thesis
    unfolding synced_status_def
  proof (rule yields_bind, simp only: bind_left_identity, rule yields_bind_first [OF set_cr_condition_records],
      rule yields_mono [OF roll], goal_cases)
    case (1 now y z)
    then show ?case by (simp add: same_identity_def)
  qed
qed

lemma keeps_finish_store:
  assumes "remembers E store rolled"
  shows "keeps (\<lambda>p. store (p_world p)) (secret_finish E r ctx cr rv data previous h s)"
proof -
  note D = remembersD [OF assms]
  have "keeps (\<lambda>p. store (p_world p)) (rolloutIfDue E ctx cr previous h)"
    unfolding rolloutIfDue_def by (intro keeps_intros keeps_rollouts D)
  moreover have "keeps (\<lambda>p. store (p_world p)) (synced_status E y s ks ms e)" for y ks ms e
    unfolding synced_status_def setRolloutCondition_def
    by (intro keeps_intros keeps_set_cr_condition reads_keepD(1) [OF D(2)])
  ultimately show ?thesis
    unfolding secret_finish_def Let_def
    by (intro keeps_intros writes_keepD(1) [OF D(4)])
qed

text \<open>The target and the status of a resource that is in sync with the given content.\<close>

definition target_current :: "string gomap \<Rightarrow> k8s_secret option \<Rightarrow> bool" where
  "target_current data target \<longleftrightarrow> (\<exists>s. target = Some s \<and> same_map (sec_Data s) data \<and> sec_StringData s = [] \<and>
     lookup (om_annotations (sec_meta s)) fvAnnotationContentHash = Some (hashSecretData data) \<and>
     lookup (om_annotations (sec_meta s)) fvAnnotationManagedBy = Some ''ferrvault-operator'')"

definition status_current :: "fvsecret \<Rightarrow> string gomap \<Rightarrow> secret_status \<Rightarrow> bool" where
  "status_current cr data st \<longleftrightarrow> recorded (hashSecretData data) (sst_LastRolloutHash st) \<and>
     sst_SyncedKeys st = sort (mkeys data) \<and> sst_MissingKeys st = [] \<and>
     sst_ObservedGeneration st = om_generation (fs_meta cr) \<and>
     (\<exists>c. find_condition ''Ready'' (sst_Conditions st) = Some c \<and> c_status c = ConditionTrue)"

lemma status_current_same: "same_identity y cr \<Longrightarrow> status_current y data st = status_current cr data st"
  by (simp add: status_current_def same_identity_def)

lemma finish_status:
  assumes "remembers E store status" "removes_type E"
  shows "wp (secret_finish E r ctx cr rv data previous (hashSecretData data) s) (\<lambda>(outcome, label) q.
    label = ''success'' \<longrightarrow> rv_Missing rv = [] \<and> status_current cr data (status (p_world q) (resource_key cr))) p"
    (is "wp _ ?Q p")
proof -
  let ?h = "hashSecretData data" and ?missing = "sort (rv_Missing rv)"
  have none: "sort xs = [] \<longleftrightarrow> xs = []" for xs :: "string list" by (metis set_empty set_sort)
  have written: "wp (in_world (e_status_secret_cr E ctx z)) (\<lambda>u q. answers (\<lambda>_. ?missing = [] \<longrightarrow> e = None \<longrightarrow>
      status_current cr data (status (p_world q) (resource_key cr))) u) q"
    if e: "e = None \<longrightarrow> recorded ?h (sst_LastRolloutHash (fs_Status z))" and z: "same_identity z cr"
      "sst_SyncedKeys (fs_Status z) = sort (mkeys data)" "sst_MissingKeys (fs_Status z) = ?missing"
      "sst_ObservedGeneration (fs_Status z) = om_generation (fs_meta cr)"
      "\<exists>c. find_condition ''Ready'' (sst_Conditions (fs_Status z)) = Some c \<and>
        c_status c = (if ?missing = [] then ConditionTrue else ConditionFalse)" for e z q
    unfolding wp_in_world
    by (rule wp_mono [OF remembersD(7) [OF assms(1)]], erule answers_mono)
      (use e z in \<open>auto simp: status_current_def same_identity_def\<close>)
  show ?thesis
    unfolding secret_finish_def Let_def wp_bind [of "rolloutIfDue E ctx cr previous ?h"]
  proof (rule wp_mono [OF yields_wp [OF rolloutIfDue_records [of cr ?h E ctx previous]]], goal_cases)
    case (1 ey q)
    obtain e y where ey: "ey = (e, y)" by fastforce
    with 1 have y: "same_identity y cr" "e = None \<longrightarrow> recorded ?h (sst_LastRolloutHash (fs_Status y))" by simp_all
    show ?case
      unfolding ey prod.case wp_bind [of "synced_status E y s ks ms e" for ks ms]
    proof (rule wp_mono [OF wp_conj [OF yields_wp [OF synced_status_records] synced_status_reports [OF assms(2)]]], goal_cases)
      case (1 z q)
      have gen: "om_generation (fs_meta y) = om_generation (fs_meta cr)" "same_identity z cr"
        using 1 y(1) by (simp_all add: same_identity_def)
      show ?case
        unfolding wp_bind [of "in_world (e_status_secret_cr E ctx z)"]
      proof (rule wp_mono [OF written [of e z]], goal_cases)
        case (7 u q)
        then show ?case
          by (cases u; cases e; cases "rv_Missing rv = []")
            (auto simp: wp_simps metric_calls metric_def none)
      qed (use 1 y(2) gen in \<open>auto\<close>)
    qed
  qed
qed

text \<open>Every branch of a pass is a failure, which promises nothing, or goes on to the write.\<close>

definition on_success :: "('w \<Rightarrow> bool) \<Rightarrow> outcome \<times> string \<Rightarrow> 'w proc \<Rightarrow> bool" where
  "on_success P = (\<lambda>(outcome, label) q. label = ''success'' \<longrightarrow> P (p_world q))"

lemma on_success_pair [simp]: "on_success P (outcome, label) q \<longleftrightarrow> (label = ''success'' \<longrightarrow> P (p_world q))"
  by (simp add: on_success_def)

lemma on_success_mono: "wp m (on_success P) p \<Longrightarrow> (\<And>w. P w \<Longrightarrow> Q w) \<Longrightarrow> wp m (on_success Q) p"
  by (erule wp_mono) (auto simp: on_success_def)

lemma wp_bind_any: "(\<And>x q. wp (f x) Q q) \<Longrightarrow> wp (State_Monad.bind m f) Q p"
  unfolding wp_bind by (rule wp_mono [OF wp_True])

lemma wp_if_I: "(b \<Longrightarrow> wp m Q p) \<Longrightarrow> (\<not> b \<Longrightarrow> wp n Q p) \<Longrightarrow> wp (if b then m else n) Q p"
  by simp

lemma wp_sum_I:
  "(\<And>e. r = Inl e \<Longrightarrow> wp (f e) Q p) \<Longrightarrow> (\<And>x. r = Inr x \<Longrightarrow> wp (g x) Q p) \<Longrightarrow>
    wp (case r of Inl e \<Rightarrow> f e | Inr x \<Rightarrow> g x) Q p"
  by (simp split: sum.split)

lemma failed_on_success [simp]: "wp (failed m) (on_success P) p"
  by (rule wp_bind_any) (simp add: wp_return)

lemma mutated_target_current:
  assumes "owner_only E" "mutate_target E cr data (hashSecretData data) owned s = Inr (u, x)" "same_secret t u" "wf_map data"
  shows "target_current data (Some t)"
proof -
  have "fvAnnotationContentHash \<noteq> fvAnnotationManagedBy" by (simp add: annotation_names)
  with mutate_target_Inr [OF assms(1,2)] assms(3,4) show ?thesis
    by (auto simp: target_current_def same_secret_def secretBytes_def map_simps)
qed

definition in_sync ::
  "('w \<Rightarrow> nname \<Rightarrow> k8s_secret option) \<Rightarrow> ('w \<Rightarrow> nname \<Rightarrow> secret_status) \<Rightarrow> fvsecret \<Rightarrow> string gomap \<Rightarrow> 'w \<Rightarrow> bool" where
  "in_sync store status cr data w \<longleftrightarrow>
     target_current data (store w (target_key cr)) \<and> status_current cr data (status w (resource_key cr))"

lemma secret_write_leaves:
  assumes "remembers E store status" "owner_only E" "removes_type E" "wf_map data"
  shows "wp (secret_write E r ctx cr tt rv data) (on_success (\<lambda>w. rv_Missing rv = [] \<and> in_sync store status cr data w)) p"
    (is "wp _ ?Q p")
proof -
  let ?h = "hashSecretData data"
  have finish: "wp (secret_finish E r ctx y rv data previous ?h s) ?Q q"
    if y: "same_identity y cr" and t: "target_current data (store (p_world q) (target_key cr))" for y previous s q
    by (rule wp_mono [OF wp_conj [OF finish_status [OF assms(1,3)] keeps_wp [OF keeps_finish_store [OF assms(1)] refl]]])
      (use t y in \<open>auto simp: in_sync_def status_current_same same_identity_def status_current_def\<close>)
  have ensured: "wp (State_Monad.bind (ensureTargetSecret E ctx y data ?h (\<not> tt)) (\<lambda>ensured. case ensured of
        Inl err \<Rightarrow>
          if errors_Is ErrTargetConflict err then failed (failReady E r ctx y ''TargetConflict'' (err_Error err))
          else failed (failReady E r ctx y ''SecretWriteFailed'' (err_Error err))
      | Inr (secret, _) \<Rightarrow> secret_finish E r ctx y rv data previous ?h secret)) ?Q q"
    if y: "same_identity y cr" for y previous q
    unfolding wp_bind [of "ensureTargetSecret E ctx y data ?h (\<not> tt)"]
  proof (rule wp_mono [OF ensureTargetSecret_upserts [OF remembersD(1) [OF assms(1)]]], goal_cases)
    case (1 x q)
    show ?case
    proof (cases x)
      case (Inl e)
      then show ?thesis by simp
    next
      case (Inr tx)
      then obtain t z u s where u: "x = Inr (t, z)" "mutate_target E y data ?h (\<not> tt) s = Inr (u, z)" "same_secret t u"
          "store (p_world q) (target_key cr) = Some t"
        using 1 by (cases tx) (fastforce simp: same_identity_target [OF y] put_mutated_def Let_def)
      with mutated_target_current [OF assms(2) u(2,3) assms(4)] show ?thesis by (simp add: finish [OF y])
    qed
  qed
  have pending: "wp (recordPendingRollout E ctx cr previous ?h) (\<lambda>x _. answers (\<lambda>y. same_identity y cr) x) q" for previous q
    unfolding recordPendingRollout_def
    by (auto simp: wp_bind wp_in_world wp_return same_identity_def split: sum.split
        intro!: wp_mono [OF remembersD(7) [OF assms(1)]])
  show ?thesis
    unfolding secret_write_def Let_def wp_bind [of "targetContentHash E ctx cr"]
  proof (rule wp_mono [OF wp_True], goal_cases)
    case (1 x q)
    show ?case
    proof (cases x)
      case (Inl e)
      then show ?thesis by simp
    next
      case (Inr previous)
      show ?thesis
        unfolding Inr sum.case wp_bind [of "recordPendingRollout E ctx cr previous ?h"]
      proof (rule wp_mono [OF pending], goal_cases)
        case (1 z q)
        then show ?case by (cases z) (simp_all add: wp_return ensured)
      qed
    qed
  qed
qed

text \<open>The same from the guards, the transforms and the answer of the reveal on.\<close>

lemma secret_guard_leaves:
  assumes "remembers E store status" "owner_only E" "removes_type E" "wf_map data"
  shows "wp (secret_guard E r ctx cr tt rv data) (on_success (\<lambda>w. rv_Missing rv = [] \<and> in_sync store status cr data w)) p"
proof -
  note w = secret_write_leaves [OF assms]
  show ?thesis
    unfolding secret_guard_def Let_def
    by (rule wp_if_I, rule wp_bind_any, rule wp_sum_I, rule failed_on_success, rule wp_if_I, rule failed_on_success,
        rule w, rule w)
qed

lemma secret_apply_leaves:
  assumes "remembers E store status" "owner_only E" "removes_type E"
  shows "wp (secret_apply E r ctx cr conn rv) (on_success (\<lambda>w.
    \<exists>data. ApplyTransforms (e_pf E) (rv_Secrets rv) (ss_Transforms (fs_Spec cr)) = (data, None) \<and>
      rv_Missing rv = [] \<and> in_sync store status cr data w)) p"
proof -
  obtain data res where t: "ApplyTransforms (e_pf E) (rv_Secrets rv) (ss_Transforms (fs_Spec cr)) = (data, res)" by fastforce
  obtain k tt where k: "connectionTokenKey conn cr = (k, tt)" by fastforce
  note guard = on_success_mono [OF secret_guard_leaves [OF assms wf_ApplyTransforms [OF t], of r ctx cr tt rv]]
  show ?thesis
    unfolding secret_apply_def t k prod.case Let_def
    by (cases res) (auto intro!: guard simp del: wp_if)
qed

lemma secret_react_leaves:
  assumes "remembers E store status" "owner_only E" "removes_type E"
  shows "wp (secret_react E r ctx req cr conn revealed) (on_success (\<lambda>w.
    \<exists>rv data. revealed = Inr rv \<and> ApplyTransforms (e_pf E) (rv_Secrets rv) (ss_Transforms (fs_Spec cr)) = (data, None) \<and>
      rv_Missing rv = [] \<and> in_sync store status cr data w)) p"
proof (cases revealed)
  case (Inl err)
  show ?thesis
    unfolding Inl secret_react_def sum.case
    by (intro wp_if_I wp_bind_any) (simp_all add: wp_return)
next
  case (Inr rv)
  show ?thesis
    unfolding Inr secret_react_def sum.case
    by (intro wp_bind_any on_success_mono [OF secret_apply_leaves [OF assms]]) auto
qed

lemma wp_self: "wp m (\<lambda>x t. run_state m s = (x, t)) s"
  by (simp add: wp_def split: prod.split)

section \<open>Properties\<close>

text \<open>
  Property C1: a pass that reports success has put the resource in sync. There are answers of the
  API server and of FerrVault, to a client made for the connection's URL and its token, such
  that nothing requested was missing, every transform succeeded, and at the end of the pass the
  target Secret holds exactly the transformed data, its digest and the operator's mark, while
  the status lists exactly those keys and no missing ones, is Ready and names the generation
  that was applied.
\<close>

theorem success_means_in_sync:
  assumes "remembers E store status" "owner_only E" "removes_type E"
  shows "wp (secret_connect E r ctx req cr) (\<lambda>(outcome, label) q. label = ''success'' \<longrightarrow>
    (\<exists>conn token ffc reveal data w0 w1 p1 p2 w2 w3.
       run_state (e_get_connection E ctx (fst req, ss_ConnectionRef (fs_Spec cr))) w0 = (Inr conn, w1) \<and>
       run_state (loadToken E r ctx conn) p1 = (Inr token, p2) \<and>
       (case sr_ClientFactory r of None \<Rightarrow> defaultClientFactory E | Some f \<Rightarrow> f) (cs_URL (cn_Spec conn)) token = Inr ffc \<and>
       run_state (reveal_call ffc ctx cr conn) w2 = (Inr reveal, w3) \<and> rv_Missing reveal = [] \<and>
       ApplyTransforms (e_pf E) (rv_Secrets reveal) (ss_Transforms (fs_Spec cr)) = (data, None) \<and>
       in_sync store status cr data (p_world q))) p"
    (is "wp _ ?Q p")
proof -
  have success: "wp m (on_success P) q \<Longrightarrow> (\<And>w. P w \<Longrightarrow> R w) \<Longrightarrow> wp m (\<lambda>(outcome, label) q. label = ''success'' \<longrightarrow> R (p_world q)) q"
    for m q P R by (erule wp_mono) (auto simp: on_success_def)
  have failure: "wp (failed m) ?Q q" for m q by (rule success [OF failed_on_success]) (erule FalseE)
  let ?get = "e_get_connection E ctx (fst req, ss_ConnectionRef (fs_Spec cr))"
  let ?factory = "case sr_ClientFactory r of None \<Rightarrow> defaultClientFactory E | Some f \<Rightarrow> f"
  show ?thesis
    unfolding secret_connect_def Let_def wp_bind [of "in_world ?get"] wp_in_world
  proof (rule wp_mono [OF wp_self], goal_cases)
    case (1 got w)
    show ?case
    proof (rule wp_sum_I, rule failure, goal_cases)
      case (1 conn)
      note conn = \<open>run_state ?get (p_world p) = (got, w)\<close> [unfolded 1]
      show ?case
        unfolding wp_bind [of "loadToken E r ctx conn"]
      proof (rule wp_mono [OF wp_self], goal_cases)
        case (1 tok p2)
        show ?case
        proof (rule wp_sum_I, rule failure, rule wp_sum_I, rule failure, rule wp_if_I, rule failure, goal_cases)
          case (1 token ffc)
          note token = \<open>run_state (loadToken E r ctx conn) _ = (tok, p2)\<close> [unfolded 1(1)]
          show ?case
            unfolding wp_bind [of "in_world (reveal_call ffc ctx cr conn)"] wp_in_world
          proof (rule wp_mono [OF wp_self], goal_cases)
            case (1 revealed w3)
            show ?case
              by (rule success [OF secret_react_leaves [OF assms]])
                (use 1 conn token \<open>?factory _ token = Inr ffc\<close> in blast)
          qed
        qed
      qed
    qed
  qed
qed

text \<open>
  Property C6: a pass that succeeded leaves nothing to do for the next one. After a write that
  succeeded, let the world move in any way that leaves the target Secret and the recorded
  rollout hash alone, let the operator restart or not, and let another pass read the resource
  and come with the same content, in whatever order its keys are. Then that pass restarts no
  workload: nothing that only workload patches can change is different after it, whatever the
  outcome of its calls.
\<close>

theorem second_pass_restarts_nothing:
  assumes "remembers E store status" "owner_only E" "removes_type E"
    and "reads_keep obs E" "status_writes_keep obs E" "\<And>ctx s f. keeps obs (e_create_or_update E ctx s f)"
    and "run_state (secret_write E r ctx cr tt rv data) p = ((outcome, ''success''), q)"
    and "fst (run_state (e_get_secret_cr E ctx2 (resource_key cr)) w) = Inr cr2"
    and "sst_LastRolloutHash (status w (resource_key cr)) = sst_LastRolloutHash (status (p_world q) (resource_key cr))"
    and "resource_key cr2 = resource_key cr" "targetName cr2 = targetName cr"
    and "store (p_world p2) (target_key cr) = store (p_world q) (target_key cr)"
    and "same_map data2 data" "wf_map data2" "wf_map data"
  shows "obs (p_world (snd (run_state (secret_write E r2 ctx2 cr2 tt2 rv2 data2) p2))) = obs (p_world p2)"
proof -
  have h: "hashSecretData data2 = hashSecretData data"
    by (simp add: hashSecretData_def hash_input_cong [OF assms(13-15)])
  have same: "target_key cr2 = target_key cr"
    using assms(10,11) by (simp add: target_key_def resource_key_def)
  have left: "in_sync store status cr data (p_world q)"
    using wp_run [OF secret_write_leaves [OF assms(1-3,15)] assms(7)] by simp
  have target: "recorded (hashSecretData data2) (lookup_str (om_annotations (sec_meta s)) fvAnnotationContentHash)"
    if "fst (run_state (e_get_secret E ctx2 (target_key cr2)) (p_world p2)) = Inr s" for s
    using remembersD(5) [OF assms(1) that] left h assms(12) same
    by (auto simp: recorded_def lookup_str_def in_sync_def target_current_def)
  have "recorded (hashSecretData data2) (sst_LastRolloutHash (fs_Status cr2))"
    using left h assms(9) remembersD(6) [OF assms(1) assms(8)] by (simp add: in_sync_def status_current_def)
  from quiet_write [OF assms(4-6) target this]
  show ?thesis by (simp add: wp_def split_beta)
qed

end
