(* ===== verification/Command_Line.thy ===== *)
theory Command_Line
  imports Manager Go_Duration
begin

text \<open>
  How the process starts, before the manager: the registration of the API types
  (\<open>groupversion_info.go\<close> and the \<open>init\<close> of \<open>cmd/main.go\<close>), the flag table of \<open>main\<close> and the
  standard library's \<open>flag.Parse\<close> on it.  The Kubernetes scheme and the flags that libraries
  add (those of zap) are parameters.
\<close>

section \<open>The scheme\<close>

type_synonym group_version = "string \<times> string"

datatype api_type = AConnection | AConnectionList | ASecret | ASecretList

record 's scheme_api =
  sc_AddKnownTypes :: "group_version \<Rightarrow> api_type list \<Rightarrow> 's \<Rightarrow> 's"
  sc_AddToGroupVersion :: "group_version \<Rightarrow> 's \<Rightarrow> 's"
  sc_Builder_AddToScheme :: "('s \<Rightarrow> goerror + 's) list \<Rightarrow> 's \<Rightarrow> goerror + 's"
  sc_clientgo_AddToScheme :: "'s \<Rightarrow> goerror + 's"

definition GroupVersion :: group_version where
  "GroupVersion = (''ferrvault.com'', ''v1alpha1'')"

definition addKnownTypes :: "'s scheme_api \<Rightarrow> 's \<Rightarrow> goerror + 's" where
  "addKnownTypes A s =
     Inr (sc_AddToGroupVersion A GroupVersion
       (sc_AddKnownTypes A GroupVersion [AConnection, AConnectionList, ASecret, ASecretList] s))"

definition SchemeBuilder :: "'s scheme_api \<Rightarrow> ('s \<Rightarrow> goerror + 's) list" where
  "SchemeBuilder A = [addKnownTypes A]"

definition AddToScheme :: "'s scheme_api \<Rightarrow> 's \<Rightarrow> goerror + 's" where
  "AddToScheme A = sc_Builder_AddToScheme A (SchemeBuilder A)"

text \<open>\<open>utilruntime.Must\<close> panics with the error.\<close>

definition init_scheme :: "'s scheme_api \<Rightarrow> 's \<Rightarrow> goerror + 's" where
  "init_scheme A s = (case sc_clientgo_AddToScheme A s of Inl err \<Rightarrow> Inl err | Inr s' \<Rightarrow> AddToScheme A s')"

section \<open>The flag table\<close>

datatype flag_value =
    StringVar "string \<Rightarrow> flags \<Rightarrow> flags"
  | BoolVar "bool \<Rightarrow> flags \<Rightarrow> flags"
  | DurationVar "duration \<Rightarrow> flags \<Rightarrow> flags"

definition formal :: "(string \<times> flag_value) list" where
  "formal =
     [(''metrics-bind-address'', StringVar (\<lambda>v. fl_metricsAddr_update (\<lambda>_. v))),
      (''health-probe-bind-address'', StringVar (\<lambda>v. fl_probeAddr_update (\<lambda>_. v))),
      (''leader-elect'', BoolVar (\<lambda>v. fl_enableLeaderElection_update (\<lambda>_. v))),
      (''leader-elect-id'', StringVar (\<lambda>v. fl_leaderElectionID_update (\<lambda>_. v))),
      (''default-refresh-interval'', DurationVar (\<lambda>v. fl_defaultRefreshInterval_update (\<lambda>_. v))),
      (''watch-namespace'', StringVar (\<lambda>v. fl_watchNamespace_update (\<lambda>_. v))),
      (''stall-threshold'', DurationVar (\<lambda>v. fl_stallThreshold_update (\<lambda>_. v))),
      (''reconcile-timeout'', DurationVar (\<lambda>v. fl_reconcileTimeout_update (\<lambda>_. v)))]"

text \<open>\<open>strconv.ParseBool\<close>.\<close>

definition ParseBool :: "string \<Rightarrow> bool option" where
  "ParseBool s =
     (if s \<in> {''1'', ''t'', ''T'', ''TRUE'', ''true'', ''True''} then Some True
      else if s \<in> {''0'', ''f'', ''F'', ''FALSE'', ''false'', ''False''} then Some False
      else None)"

fun is_bool_flag :: "flag_value \<Rightarrow> bool" where
  "is_bool_flag (BoolVar _) = True"
| "is_bool_flag _ = False"

fun set_flag :: "flag_value \<Rightarrow> string \<Rightarrow> flags \<Rightarrow> flags option" where
  "set_flag (StringVar f) text fl = Some (f text fl)"
| "set_flag (BoolVar f) text fl = map_option (\<lambda>b. f b fl) (ParseBool text)"
| "set_flag (DurationVar f) text fl = map_option (\<lambda>d. f d fl) (ParseDuration text)"

text \<open>
  A flag a library has registered: whether it may stand without a value, and whether it accepts
  one.  Its effect is the library's.
\<close>

type_synonym library_flags = "string \<Rightarrow> (bool \<times> (string \<Rightarrow> bool)) option"

definition flag_known :: "library_flags \<Rightarrow> string \<Rightarrow> (bool \<times> (string \<Rightarrow> flags \<Rightarrow> flags option)) option" where
  "flag_known lib name =
     (case map_of formal name of
        Some v \<Rightarrow> Some (is_bool_flag v, set_flag v)
      | None \<Rightarrow> map_option (\<lambda>(b, accepts). (b, \<lambda>text fl. if accepts text then Some fl else None)) (lib name))"

section \<open>Parsing\<close>

text \<open>
  One argument of \<open>FlagSet.parseOne\<close>: not a flag, the terminator, no flag name, or a name and
  the value after the first equals sign.
\<close>

datatype argument = Positional | Terminator | BadSyntax | Named string "string option"

definition flag_argument :: "string \<Rightarrow> argument" where
  "flag_argument s =
     (if length s < 2 \<or> hd s \<noteq> CHR ''-'' then Positional
      else if s = ''--'' then Terminator
      else
        (let name = (if s ! 1 = CHR ''-'' then drop 2 s else drop 1 s)
         in if name = [] \<or> hd name = CHR ''-'' \<or> hd name = CHR ''='' then BadSyntax
            else
              (case dropWhile (\<lambda>c. c \<noteq> CHR ''='') name of
                 [] \<Rightarrow> Named name None
               | _ # v \<Rightarrow> Named (takeWhile (\<lambda>c. c \<noteq> CHR ''='') name) (Some v))))"

datatype parsed = Parsed flags | FlagError gomsg | Help

text \<open>Parsing ends at the first argument that is not a flag; \<open>main\<close> never looks at the rest.\<close>

fun flag_Parse :: "library_flags \<Rightarrow> flags \<Rightarrow> string list \<Rightarrow> parsed" where
  "flag_Parse lib fl [] = Parsed fl"
| "flag_Parse lib fl (s # args) =
     (case flag_argument s of
        Positional \<Rightarrow> Parsed fl
      | Terminator \<Rightarrow> Parsed fl
      | BadSyntax \<Rightarrow> FlagError (Sprintf ''bad flag syntax: %s'' [AStr s])
      | Named name val \<Rightarrow>
          (case flag_known lib name of
             None \<Rightarrow> if name = ''help'' \<or> name = ''h'' then Help
                     else FlagError (Sprintf ''flag provided but not defined: -%s'' [AStr name])
           | Some (True, set_to) \<Rightarrow>
               (let text = (case val of None \<Rightarrow> ''true'' | Some v \<Rightarrow> v)
                in case set_to text fl of
                     None \<Rightarrow> FlagError (Sprintf ''invalid boolean value %q for -%s: parse error'' [AStr text, AStr name])
                   | Some fl' \<Rightarrow> flag_Parse lib fl' args)
           | Some (False, set_to) \<Rightarrow>
               (case (val, args) of
                  (Some text, _) \<Rightarrow>
                    (case set_to text fl of
                       None \<Rightarrow> FlagError (Sprintf ''invalid value %q for flag -%s: parse error'' [AStr text, AStr name])
                     | Some fl' \<Rightarrow> flag_Parse lib fl' args)
                | (None, text # rest) \<Rightarrow>
                    (case set_to text fl of
                       None \<Rightarrow> FlagError (Sprintf ''invalid value %q for flag -%s: parse error'' [AStr text, AStr name])
                     | Some fl' \<Rightarrow> flag_Parse lib fl' rest)
                | (None, []) \<Rightarrow> FlagError (Sprintf ''flag needs an argument: -%s'' [AStr name]))))"

text \<open>
  The whole process: the \<open>init\<close> functions, the flags, then \<open>main\<close> past them.  \<open>flag.Parse\<close>
  ends the process itself on an error (status 2) and on a request for help (status 0).
\<close>

datatype process_end = Panic goerror | FlagExit gomsg | HelpExit | Main program_end

definition operator_process ::
  "'s scheme_api \<Rightarrow> 's \<Rightarrow> 'w env \<Rightarrow> ('s \<Rightarrow> 'w startup) \<Rightarrow> library_flags \<Rightarrow> string list \<Rightarrow> ('w proc, process_end) state" where
  "operator_process A s0 E S lib argv =
     (case init_scheme A s0 of
        Inl err \<Rightarrow> ret (Panic err)
      | Inr scheme \<Rightarrow>
          (case flag_Parse lib default_flags argv of
             FlagError msg \<Rightarrow> ret (FlagExit msg)
           | Help \<Rightarrow> ret HelpExit
           | Parsed fl \<Rightarrow> State_Monad.bind (main_program E (S scheme) fl) (\<lambda>e. ret (Main e))))"

section \<open>Facts about the parser\<close>

lemma flag_argument_named:
  assumes "name \<noteq> []" "list_all (\<lambda>c. c \<noteq> CHR ''='') name" "hd name \<noteq> CHR ''-''"
  shows "flag_argument (''--'' @ name @ ''='' @ val) = Named name (Some val)"
    "flag_argument (''--'' @ name) = Named name None"
proof -
  have cut: "takeWhile (\<lambda>c. c \<noteq> CHR ''='') (name @ CHR ''='' # v) = name"
    "dropWhile (\<lambda>c. c \<noteq> CHR ''='') (name @ CHR ''='' # v) = CHR ''='' # v"
    "dropWhile (\<lambda>c. c \<noteq> CHR ''='') name = []" for v
    using assms(2) by (simp_all add: takeWhile_append2 dropWhile_append2 list_all_iff)
  have "hd name \<noteq> CHR ''=''" using assms(1,2) by (cases name) simp_all
  with assms(1,3) show "flag_argument (''--'' @ name @ ''='' @ val) = Named name (Some val)"
    "flag_argument (''--'' @ name) = Named name None"
    by (simp_all add: flag_argument_def Let_def cut)
qed

text \<open>
  A command line of settings, as the Helm chart writes them: a name and its value, or the bare
  name of a switch, which means true.
\<close>

definition flag_name :: "string \<Rightarrow> bool" where
  "flag_name name \<longleftrightarrow> name \<noteq> [] \<and> list_all (\<lambda>c. c \<noteq> CHR ''='') name \<and> hd name \<noteq> CHR ''-''"

definition written :: "string \<times> string option \<Rightarrow> string" where
  "written = (\<lambda>(name, val). ''--'' @ name @ (case val of None \<Rightarrow> [] | Some v \<Rightarrow> ''='' @ v))"

definition meant :: "string \<times> string option \<Rightarrow> string \<times> string" where
  "meant = (\<lambda>(name, val). (name, case val of None \<Rightarrow> ''true'' | Some v \<Rightarrow> v))"

text \<open>What each setting admits, and the settings a sequence of them amounts to: the last value given for each.\<close>

definition text_flags :: "string list" where
  "text_flags = [''metrics-bind-address'', ''health-probe-bind-address'', ''leader-elect-id'', ''watch-namespace'']"

definition duration_flags :: "string list" where
  "duration_flags = [''default-refresh-interval'', ''stall-threshold'', ''reconcile-timeout'']"

definition refusal :: "library_flags \<Rightarrow> string \<times> string \<Rightarrow> parsed option" where
  "refusal lib = (\<lambda>(name, val).
     let bad_value = FlagError (Sprintf ''invalid value %q for flag -%s: parse error'' [AStr val, AStr name]);
         bad_switch = FlagError (Sprintf ''invalid boolean value %q for -%s: parse error'' [AStr val, AStr name])
     in if name \<in> set text_flags then None
        else if name \<in> set duration_flags then (if ParseDuration val = None then Some bad_value else None)
        else if name = ''leader-elect'' then (if ParseBool val = None then Some bad_switch else None)
        else (case lib name of
            Some (switch, accepts) \<Rightarrow> if accepts val then None else Some (if switch then bad_switch else bad_value)
          | None \<Rightarrow> Some (if name = ''help'' \<or> name = ''h'' then Help
              else FlagError (Sprintf ''flag provided but not defined: -%s'' [AStr name]))))"

definition given :: "(string \<times> string) list \<Rightarrow> (string \<Rightarrow> 'a option) \<Rightarrow> string \<Rightarrow> 'a \<Rightarrow> 'a" where
  "given args read name otherwise =
     (case Option.bind (map_of (rev args) name) read of None \<Rightarrow> otherwise | Some x \<Rightarrow> x)"

definition settings :: "flags \<Rightarrow> (string \<times> string) list \<Rightarrow> flags" where
  "settings fl args =
     \<lparr>fl_metricsAddr = given args Some ''metrics-bind-address'' (fl_metricsAddr fl),
      fl_probeAddr = given args Some ''health-probe-bind-address'' (fl_probeAddr fl),
      fl_enableLeaderElection = given args ParseBool ''leader-elect'' (fl_enableLeaderElection fl),
      fl_leaderElectionID = given args Some ''leader-elect-id'' (fl_leaderElectionID fl),
      fl_defaultRefreshInterval = given args ParseDuration ''default-refresh-interval'' (fl_defaultRefreshInterval fl),
      fl_watchNamespace = given args Some ''watch-namespace'' (fl_watchNamespace fl),
      fl_stallThreshold = given args ParseDuration ''stall-threshold'' (fl_stallThreshold fl),
      fl_reconcileTimeout = given args ParseDuration ''reconcile-timeout'' (fl_reconcileTimeout fl)\<rparr>"

lemma flag_argument_written:
  "flag_name name \<Longrightarrow> flag_argument (written (name, val)) = Named name val"
  using flag_argument_named [of name] by (cases val) (simp_all add: flag_name_def written_def)

lemma given_Nil: "given [] read name otherwise = otherwise"
  by (simp add: given_def)

lemma given_Cons:
  assumes "read val \<noteq> None \<or> n \<noteq> name" "\<forall>v. (name, v) \<in> set args \<longrightarrow> read v \<noteq> None"
  shows "given ((n, val) # args) read name otherwise =
    given args read name (if n = name then the (read val) else otherwise)"
proof (cases "map_of (rev args) name")
  case None
  then show ?thesis using assms(1) by (auto simp: given_def map_add_def)
next
  case (Some v)
  then have "(name, v) \<in> set args" by (force dest: map_of_SomeD)
  then have "read v \<noteq> None" using assms(2) by blast
  then show ?thesis using Some by (auto simp: given_def map_add_def)
qed

definition put_setting :: "string \<times> string \<Rightarrow> flags \<Rightarrow> flags" where
  "put_setting a fl = settings fl [a]"

lemma settings_Nil: "settings fl [] = fl"
  by (simp add: settings_def given_Nil)

lemma refusal_None:
  assumes "refusal lib (name, val) = None"
  shows "name = ''leader-elect'' \<Longrightarrow> ParseBool val \<noteq> None"
    "name \<in> set duration_flags \<Longrightarrow> ParseDuration val \<noteq> None"
  using assms by (auto simp: refusal_def Let_def text_flags_def duration_flags_def split: if_splits)

lemma settings_Cons:
  assumes "refusal lib a = None" "\<forall>b \<in> set args. refusal lib b = None"
  shows "settings fl (a # args) = settings (put_setting a fl) args"
proof -
  obtain n v where a: "a = (n, v)" by fastforce
  have later: "(''leader-elect'', x) \<in> set args \<Longrightarrow> ParseBool x \<noteq> None"
    "m \<in> set duration_flags \<Longrightarrow> (m, x) \<in> set args \<Longrightarrow> ParseDuration x \<noteq> None" for m x
    using assms(2) refusal_None by blast+
  have now: "ParseBool v \<noteq> None \<or> n \<noteq> ''leader-elect''"
    "m \<in> set duration_flags \<Longrightarrow> ParseDuration v \<noteq> None \<or> n \<noteq> m" for m
    using assms(1) refusal_None [of lib n v] unfolding a by blast+
  have own: "given ((n, v) # args) Some m x = given args Some m (given [(n, v)] Some m x)"
    "given ((n, v) # args) ParseBool ''leader-elect'' y = given args ParseBool ''leader-elect'' (given [(n, v)] ParseBool ''leader-elect'' y)"
    "k \<in> set duration_flags \<Longrightarrow>
      given ((n, v) # args) ParseDuration k z = given args ParseDuration k (given [(n, v)] ParseDuration k z)" for m k x y z
    using later now by (subst (1 2) given_Cons; simp add: given_Nil)+
  have mem: "''default-refresh-interval'' \<in> set duration_flags" "''stall-threshold'' \<in> set duration_flags"
    "''reconcile-timeout'' \<in> set duration_flags" by (simp_all add: duration_flags_def)
  show ?thesis unfolding a settings_def put_setting_def by (simp add: own mem)
qed

text \<open>One argument at a time: what the flag table does with a setting is what the setting admits.\<close>

definition bad_setting :: "bool \<Rightarrow> string \<Rightarrow> string \<Rightarrow> parsed" where
  "bad_setting switch name val = FlagError (Sprintf
     (if switch then ''invalid boolean value %q for -%s: parse error'' else ''invalid value %q for flag -%s: parse error'')
     [AStr val, AStr name])"

lemma flag_Parse_named:
  assumes "flag_argument s = Named name val" "flag_known lib name = Some (switch, set_to)" "val = None \<longrightarrow> switch"
  shows "flag_Parse lib fl (s # args) =
    (case set_to (snd (meant (name, val))) fl of
       None \<Rightarrow> bad_setting switch name (snd (meant (name, val)))
     | Some fl' \<Rightarrow> flag_Parse lib fl' args)"
  using assms by (cases switch; cases val) (simp_all add: meant_def bad_setting_def split: option.split)

lemma put_one:
  "put_setting (n, val) fl =
    \<lparr>fl_metricsAddr = if n = ''metrics-bind-address'' then val else fl_metricsAddr fl,
     fl_probeAddr = if n = ''health-probe-bind-address'' then val else fl_probeAddr fl,
     fl_enableLeaderElection = if n = ''leader-elect'' then
       (case ParseBool val of None \<Rightarrow> fl_enableLeaderElection fl | Some x \<Rightarrow> x) else fl_enableLeaderElection fl,
     fl_leaderElectionID = if n = ''leader-elect-id'' then val else fl_leaderElectionID fl,
     fl_defaultRefreshInterval = if n = ''default-refresh-interval'' then
       (case ParseDuration val of None \<Rightarrow> fl_defaultRefreshInterval fl | Some x \<Rightarrow> x) else fl_defaultRefreshInterval fl,
     fl_watchNamespace = if n = ''watch-namespace'' then val else fl_watchNamespace fl,
     fl_stallThreshold = if n = ''stall-threshold'' then
       (case ParseDuration val of None \<Rightarrow> fl_stallThreshold fl | Some x \<Rightarrow> x) else fl_stallThreshold fl,
     fl_reconcileTimeout = if n = ''reconcile-timeout'' then
       (case ParseDuration val of None \<Rightarrow> fl_reconcileTimeout fl | Some x \<Rightarrow> x) else fl_reconcileTimeout fl\<rparr>"
  by (simp add: put_setting_def settings_def given_def eq_commute [of n])

lemma own_flag_admits:
  assumes "map_of formal name = Some f"
  shows "set_flag f val fl = (case refusal lib (name, val) of None \<Rightarrow> Some (put_setting (name, val) fl) | Some _ \<Rightarrow> None)"
    "refusal lib (name, val) = Some e \<Longrightarrow> e = bad_setting (is_bool_flag f) name val"
    "name = ''leader-elect'' \<Longrightarrow> is_bool_flag f"
proof -
  have "list_all (\<lambda>(n, f).
      set_flag f val fl = (case refusal lib (n, val) of None \<Rightarrow> Some (put_setting (n, val) fl) | Some _ \<Rightarrow> None)) formal"
    by (simp add: formal_def refusal_def put_one text_flags_def duration_flags_def split: option.split)
  moreover have "list_all (\<lambda>(n, f). (\<forall>e. refusal lib (n, val) = Some e \<longrightarrow> e = bad_setting (is_bool_flag f) n val) \<and>
      (n = ''leader-elect'' \<longrightarrow> is_bool_flag f)) formal"
    by (simp add: formal_def refusal_def text_flags_def duration_flags_def bad_setting_def)
  ultimately show "set_flag f val fl = (case refusal lib (name, val) of None \<Rightarrow> Some (put_setting (name, val) fl) | Some _ \<Rightarrow> None)"
    "refusal lib (name, val) = Some e \<Longrightarrow> e = bad_setting (is_bool_flag f) name val"
    "name = ''leader-elect'' \<Longrightarrow> is_bool_flag f"
    using map_of_SomeD [OF assms] unfolding list_all_iff by blast+
qed

lemma library_flag_admits:
  assumes "map_of formal name = None"
  shows "put_setting (name, val) fl = fl" "name \<noteq> ''leader-elect''"
    "refusal lib (name, val) = (case lib name of
       Some (switch, accepts) \<Rightarrow> if accepts val then None else Some (bad_setting switch name val)
     | None \<Rightarrow> Some (if name = ''help'' \<or> name = ''h'' then Help
         else FlagError (Sprintf ''flag provided but not defined: -%s'' [AStr name])))"
proof -
  have own: "name \<notin> set (map fst formal)" using assms by (simp add: map_of_eq_None_iff)
  then show "put_setting (name, val) fl = fl" "name \<noteq> ''leader-elect''"
    by (simp_all add: formal_def put_one)
  have "name \<notin> set text_flags" "name \<notin> set duration_flags" "name \<noteq> ''leader-elect''"
    using own by (simp_all add: formal_def text_flags_def duration_flags_def)
  then show "refusal lib (name, val) = (case lib name of
       Some (switch, accepts) \<Rightarrow> if accepts val then None else Some (bad_setting switch name val)
     | None \<Rightarrow> Some (if name = ''help'' \<or> name = ''h'' then Help
         else FlagError (Sprintf ''flag provided but not defined: -%s'' [AStr name])))"
    by (auto simp: refusal_def bad_setting_def Let_def split: option.split)
qed

lemma flag_Parse_written:
  assumes "flag_name (fst a)" "snd a = None \<longrightarrow> fst a = ''leader-elect''"
  shows "flag_Parse lib fl (written a # args) =
    (case refusal lib (meant a) of None \<Rightarrow> flag_Parse lib (put_setting (meant a) fl) args | Some e \<Rightarrow> e)"
proof -
  obtain n v where a: "a = (n, v)" by fastforce
  have arg: "flag_argument (written a) = Named n v" using flag_argument_written assms(1) by (simp add: a)
  obtain x where x: "meant a = (n, x)" by (simp add: a meant_def)
  show ?thesis
  proof (cases "map_of formal n")
    case (Some f)
    then have known: "flag_known lib n = Some (is_bool_flag f, set_flag f)" by (simp add: flag_known_def)
    have "v = None \<longrightarrow> is_bool_flag f" using assms(2) own_flag_admits(3) [OF Some] by (simp add: a)
    from flag_Parse_named [OF arg known this, of fl args, folded a]
    show ?thesis
      using own_flag_admits(2) [OF Some, of lib x] by (simp add: x own_flag_admits(1) [OF Some, of x fl lib] split: option.split)
  next
    case None
    note lib = library_flag_admits [OF None]
    have v: "v = None \<longrightarrow> b" for b using assms(2) lib(2) by (auto simp: a)
    show ?thesis
    proof (cases "lib n")
      case None': None
      then have "flag_known lib n = None" using None by (simp add: flag_known_def)
      with arg None' show ?thesis by (simp add: x lib)
    next
      case (Some f)
      obtain switch accepts where f: "f = (switch, accepts)" by fastforce
      have "flag_known lib n = Some (switch, \<lambda>text fl. if accepts text then Some fl else None)"
        using None Some by (simp add: flag_known_def f)
      from flag_Parse_named [OF arg this v, of fl args, folded a] show ?thesis by (simp add: x lib Some f)
    qed
  qed
qed

lemma map_filter_Nil_iff: "List.map_filter f xs = [] \<longleftrightarrow> (\<forall>x \<in> set xs. f x = None)"
  by (auto simp: List.map_filter_def filter_empty_conv)

section \<open>Properties\<close>


end
