(* ===== verification/Run_Scenarios.thy ===== *)
theory Run_Scenarios
  imports Scenarios Operator Broker_Workers Convergence Command_Line
begin

text \<open>
  Runs of the operator and of the broker's workers on the reference cluster, for the properties
  of sequences of steps.
\<close>

section \<open>Two passes over the same content\<close>

definition rolling_twice :: fvsecret where
  "rolling_twice = cr0\<lparr>fs_Spec := (fs_Spec cr0)\<lparr>ss_RolloutRestart := [\<lparr>wr_Kind = ''Deployment'', wr_Name = ''web''\<rparr>]\<rparr>\<rparr>"

definition status_in :: "cluster \<Rightarrow> nname \<Rightarrow> secret_status" where
  "status_in w k = (case map_of (cl_crs w) k of None \<Rightarrow> fs_Status cr0 | Some cr \<Rightarrow> fs_Status cr)"

definition content :: "string gomap" where "content = [(''k'', ''v''), (''l'', ''u'')]"

lemma cluster_remembers: "remembers E0 cl_secrets status_in"
  unfolding remembers_def
  by (intro conjI cluster_upserts cluster_reads_secrets cluster_status_secrets)
    (auto simp: workload_writes_keep_def keeps_def world0 wp_def status_in_def resource_key_def same_identity_def put_alist_def update_conv'
      split: option.splits)

lemma cluster_workloads:
  "reads_keep cl_workloads E0" "status_writes_keep cl_workloads E0" "keeps cl_workloads (e_create_or_update E0 ctx s f)"
  by (auto simp: reads_keep_def status_writes_keep_def keeps_def world0 Let_def split: sum.splits)

lemmas pass_simps = secret_write_def targetContentHash_def recordPendingRollout_def ensureTargetSecret_def
  secret_finish_def rolloutIfDue_def synced_status_def setRolloutCondition_def set_cr_condition_def setCondition_def
  mutate_target_def adoptable_def secretBytes_def run_in_world world0 missing_error_def proc0_def target_key_def
  targetName_def empty_meta_def rolloutDue_def set_status_def resource_key_def put_alist_def revealed0_def metric_calls
  metric_def set_sec_meta_def lookup_str_def

lemma first_write:
  "\<exists>outcome q cr2. run_state (secret_write E0 r0 None rolling_twice False revealed0 content)
      (proc0\<lparr>p_world := rolling_cluster\<rparr>) = ((outcome, ''success''), q) \<and>
    fst (run_state (e_get_secret_cr E0 None (resource_key rolling_twice)) (p_world q)) = Inr cr2 \<and>
    resource_key cr2 = resource_key rolling_twice \<and> targetName cr2 = targetName rolling_twice"
proof -
  obtain h where h: "hashSecretData content = h" by blast
  show ?thesis
    by (simp add: pass_simps h Let_def rolling_twice_def rolling_simps)
qed

lemma second_pass_restarts_nothing_witness:
  "\<exists>p2 cr2. map_of (cl_crs (p_world p2)) (''ns'', ''app'') = Some cr2 \<and>
     cl_workloads (p_world (snd (run_state (secret_write E0 r0 None cr2 False revealed0 (rev content)) p2))) =
       cl_workloads (p_world p2)"
proof -
  obtain outcome q cr2 where q: "run_state (secret_write E0 r0 None rolling_twice False revealed0 content)
      (proc0\<lparr>p_world := rolling_cluster\<rparr>) = ((outcome, ''success''), q)"
    "fst (run_state (e_get_secret_cr E0 None (resource_key rolling_twice)) (p_world q)) = Inr cr2"
    "resource_key cr2 = resource_key rolling_twice" "targetName cr2 = targetName rolling_twice"
    using first_write by blast
  have maps: "same_map (rev content) content" "wf_map (rev content)" "wf_map content"
    by (auto simp: content_def wf_map_def same_map_def fun_eq_iff)
  have "map_of (cl_crs (p_world q)) (''ns'', ''app'') = Some cr2"
    using q(2) by (simp add: world0 resource_key_def rolling_twice_def cr0_def meta0_def split: option.splits)
  moreover have "cl_workloads (p_world (snd (run_state (secret_write E0 r0 None cr2 False revealed0 (rev content)) q))) =
      cl_workloads (p_world q)"
    by (rule second_pass_restarts_nothing [OF cluster_remembers cluster_owner_only cluster_removes cluster_workloads q(1,2) refl q(3,4)
          refl maps])
  ultimately show ?thesis by blast
qed

section \<open>A pass from the connection to the status\<close>

definition answering :: "cluster secret_reconciler" where
  "answering = r0\<lparr>sr_Broker := Some (NewTokenBroker E0),
     sr_ClientFactory := Some (\<lambda>_ _. Inr \<lparr>fc_BulkReveal = (\<lambda>_ _ _ _ _ _. ret (Inr revealed0)),
       fc_RevealFromVault = (\<lambda>_ _ _. ret (Inr revealed0))\<rparr>)\<rparr>"

lemma first_pass:
  "\<exists>outcome q. run_state (secret_connect E0 answering None (''ns'', ''app'') cr0)
     (proc_with_secret (''ns'', ''token'') token_secret) = ((outcome, ''success''), q)"
proof -
  have trimmed: "TrimSpace '' tok '' = ''tok''" by code_simp
  obtain h where h: "hashSecretData [(''k'', ''v'')] = h" by blast
  have transforms: "ApplyTransforms pf0 [(''k'', ''v'')] [] = ([(''k'', ''v'')], None)"
    by (simp add: ApplyTransforms_def copy_map_def)
  show ?thesis
    by (simp add: secret_connect_def loadToken_def with_broker_def TokenFor_def loadFromSecret_def answering_def r0_def
        proc_with_secret_def token_secret_def trimmed reveal_call_def ResolvedMode_def Spec_ResolvedMode_def ModeCloud_def ModeFerrVault_def secret_react_def
        secret_apply_def secret_guard_def connectionTokenKey_def forget_def transforms pass_simps h Let_def cr0_def conn0_def
        meta0_def cluster0_def)
qed

lemma success_means_in_sync_witness:
  "\<exists>outcome q data. run_state (secret_connect E0 answering None (''ns'', ''app'') cr0)
     (proc_with_secret (''ns'', ''token'') token_secret) = ((outcome, ''success''), q) \<and> in_sync cl_secrets status_in cr0 data (p_world q)"
proof -
  obtain outcome q where q: "run_state (secret_connect E0 answering None (''ns'', ''app'') cr0)
      (proc_with_secret (''ns'', ''token'') token_secret) = ((outcome, ''success''), q)"
    using first_pass by blast
  from wp_run [OF success_means_in_sync [OF cluster_remembers cluster_owner_only cluster_removes] q] q show ?thesis by auto
qed

section \<open>Runs of the operator\<close>

text \<open>FerrVault answers every request with one key.\<close>

definition E1 :: "cluster env" where
  "E1 = cluster_env pf0 (\<lambda>_. answer 200 ''{\"secrets\":{\"k\":\"v\"}}'') ''jwt''"

definition under_own_names :: "cluster \<Rightarrow> bool" where
  "under_own_names w \<longleftrightarrow> (\<forall>(k, cr)\<in>set (cl_crs w). k = (fs_Namespace cr, fs_Name cr)) \<and>
     (\<forall>(k, c)\<in>set (cl_conns w). k = (cn_Namespace c, cn_Name c))"

definition tokens_in :: "cluster \<Rightarrow> nname set" where
  "tokens_in w = \<Union>(named_token ` snd ` set (cl_conns w))"

definition time_passes :: "cluster \<Rightarrow> cluster \<Rightarrow> bool" where
  "time_passes w w' \<longleftrightarrow> w' = w\<lparr>cl_now := cl_now w + second\<rparr>"

lemma set_put_alist: "set (put_alist k v m) \<subseteq> insert (k, v) (set m)"
  unfolding put_alist_def by (induction m) auto

lemma cluster_serves: "serves_objects E1 under_own_names cl_secrets tokens_in UNIV"
  unfolding serves_objects_def
proof (intro conjI allI impI ballI)
  fix ctx ns n w assume "under_own_names w"
  then show "answers (\<lambda>cr. fs_Namespace cr = ns \<and> om_uid (fs_meta cr) \<in> UNIV) (fst (run_state (e_get_secret_cr E1 ctx (ns, n)) w))"
    "answers (\<lambda>c. cn_Namespace c = ns \<and> named_token c \<subseteq> tokens_in w) (fst (run_state (e_get_connection E1 ctx (ns, n)) w))"
    by (auto simp: E1_def world0 under_own_names_def tokens_in_def split: option.split dest!: map_of_SomeD)
next
  fix ctx cr w wr
  assume "under_own_names w \<and> om_uid (fs_meta cr) \<in> UNIV" "wr \<in> {e_update_secret_cr E1 ctx cr, e_status_secret_cr E1 ctx cr}"
  then show "wp wr (\<lambda>r w'. under_own_names w' \<and> cl_secrets w' = cl_secrets w \<and> tokens_in w' = tokens_in w \<and>
      answers (\<lambda>y. fs_Namespace y = fs_Namespace cr \<and> om_uid (fs_meta y) = om_uid (fs_meta cr) \<and> targetName y = targetName cr) r) w"
    using set_put_alist [of "(fs_Namespace cr, fs_Name cr)" cr "cl_crs w"]
    by (auto simp: E1_def world0 wp_def under_own_names_def tokens_in_def)
next
  fix ctx c w wr
  assume "under_own_names w" "wr \<in> {e_update_connection E1 ctx c, e_status_connection E1 ctx c}"
  then show "wp wr (\<lambda>r w'. under_own_names w' \<and> cl_secrets w' = cl_secrets w \<and> tokens_in w' \<subseteq> tokens_in w \<union> named_token c \<and>
      answers (\<lambda>y. cn_Namespace y = cn_Namespace c \<and> named_token y \<subseteq> named_token c) r) w"
    using set_put_alist [of "(cn_Namespace c, cn_Name c)" c "cl_conns w"]
    by (auto simp: E1_def world0 wp_def under_own_names_def tokens_in_def)
next
  show "keeps (\<lambda>w. (tokens_in w, under_own_names w)) (e_create_or_update E1 ctx s f)" for ctx s f
    by (auto simp: keeps_def E1_def world0 tokens_in_def under_own_names_def Let_def split: sum.splits)
  show "reads_keep (\<lambda>w. (cl_secrets w, tokens_in w, under_own_names w)) E1"
    by (auto simp: reads_keep_def keeps_def E1_def world0 tokens_in_def under_own_names_def)
  show "workload_writes_keep (\<lambda>w. (cl_secrets w, tokens_in w, under_own_names w)) E1"
    by (auto simp: workload_writes_keep_def keeps_def E1_def world0 tokens_in_def under_own_names_def)
qed

text \<open>Someone else's Secret has the name of the target.\<close>

definition others_secret :: k8s_secret where
  "others_secret = token_secret\<lparr>sec_meta := meta0 ''app''\<rparr>"

definition occupied :: "cluster proc" where
  "occupied = proc0\<lparr>p_world := cluster0\<lparr>cl_secrets :=
     [(''ns'', ''app'') \<mapsto> others_secret, (''ns'', ''token'') \<mapsto> token_secret]\<rparr>\<rparr>"

abbreviation after_passes :: "cluster proc \<Rightarrow> cluster proc" where
  "after_passes p \<equiv>
     snd (run_state (Secret_Reconcile E1 (secret_reconciler_of E1 default_flags) None (''ns'', ''app''))
       (snd (run_state (Connection_Reconcile E1 (connection_reconciler_of E1) None (''ns'', ''conn'')) p)))"

lemma two_passes: "operator_run E1 default_flags outside p (after_passes p)"
  by (rule operator_run.more [OF operator_run.more [OF operator_run.start operator_step.connection_pass]
        operator_step.secret_pass])

lemma foreign_secret_untouched_witness:
  "cl_secrets (p_world (after_passes occupied)) (''ns'', ''app'') = Some others_secret"
proof -
  have "finalizers_only E1"
    unfolding finalizers_only_def
  proof (intro allI ballI)
    fix m :: objmeta and f edit assume "edit \<in> {e_AddFinalizer E1, e_RemoveFinalizer E1}"
    moreover have "\<exists>fs. m = m\<lparr>om_finalizers := fs\<rparr>" by (rule exI [of _ "om_finalizers m"]) simp
    ultimately show "\<exists>fs. fst (edit m f) = m\<lparr>om_finalizers := fs\<rparr>" by (auto simp: E1_def cluster_env_def)
  qed
  show ?thesis
  proof (rule foreign_secret_untouched [OF cluster_serves _ _ _ _ _ _ _ two_passes [where outside = time_passes]])
  show "upserts cl_secrets E1" by (simp add: E1_def cluster_upserts)
  show "finalizers_only E1" by fact
  show "foreign UNIV others_secret" by (simp add: foreign_def others_secret_def token_secret_def meta0_def lookup_def)
  show "cl_secrets (p_world occupied) (''ns'', ''app'') = Some others_secret"
    "(''ns'', ''app'') \<notin> tokens_in (p_world occupied)" "under_own_names (p_world occupied)"
    by (simp_all add: occupied_def proc0_def cluster0_def tokens_in_def named_token_def under_own_names_def conn0_def cr0_def
        meta0_def)
  show "under_own_names w' \<and> cl_secrets w' (''ns'', ''app'') = cl_secrets w (''ns'', ''app'') \<and>
      ((''ns'', ''app'') \<notin> tokens_in w \<longrightarrow> (''ns'', ''app'') \<notin> tokens_in w')"
    if "time_passes w w'" "under_own_names w" for w w'
    using that by (auto simp: time_passes_def under_own_names_def tokens_in_def)
  qed
qed

lemma cluster_stores: "stores_statuses E1 (\<lambda>w. snd ` set (cl_crs w)) (\<lambda>w. snd ` set (cl_conns w))"
  unfolding stores_statuses_def
proof (intro conjI allI ballI)
  show "reads_keep (\<lambda>w. (snd ` set (cl_crs w), snd ` set (cl_conns w))) E1"
    by (auto simp: reads_keep_def keeps_def E1_def world0)
  show "workload_writes_keep (\<lambda>w. (snd ` set (cl_crs w), snd ` set (cl_conns w))) E1"
    by (auto simp: workload_writes_keep_def keeps_def E1_def world0)
  show "keeps (\<lambda>w. (snd ` set (cl_crs w), snd ` set (cl_conns w))) (e_create_or_update E1 ctx t f)" for ctx t f
    by (auto simp: keeps_def E1_def world0 Let_def split: sum.splits)
  fix ctx ns n w
  show "answers (\<lambda>cr. cr \<in> snd ` set (cl_crs w)) (fst (run_state (e_get_secret_cr E1 ctx (ns, n)) w))"
    "answers (\<lambda>c. c \<in> snd ` set (cl_conns w)) (fst (run_state (e_get_connection E1 ctx (ns, n)) w))"
    by (force simp: E1_def world0 split: option.split dest!: map_of_SomeD)+
next
  fix ctx cr w wr assume "wr \<in> {e_update_secret_cr E1 ctx cr, e_status_secret_cr E1 ctx cr}"
  then show "wp wr (\<lambda>r w'. snd ` set (cl_conns w') = snd ` set (cl_conns w) \<and>
      fs_Status ` snd ` set (cl_crs w') \<subseteq> insert (fs_Status cr) (fs_Status ` snd ` set (cl_crs w)) \<and>
      answers (\<lambda>y. fs_Status y \<in> insert (fs_Status cr) (fs_Status ` snd ` set (cl_crs w)) \<and> targetName y = targetName cr) r) w"
    using set_put_alist [of "(fs_Namespace cr, fs_Name cr)" cr "cl_crs w"]
    by (force simp: E1_def world0 wp_def)
next
  fix ctx c w wr assume "wr \<in> {e_update_connection E1 ctx c, e_status_connection E1 ctx c}"
  then show "wp wr (\<lambda>r w'. snd ` set (cl_crs w') = snd ` set (cl_crs w) \<and>
      cn_Status ` snd ` set (cl_conns w') \<subseteq> insert (cn_Status c) (cn_Status ` snd ` set (cl_conns w)) \<and>
      answers (\<lambda>y. cn_Status y \<in> insert (cn_Status c) (cn_Status ` snd ` set (cl_conns w))) r) w"
    using set_put_alist [of "(cn_Namespace c, cn_Name c)" c "cl_conns w"]
    by (force simp: E1_def world0 wp_def)
qed

lemma statuses_stay_well_formed_witness:
  "list_all (\<lambda>(_, cr). wf_secret_status (fs_Status cr)) (cl_crs (p_world (after_passes occupied))) \<and>
   list_all (\<lambda>(_, c). wf_connection_status (cn_Status c)) (cl_conns (p_world (after_passes occupied)))"
proof -
  have "removes_type E1" by (simp add: E1_def cluster_removes)
  moreover have "statuses_ok (\<lambda>w. snd ` set (cl_crs w)) (\<lambda>w. snd ` set (cl_conns w)) w'"
    if "time_passes w w'" "statuses_ok (\<lambda>w. snd ` set (cl_crs w)) (\<lambda>w. snd ` set (cl_conns w)) w" for w w'
    using that by (simp add: time_passes_def statuses_ok_def)
  moreover have "statuses_ok (\<lambda>w. snd ` set (cl_crs w)) (\<lambda>w. snd ` set (cl_conns w)) (p_world occupied)"
    by (simp add: statuses_ok_def occupied_def proc0_def cluster0_def cr0_def conn0_def wf_secret_status_def
        wf_connection_status_def wf_conditions_def)
  ultimately show ?thesis
    using statuses_stay_well_formed [OF cluster_stores _ _ _ two_passes [where outside = time_passes and p = occupied]]
    by (auto simp: list_all_iff)
qed

section \<open>The broker's workers\<close>

definition oidc0 :: oidc_auth where "oidc0 = \<lparr>oa_ClusterID = ''c1'', oa_TokenPath = [], oa_Audience = []\<rparr>"

definition b0 :: "cluster broker" where
  "b0 = \<lparr>br_ReadToken = readFileString E0, br_Exchange = (\<lambda>_ _ _ _. ret (Inr (''new'', 100 * second)))\<rparr>"

lemma oidc_conn_auth: "cs_TokenSecretRef (cn_Spec oidc_conn) = None" "cs_OIDC (cn_Spec oidc_conn) = Some oidc0"
  by (simp_all add: conn_simps oidc0_def)

definition token_file :: string where "token_file = ''jwt''"

text \<open>Two calls for one connection: both miss the cache, both exchange, and the second store wins.\<close>

lemma call_alone:
  "run_state (worker_step E0 b0 None (Calling oidc_conn oidc0)) proc0 = (Reading oidc_conn oidc0, proc0)"
  "run_state (worker_step E0 b0 None (Reading oidc_conn oidc0)) proc0 = (Exchanging oidc_conn oidc0 token_file, proc0)"
  "run_state (worker_step E0 b0 None (Exchanging oidc_conn oidc0 token_file)) proc0 =
     (Storing oidc_conn ''new'' (100 * second), proc0)"
  "\<exists>q. run_state (worker_step E0 b0 None (Storing oidc_conn ''new'' (100 * second))) p = (Finished oidc_conn (Inr ''new''), q)"
proof -
  have "TrimSpace ''jwt'' = ''jwt''" by code_simp
  then show "run_state (worker_step E0 b0 None (Reading oidc_conn oidc0)) proc0 = (Exchanging oidc_conn oidc0 token_file, proc0)"
    by (simp add: Let_def run_in_world b0_def readFileString_def cluster_env_def token_file_def)
qed (simp_all add: cacheGet_def cachePut_def run_in_world b0_def proc0_def)

abbreviation "before_store \<equiv> [Storing oidc_conn ''new'' (100 * second), Storing oidc_conn ''new'' (100 * second)]"

lemma two_calls:
  "broker_reach E0 b0 (before_store, [(oidc_conn, oidc0, ''new'', 100 * second), (oidc_conn, oidc0, ''new'', 100 * second)], proc0)"
proof -
  note go = broker_reach.more
  have r0: "broker_reach E0 b0 ([Calling oidc_conn oidc0, Calling oidc_conn oidc0], [], proc0)"
  proof -
    have "broker_reach E0 b0 ([], [], proc0)" by (rule broker_reach.start) (simp add: proc0_def cache_entry_def)
    from go [OF go [OF this broker_step.call [OF oidc_conn_auth]] broker_step.call [OF oidc_conn_auth]] show ?thesis by simp
  qed
  have step: "broker_reach E0 b0 (ws[i := w'], issued_by (ws ! i) w' @ issued, proc0)"
    if "broker_reach E0 b0 (ws, issued, proc0)" "i < length ws" "run_state (worker_step E0 b0 None (ws ! i)) proc0 = (w', proc0)"
    for ws i w' issued
    by (rule go [OF that(1) broker_step.work [OF that(2,3)]])
  have r1: "broker_reach E0 b0 ([Reading oidc_conn oidc0, Reading oidc_conn oidc0], [], proc0)"
    using step [OF step [OF r0, where i = 0], where i = 1] call_alone(1) by simp
  have r2: "broker_reach E0 b0 ([Exchanging oidc_conn oidc0 token_file, Exchanging oidc_conn oidc0 token_file], [], proc0)"
    using step [OF step [OF r1, where i = 0], where i = 1] call_alone(2) by simp
  show ?thesis
    using step [OF step [OF r2, where i = 0], where i = 1] call_alone(3) by simp
qed

lemma bearer_issued_for_connection_witness:
  "\<exists>ws issued p c auth x. broker_reach E0 b0 (ws, issued, p) \<and> Finished oidc_conn (Inr ''new'') \<in> set ws \<and>
     (c, auth, ''new'', x) \<in> set issued \<and> cn_Name c = ''conn''"
proof -
  obtain q where q: "run_state (worker_step E0 b0 None (before_store ! 0)) proc0 = (Finished oidc_conn (Inr ''new''), q)"
    using call_alone(4) by (simp only: nth_Cons_0) blast
  let ?ws = "before_store[0 := Finished oidc_conn (Inr ''new'')]"
  have reach: "broker_reach E0 b0 (?ws, issued_by (before_store ! 0) (Finished oidc_conn (Inr ''new'')) @
      [(oidc_conn, oidc0, ''new'', 100 * second), (oidc_conn, oidc0, ''new'', 100 * second)], q)"
    by (rule broker_reach.more [OF two_calls broker_step.work [OF _ q]]) simp
  have fin: "Finished oidc_conn (Inr ''new'') \<in> set ?ws" by simp
  from reach fin bearer_issued_for_connection [OF reach fin] show ?thesis by (force simp: conn_simps)
qed

section \<open>The command line\<close>

definition zap_flags :: library_flags where
  "zap_flags name = (if name = ''zap-log-level'' then Some (False, \<lambda>text. text \<in> {''debug'', ''info''}) else None)"

definition chart_args :: "(string \<times> string option) list" where
  "chart_args =
     [(''leader-elect'', None), (''metrics-bind-address'', Some '':8443''), (''zap-log-level'', Some ''info''),
      (''reconcile-timeout'', Some ''2m''), (''watch-namespace'', Some ''apps''), (''reconcile-timeout'', Some ''1m30s'')]"


end
