(* ===== verification/Spec2Isabelle.thy ===== *)
theory Spec2Isabelle
  imports Run_Scenarios
begin

text \<open>
  A verification development for the FerrVault operator, the Kubernetes operator that copies
  secrets of a FerrVault vault into Kubernetes Secrets.

  \<^bold>\<open>The program.\<close>  Two reconcilers run in one process (\<open>cmd/main.go\<close>).  The FerrVaultConnection
  reconciler probes an API instance, keeps its Ready condition and holds a connection back
  from deletion while something refers to it.  The FerrVaultSecret reconciler resolves a bearer
  for its connection (\<open>token_broker.go\<close>), reveals the requested keys (\<open>internal/ferrvault\<close>),
  rewrites them (\<open>transforms.go\<close>), writes the target Secret unless a guard says no, restarts
  workloads when the content changed and reports in the status.  Both share the broker's cache,
  a heartbeat that a liveness probe reads, and the metrics; each has its own ledger of 429s.

  \<^bold>\<open>The theories\<close>, in the order of their imports.

  \<^item> \<open>Prelude\<close>, \<open>Effects\<close>: Go's basic types, 64-bit wrap-around, maps as association lists, the
    state monad and its calculi \<open>wp\<close>, \<open>keeps\<close>, \<open>yields\<close> and \<open>guarantees\<close>.
  \<^item> \<open>Go_Error\<close>, \<open>Go_Strings\<close>, \<open>Go_Float\<close>, \<open>Go_Json\<close>, \<open>Go_Base64\<close>, \<open>Go_Sha256\<close>,
    \<open>Go_Duration\<close>, \<open>Go_Time\<close>, \<open>Go_Url\<close>: what the program uses of the standard library, and its
    own typed errors (in \<open>Go_Error\<close>).
  \<^item> \<open>Api_Types\<close>: the resources of \<open>api/ferrvault/v1alpha1\<close> and the parts of Kubernetes objects
    the controllers touch.
  \<^item> \<open>Env\<close>: the world outside the process as a record of operations, one per library call
    (Kubernetes client, HTTP transport, clock, random source, files), the laws the theorems ask
    of it, and the state of the process.
  \<^item> \<open>Transforms\<close> (\<open>transforms.go\<close>), \<open>Rate_Backoff\<close> (\<open>rate_limit_backoff.go\<close>), \<open>Metrics\<close>
    (\<open>metrics.go\<close>), \<open>Heartbeat\<close> (\<open>heartbeat.go\<close>), \<open>Shared\<close> (\<open>shared.go\<close>), \<open>Http_Client\<close>
    (\<open>client.go\<close>), \<open>Token_Broker\<close> (\<open>token_broker.go\<close>), \<open>Secret_Sync\<close> (\<open>ferrvaultsecret_sync.go\<close>,
    \<open>_guard.go\<close>, \<open>_status.go\<close>), \<open>Secret_Reconciler\<close> (\<open>ferrvaultsecret_controller.go\<close>),
    \<open>Connection_Reconciler\<close> (\<open>ferrvaultconnection_controller.go\<close>), \<open>Watches\<close>
    (\<open>ferrvaultsecret_watch.go\<close> and the two \<open>SetupWithManager\<close>),
    \<open>Manager\<close> (\<open>cmd/main.go\<close>: the flags, the options, the sequence of start-up steps and its
    exits), \<open>Command_Line\<close> (what comes before: the scheme of \<open>groupversion_info.go\<close>, the flag
    table, \<open>flag.Parse\<close>): one definition per function, with the source's names.
  \<^item> \<open>Deep_Copy\<close>: the structs of the API package with their pointers and slices as addresses of a
    typed memory, and every \<open>DeepCopyInto\<close>, \<open>DeepCopy\<close> and \<open>DeepCopyObject\<close> on it.
  \<^item> \<open>Client_Facts\<close>, \<open>Secret_Facts\<close>, \<open>Target_Facts\<close>, \<open>Connection_Facts\<close>: what the client and the
    two reconcilers guarantee.
  \<^item> \<open>Pass_Contract\<close>: whole passes. From laws of the API server and of the edits a pass makes to a
    resource, every pass of either reconciler keeps an invariant of the world. \<open>Operator\<close>: the
    operator as a transition system whose steps are the passes, the map functions of the watches,
    the liveness check and moves of the world, with the invariants of all its runs.
    \<open>Convergence\<close>: a pass that reports success has put target and status in sync with what
    FerrVault answered, and leaves nothing to do for the next one.
  \<^item> \<open>Broker_Workers\<close>: calls of the broker as workers that interleave between the sections its
    mutex protects, shown to add up to \<open>TokenFor\<close>, and the invariant of the cache under all
    interleavings.
  \<^item> \<open>Reference_Cluster\<close>: an in-memory cluster with a scripted FerrVault server, on which the laws
    are shown to hold; \<open>Scenarios\<close>, \<open>Run_Scenarios\<close>: every property with hypotheses at a
    concrete input.

  \<^bold>\<open>How the state corresponds.\<close>  \<open>'w proc\<close> is the process: the world \<open>p_world\<close>, the attempts of
  the two \<open>rateLimitBackoff\<close> ledgers, the broker's cache, \<open>Heartbeat.last\<close>, and the calls made to
  the Prometheus client.  A function that assigns through a pointer returns the new value; an
  error is \<open>Inl\<close>.  \<open>Reconcile\<close> of a secret is cut into consecutive parts (\<open>secret_body\<close>,
  \<open>secret_connect\<close>, \<open>secret_react\<close>, \<open>secret_apply\<close>, \<open>secret_guard\<close>, \<open>secret_write\<close>,
  \<open>secret_finish\<close>), each calling the next, and the deferred calls follow in \<open>Secret_Reconcile\<close>.

  \<^bold>\<open>Interfaces\<close> are locales, interpreted on the code's own definitions:
  \<open>transform_engine\<close> (the pipeline over a single transform), \<open>classifier\<close> (a response classifier of
  the retry loop), \<open>bearer_cache\<close>, \<open>backoff_ledger\<close>, \<open>progress_clock\<close> (the heartbeat),
  \<open>reveal_backend\<close> (the client as the reconciler sees it), \<open>token_source\<close> (the broker as it sees it),
  and for the deep copies \<open>typed_memory\<close>, its extension \<open>array_memory\<close>, \<open>deep_copy\<close> (the contract of a
  \<open>DeepCopyInto\<close>) and \<open>api_library\<close> (what the copies of the metas promise).

  \<^bold>\<open>Bounds.\<close>  Loops recurse on a list or, for the retry loop, on the remaining attempts, so every
  definition is total; \<open>flag_Parse\<close> recurses on the arguments.  Durations and counters are integers; where an overflow could matter the
  64-bit wrap-around is written out (\<open>wrap64\<close>), and floats are rationals rounded to binary64.

  \<^bold>\<open>What is shown.\<close>  The properties are numbered; each stands in the theory of the part it is
  about and, where it has hypotheses, has a case in one of the scenario theories (or beside it,
  here).  They say what a pass may write and when it writes nothing, that no run of the operator
  touches a Secret of somebody else, that statuses stay well formed and an unchanged content
  restarts nothing, whose bearer a connection gets and what its Ready condition may say, that the
  retry loop equals its reference and fits the reconcile timeout, that a failure changes one
  condition only and every pass is reported once, that the settings of a command line are those in
  force, that errors
  keep their kind from the status of an answer to the condition of the resource (the last
  section of this theory), that maps in any iteration order give the same data and digest
  and, but for which of several clashes is named, the same errors, that a failed restart is tried again, and that deep copies share no memory.  Some
  state what the code does where its comments promise more.

  \<^bold>\<open>Not modelled.\<close>  Logging, and with it the effect of zap's flags; controller-runtime, the scheme
  and the Prometheus registry, which are parameters; the generated manifests and the Helm chart.
  Contexts are known by their deadline.  A locked method is one step.  A pass is one step of
  \<open>Operator\<close>: two passes of the same resource never overlap in controller-runtime, passes of the
  two controllers can, and their interleavings are seen only where they meet inside the process,
  in the broker (\<open>Broker_Workers\<close>).
\<close>

section \<open>From the answer to the condition\<close>

text \<open>
  Property C19: the kind of a failure survives from the answer of the server to the status of the
  resource. If the only answer a reveal gets has a status outside 5xx that is neither 200 nor
  429, the pass ends as a failure and has written, last of all, the status of the resource with
  Ready=False and the reason AuthFailed for 401 and 403, VaultNotFound for 404 and Unreachable
  otherwise, without moving the observed generation; unless that write failed it comes back
  after five minutes for AuthFailed and after the refresh interval for the others.
\<close>

theorem failed_reveal_is_explained:
  assumes "api_answers E ctx cnt sent" "sent (cnt (p_world p)) = Inr resp" "rs_Body resp = Inr body"
    and "\<not> (500 \<le> rs_StatusCode resp \<and> rs_StatusCode resp \<le> 599)" "rs_StatusCode resp \<notin> {200, 429}"
    and "url_Parse (e_pf E) (url_String (endpoint c ''/operator/secrets/reveal'')) \<noteq> None"
    and "ResolvedMode conn = ModeFerrVault"
  shows "wp (State_Monad.bind (in_world (reveal_call (api_of_client E c) ctx cr conn))
        (secret_react E r ctx req cr conn))
      (\<lambda>(outcome, label) p'. label = ''failure'' \<and>
        (\<exists>cr' w cd. (case run_state (e_status_secret_cr E ctx cr') w of
            (Inl e, w') \<Rightarrow> p_world p' = w' \<and> snd outcome \<noteq> None
          | (Inr _, w') \<Rightarrow> p_world p' = w' \<and>
              outcome = requeue (if rs_StatusCode resp \<in> {401, 403} then 5 * minute else refreshInterval r cr)) \<and>
          fs_Spec cr' = fs_Spec cr \<and> fs_meta cr' = fs_meta cr \<and>
          sst_ObservedGeneration (fs_Status cr') = sst_ObservedGeneration (fs_Status cr) \<and>
          find_condition ''Ready'' (sst_Conditions (fs_Status cr')) = Some cd \<and> c_status cd = ConditionFalse \<and>
          c_reason cd = (if rs_StatusCode resp \<in> {401, 403} then ''AuthFailed''
             else if rs_StatusCode resp = 404 then ''VaultNotFound'' else ''Unreachable''))) p"
    (is "wp _ ?Q p")
proof -
  define why where "why = (if rs_StatusCode resp \<in> {401, 403} then ''AuthFailed''
    else if rs_StatusCode resp = 404 then ''VaultNotFound'' else ''Unreachable'')"
  define after where "after = (if rs_StatusCode resp \<in> {401, 403} then 5 * minute else refreshInterval r cr)"
  note defs = why_def [symmetric] after_def [symmetric]
  have told: "wp (failed (failReadyWithRequeue E ctx cr why message after)) ?Q q" for message q
    unfolding wp_bind wp_return prod.case defs
    by (rule wp_mono [OF failReady_stamps]) (elim conjE exE, intro conjI exI, rule refl, assumption+)
  have react: "wp (secret_react E r ctx req cr conn (Inl e)) ?Q q"
    if e: "IsAuthError (Some e) \<longleftrightarrow> rs_StatusCode resp \<in> {401, 403}"
      "IsNotFound (Some e) \<longleftrightarrow> rs_StatusCode resp = 404" "\<not> IsRateLimited (Some e)" for e q
  proof -
    have run: "secret_react E r ctx req cr conn (Inl e) =
        State_Monad.bind (forget SecretController req) (\<lambda>_. failed (failReadyWithRequeue E ctx cr why (err_Error e) after))"
      unfolding secret_react_def sum.case if_not_P [OF e(3)] e(1,2) why_def after_def
      by (cases "rs_StatusCode resp \<in> {401, 403}"; cases "rs_StatusCode resp = 404") (simp_all only: if_True if_False simp_thms)
    show ?thesis
      unfolding run unfolding wp_bind [of "forget SecretController req"]
      unfolding forget_def wp_modify by (rule told)
  qed
  show ?thesis
    unfolding wp_bind [of "in_world _"] wp_in_world reveal_call_def if_P [OF assms(7)] api_of_client_def fv_api.simps
  proof (rule wp_mono [OF reveal_answered [OF assms(1-4,6)]])
    fix x :: "goerror + reveal_response" and w
    assume x: "cnt w = Suc (cnt (p_world p)) \<and> (case x of Inr _ \<Rightarrow> rs_StatusCode resp = 200
       | Inl e \<Rightarrow> (IsAuthError (Some e) \<longleftrightarrow> rs_StatusCode resp \<in> {401, 403}) \<and>
           (IsNotFound (Some e) \<longleftrightarrow> rs_StatusCode resp = 404) \<and>
           (IsRateLimited (Some e) \<longleftrightarrow> rs_StatusCode resp = 429))"
    show "wp (secret_react E r ctx req cr conn x) ?Q (p\<lparr>p_world := w\<rparr>)"
    proof (cases x)
      case (Inl e)
      show ?thesis
        unfolding Inl by (rule react) (use x assms(5) in \<open>simp_all add: Inl\<close>)
    next
      case (Inr rv)
      with x assms(5) show ?thesis by simp
    qed
  qed
qed

lemma failed_reveal_is_explained_witness:
  "wp (State_Monad.bind (in_world (reveal_call
         (api_of_client (cluster_env pf0 (\<lambda>_. answer 404 []) []) client0) None cr0 conn0))
       (secret_react (cluster_env pf0 (\<lambda>_. answer 404 []) []) r0 None (''ns'', ''app'') cr0 conn0))
     (\<lambda>(outcome, label) _. label = ''failure'' \<and> (snd outcome = None \<longrightarrow> outcome = requeue hour)) proc0"
proof -
  have wide: "refreshInterval r0 cr0 = hour" by code_simp
  have mode: "ResolvedMode conn0 = ModeFerrVault" by code_simp
  show ?thesis
    by (rule wp_mono [OF failed_reveal_is_explained [OF cluster_answers, where resp = "\<lparr>rs_StatusCode = 404, rs_Body = Inr []\<rparr>"
          and body = "[]"]])
      (use targets_parse in \<open>auto simp: answer_def cluster_env_def wide mode split: prod.split_asm sum.split_asm\<close>,
       metis sum.exhaust surj_pair)
qed

end
